(* ===== verification/Prelude.thy ===== *)
theory Prelude
  imports Main "HOL-Library.Word"
begin

text \<open>
  The prelude of the development: the type names of the C and C++ integers the program
  uses, the ways a C or C++ program can leave the defined part of the language (\<open>ub\<close>), the
  composition of fallible operations (\<open>cbind\<close>), reachability in a transition system with the
  locale that turns a preserved predicate into an invariant of every reachable state, and the
  generic list lemmas the components share. The collections \<open>cstr_simps\<close> and \<open>res_simps\<close>
  carry the rewrite rules of the C string routines and of fallible composition.
\<close>

named_theorems cstr_simps \<open>characterisations of the C string routines\<close>
named_theorems res_simps \<open>composition of fallible operations\<close>

section \<open>Machine types\<close>

type_synonym u8 = "8 word"
type_synonym u16 = "16 word"
type_synonym u32 = "32 word"
type_synonym u64 = "64 word"
type_synonym bytes = "u8 list"

definition INT_MAX :: int where "INT_MAX = 2147483647"
definition INT_MIN :: int where "INT_MIN = - 2147483648"
definition LLONG_MAX :: int where "LLONG_MAX = 9223372036854775807"
definition LLONG_MIN :: int where "LLONG_MIN = - 9223372036854775808"

section \<open>Fallible operations\<close>

text \<open>
  What the language leaves undefined is a value of the model: an access outside an object,
  a dereferenced null pointer, a use of a freed object, a second free, a signed overflow,
  a read of an uninitialised object and the conversion of a floating-point value to an integer type
  that cannot hold it.
\<close>

datatype ub = OutOfBounds | NullPointer | UseAfterFree | DoubleFree | SignedOverflow | Uninitialised | BadConversion

type_synonym 'a cexec = "ub + 'a"

definition cbind :: "'e + 'a \<Rightarrow> ('a \<Rightarrow> 'e + 'b) \<Rightarrow> 'e + 'b" where
  "cbind m f = (case m of Inl e \<Rightarrow> Inl e | Inr x \<Rightarrow> f x)"

lemma cbind_Inr [simp, res_simps]: "cbind (Inr x) f = f x"
  by (simp add: cbind_def)

lemma cbind_Inl [simp, res_simps]: "cbind (Inl e) f = Inl e"
  by (simp add: cbind_def)

lemma cbind_eq_Inr: "cbind m f = Inr y \<longleftrightarrow> (\<exists>x. m = Inr x \<and> f x = Inr y)"
  by (simp add: cbind_def split: sum.splits)

lemma cbind_assoc [res_simps]: "cbind (cbind m f) g = cbind m (\<lambda>x. cbind (f x) g)"
  by (simp add: cbind_def split: sum.splits)

text \<open>A checked read of an array: \<open>value[i]\<close> where the object has \<open>length v\<close> elements.\<close>

definition rd :: "'a list \<Rightarrow> nat \<Rightarrow> 'a cexec" where
  "rd v i = (if i < length v then Inr (v ! i) else Inl OutOfBounds)"

lemma rd_in [simp]: "i < length v \<Longrightarrow> rd v i = Inr (v ! i)"
  by (simp add: rd_def)

lemma rd_out [simp]: "length v \<le> i \<Longrightarrow> rd v i = Inl OutOfBounds"
  by (simp add: rd_def)

text \<open>A variable or field that may not have been written yet.\<close>

datatype 'a slot = Uninit | Val 'a

definition rd_slot :: "'a slot \<Rightarrow> 'a cexec" where
  "rd_slot v = (case v of Uninit \<Rightarrow> Inl Uninitialised | Val x \<Rightarrow> Inr x)"

lemma rd_slot_simps [simp]: "rd_slot Uninit = Inl Uninitialised" "rd_slot (Val x) = Inr x"
  by (simp_all add: rd_slot_def)

section \<open>Reachable states and invariants\<close>

inductive reach :: "('s \<Rightarrow> bool) \<Rightarrow> ('s \<Rightarrow> 's \<Rightarrow> bool) \<Rightarrow> 's \<Rightarrow> bool"
  for ini :: "'s \<Rightarrow> bool" and step :: "'s \<Rightarrow> 's \<Rightarrow> bool" where
  reach_init: "ini s \<Longrightarrow> reach ini step s"
| reach_step: "reach ini step s \<Longrightarrow> step s t \<Longrightarrow> reach ini step t"

text \<open>
  The contract of an invariant: it holds initially and every step keeps it. Each state
  machine of the development interprets this locale and gets the invariant of its reachable
  states.
\<close>

locale inductive_invariant =
  fixes ini :: "'s \<Rightarrow> bool"
    and step :: "'s \<Rightarrow> 's \<Rightarrow> bool"
    and inv :: "'s \<Rightarrow> bool"
  assumes inv_init: "ini s \<Longrightarrow> inv s"
    and inv_step: "inv s \<Longrightarrow> step s t \<Longrightarrow> inv t"
begin

lemma reach_inv: "reach ini step s \<Longrightarrow> inv s"
  by (induction rule: reach.induct) (blast intro: inv_init inv_step)+

end

text \<open>The same contract for a machine driven by a list of events.\<close>

locale run_invariant =
  fixes exec :: "'e \<Rightarrow> 's \<Rightarrow> 's"
    and inv :: "'s \<Rightarrow> bool"
  assumes exec_inv: "inv s \<Longrightarrow> inv (exec e s)"
begin

lemma fold_inv: "inv s \<Longrightarrow> inv (fold exec es s)"
  by (induction es arbitrary: s) (auto intro: exec_inv)

end

text \<open>
  Threads of control that share a state: a schedule is the list of the labels of their steps. A
  label that is not enabled has no result, and nothing follows a step the language leaves undefined.
\<close>

fun sched :: "('l \<Rightarrow> 's \<Rightarrow> 's cexec option) \<Rightarrow> 'l list \<Rightarrow> 's \<Rightarrow> 's cexec option" where
  "sched step [] s = Some (Inr s)"
| "sched step (l # ls) s =
     (case step l s of
        None \<Rightarrow> None
      | Some (Inl e) \<Rightarrow> (if ls = [] then Some (Inl e) else None)
      | Some (Inr t) \<Rightarrow> sched step ls t)"

lemma sched_snoc:
  "sched step (ls @ [l]) s = Some r \<longleftrightarrow> (\<exists>u. sched step ls s = Some (Inr u) \<and> step l u = Some r)"
  by (induction ls arbitrary: s) (auto split: option.splits sum.splits if_splits)

text \<open>
  The contract of a fact about the past of a schedule: it holds before the first step, and every
  defined step extends it by its label.
\<close>

locale schedule =
  fixes step :: "'l \<Rightarrow> 's \<Rightarrow> 's cexec option"
    and ini :: "'s \<Rightarrow> bool"
    and past :: "'l list \<Rightarrow> 's \<Rightarrow> bool"
  assumes past_init: "ini s \<Longrightarrow> past [] s"
    and past_step: "past ls s \<Longrightarrow> step l s = Some (Inr t) \<Longrightarrow> past (ls @ [l]) t"
begin

lemma sched_past_from:
  "past hs s \<Longrightarrow> sched step ls s = Some (Inr t) \<Longrightarrow> past (hs @ ls) t"
proof (induction ls arbitrary: hs s)
  case (Cons l ls)
  then obtain u where "step l s = Some (Inr u)" "sched step ls u = Some (Inr t)"
    by (auto split: option.splits sum.splits if_splits)
  with Cons.IH [of "hs @ [l]" u] Cons.prems(1) show ?case by (simp add: past_step)
qed simp

lemma sched_past: "ini s \<Longrightarrow> sched step ls s = Some (Inr t) \<Longrightarrow> past ls t"
  using sched_past_from [of "[]" s ls t] past_init [of s] by simp

lemma sched_undef_from:
  "past hs s \<Longrightarrow> sched step ls s = Some (Inl e) \<Longrightarrow>
   \<exists>pre l u. ls = pre @ [l] \<and> past (hs @ pre) u \<and> step l u = Some (Inl e)"
proof (induction ls arbitrary: hs s)
  case (Cons l ls)
  consider "ls = []" "step l s = Some (Inl e)"
    | u where "step l s = Some (Inr u)" "sched step ls u = Some (Inl e)"
    using Cons.prems(2) by (auto split: option.splits sum.splits if_splits)
  then show ?case
  proof cases
    case 1
    with Cons.prems(1) show ?thesis by (intro exI [of _ "[]"]) auto
  next
    case 2
    with Cons.IH [of "hs @ [l]" u] Cons.prems(1) obtain pre l' v where
      "ls = pre @ [l']" "past (hs @ [l] @ pre) v" "step l' v = Some (Inl e)"
      by (auto simp: past_step)
    then show ?thesis by (intro exI [of _ "l # pre"]) auto
  qed
qed simp

lemma sched_undef:
  "ini s \<Longrightarrow> sched step ls s = Some (Inl e) \<Longrightarrow>
   \<exists>pre l u. ls = pre @ [l] \<and> past pre u \<and> step l u = Some (Inl e)"
  using sched_undef_from [of "[]" s ls e] past_init [of s] by simp

end

section \<open>Object lifetimes\<close>

text \<open>
  The contract of the allocator: releasing a live object succeeds and ends the life of that object
  only; releasing anything else is an error. What a client needs is what a sequence of releases does.
\<close>

fun release_all :: "('p \<Rightarrow> 'h \<Rightarrow> 'h cexec) \<Rightarrow> 'p list \<Rightarrow> 'h \<Rightarrow> 'h cexec" where
  "release_all rel [] h = Inr h"
| "release_all rel (p # ps) h = cbind (rel p h) (release_all rel ps)"

locale allocator =
  fixes release :: "'p \<Rightarrow> 'h \<Rightarrow> 'h cexec"
    and live :: "'h \<Rightarrow> 'p \<Rightarrow> bool"
  assumes release_live: "live h p \<Longrightarrow> \<exists>h'. release p h = Inr h' \<and> (\<forall>q. live h' q \<longleftrightarrow> live h q \<and> q \<noteq> p)"
    and release_dead: "\<not> live h p \<Longrightarrow> \<exists>e. release p h = Inl e"
begin

lemma release_Inr_iff: "(\<exists>h'. release p h = Inr h') \<longleftrightarrow> live h p"
  using release_live [of h p] release_dead [of h p] by (cases "live h p") auto

lemma release_all_iff:
  "(\<exists>h'. release_all release ps h = Inr h') \<longleftrightarrow> distinct ps \<and> (\<forall>p\<in>set ps. live h p)"
proof (induction ps arbitrary: h)
  case (Cons p ps)
  show ?case
  proof (cases "live h p")
    case True
    then obtain h' where "release p h = Inr h'" "\<forall>q. live h' q \<longleftrightarrow> live h q \<and> q \<noteq> p"
      using release_live by blast
    then show ?thesis using Cons.IH [of h'] True by auto
  next
    case False
    then show ?thesis using release_dead [of h p] by auto
  qed
qed simp

lemma release_all_live:
  "release_all release ps h = Inr h' \<Longrightarrow> live h' q \<longleftrightarrow> live h q \<and> q \<notin> set ps"
proof (induction ps arbitrary: h)
  case (Cons p ps)
  then obtain h1 where h1: "release p h = Inr h1" "release_all release ps h1 = Inr h'"
    by (auto simp: cbind_eq_Inr)
  then have "live h p" using release_Inr_iff by blast
  then have "live h1 q \<longleftrightarrow> live h q \<and> q \<noteq> p" using release_live h1(1) by fastforce
  then show ?case using Cons.IH [OF h1(2)] by auto
qed simp

end

lemma release_all_abs:
  "release_all rel [] = Inr" "release_all rel (p # ps) = (\<lambda>h. cbind (rel p h) (release_all rel ps))"
  by (simp_all add: fun_eq_iff)

section \<open>Loops that may not end\<close>

text \<open>
  A loop whose end depends on what its environment answers: round \<open>n\<close> goes on with a new state, \<open>Inl\<close>, or returns a result,
  \<open>Inr\<close>. \<open>None\<close> is a loop that never returns. \<open>keeps_on\<close> is the state after \<open>k\<close> rounds that all went on.
\<close>

partial_function (option) loop_from :: "(nat \<Rightarrow> 's \<Rightarrow> 's + 'r) \<Rightarrow> nat \<Rightarrow> 's \<Rightarrow> 'r option" where
  "loop_from step n s = (case step n s of Inl t \<Rightarrow> loop_from step (Suc n) t | Inr r \<Rightarrow> Some r)"

fun keeps_on :: "(nat \<Rightarrow> 's \<Rightarrow> 's + 'r) \<Rightarrow> nat \<Rightarrow> nat \<Rightarrow> 's \<Rightarrow> 's option" where
  "keeps_on step n 0 s = Some s"
| "keeps_on step n (Suc k) s = (case step n s of Inl t \<Rightarrow> keeps_on step (Suc n) k t | Inr r \<Rightarrow> None)"

lemma loop_from_returns:
  "keeps_on step n k s = Some t \<Longrightarrow> step (n + k) t = Inr r \<Longrightarrow> loop_from step n s = Some r"
proof (induction k arbitrary: n s)
  case 0
  then show ?case by (simp add: loop_from.simps [of step n t])
next
  case (Suc k)
  then obtain u where "step n s = Inl u" "keeps_on step (Suc n) k u = Some t" by (auto split: sum.splits)
  with Suc.IH [of "Suc n" u] Suc.prems(2) show ?case by (simp add: loop_from.simps [of step n s])
qed

lemma loop_from_Some:
  assumes "loop_from step n s = Some r"
  shows "\<exists>k t. keeps_on step n k s = Some t \<and> step (n + k) t = Inr r"
proof (rule loop_from.raw_induct [where P = "\<lambda>step n s r. \<exists>k t. keeps_on step n k s = Some t \<and> step (n + k) t = Inr r", OF _ assms])
  fix f and step :: "nat \<Rightarrow> 's \<Rightarrow> 's + 'r" and n s r
  assume IH: "\<And>step n s r. f step n s = Some r \<Longrightarrow> \<exists>k t. keeps_on step n k s = Some t \<and> step (n + k) t = Inr r"
    and eq: "(case step n s of Inl t \<Rightarrow> f step (Suc n) t | Inr r \<Rightarrow> Some r) = Some r"
  show "\<exists>k t. keeps_on step n k s = Some t \<and> step (n + k) t = Inr r"
  proof (cases "step n s")
    case (Inl u)
    with IH [of step "Suc n" u r] eq obtain k t where "keeps_on step (Suc n) k u = Some t" "step (Suc n + k) t = Inr r" by auto
    with Inl show ?thesis by (intro exI [of _ "Suc k"]) simp
  next
    case (Inr r')
    with eq show ?thesis by (intro exI [of _ 0]) simp
  qed
qed

text \<open>A loop returns exactly when some round does, and with the result of that round.\<close>

lemma loop_from_iff:
  "loop_from step n s = Some r \<longleftrightarrow> (\<exists>k t. keeps_on step n k s = Some t \<and> step (n + k) t = Inr r)"
  using loop_from_returns [of step n _ s _ r] loop_from_Some [of step n s r] by blast

lemma keeps_on_stop: "keeps_on step n k s = Some t \<Longrightarrow> step (n + k) t = Inr r \<Longrightarrow> keeps_on step n (Suc k) s = None"
proof (induction k arbitrary: n s)
  case (Suc k)
  then obtain u where u: "step n s = Inl u" "keeps_on step (Suc n) k u = Some t" by (auto split: sum.splits)
  with Suc.IH [of "Suc n" u] Suc.prems(2) have "keeps_on step (Suc n) (Suc k) u = None" by simp
  with u(1) show ?case by (simp only: keeps_on.simps sum.case)
qed simp

lemma loop_from_None: "loop_from step n s = None \<longleftrightarrow> (\<forall>k. keeps_on step n k s \<noteq> None)"
proof
  assume none: "loop_from step n s = None"
  show "\<forall>k. keeps_on step n k s \<noteq> None"
  proof
    fix k show "keeps_on step n k s \<noteq> None"
      using none
    proof (induction k arbitrary: n s)
      case (Suc k)
      then show ?case by (auto simp: loop_from.simps [of step n s] split: sum.splits)
    qed simp
  qed
next
  assume all: "\<forall>k. keeps_on step n k s \<noteq> None"
  show "loop_from step n s = None"
  proof (cases "loop_from step n s")
    case (Some r)
    from loop_from_Some [OF Some] obtain k t where "keeps_on step n k s = Some t" "step (n + k) t = Inr r" by blast
    then have "keeps_on step n (Suc k) s = None" by (rule keeps_on_stop)
    with all show ?thesis by blast
  qed simp
qed

section \<open>Words\<close>

lemma unat_less_u8: "unat (w :: u8) < 256"
  using unsigned_less [where ?'a = nat, of w] by simp

lemma unat_less_u16: "unat (w :: u16) < 65536"
  using unsigned_less [where ?'a = nat, of w] by simp

lemma unat_less_u32: "unat (w :: u32) < 4294967296"
  using unsigned_less [where ?'a = nat, of w] by simp

lemma unat_less_u64: "unat (w :: u64) < 18446744073709551616"
  using unsigned_less [where ?'a = nat, of w] by simp

lemma unat_ucast: "unat (ucast w :: 'c::len word) = unat w mod 2 ^ LENGTH('c)"
  by (simp add: unsigned_ucast_eq take_bit_eq_mod)

lemma unat_drop_bit_div: "unat (drop_bit n w) = unat w div 2 ^ n"
  by (simp only: unat_drop_bit_eq drop_bit_eq_div [of n "unat w"])

section \<open>Lists\<close>

lemma takeWhile_append_stop:
  "\<not> P y \<Longrightarrow> takeWhile P (xs @ y # ys) = takeWhile P xs"
  by (induction xs) auto

lemma drop_Cons_nth: "i < length xs \<Longrightarrow> drop i xs = xs ! i # drop (Suc i) xs"
  by (rule Cons_nth_drop_Suc [symmetric])

end
