(* ===== verification/C_Lib.thy ===== *)
theory C_Lib
  imports Prelude
begin

text \<open>
  The routines of the C and C++ standard library the program calls on strings and bytes. A
  \<open>const char *\<close> that points to a C string is the list of its characters before the
  terminating NUL, so \<open>strlen\<close> is the length of that list. \<open>strchr\<close> and \<open>strstr\<close> return the
  suffix the returned pointer points to, or \<open>None\<close> for a null pointer. \<open>htons\<close> is the
  conversion on a little-endian host, the only kind of host the program's build files name.
\<close>

section \<open>Character classes\<close>

text \<open>The classes of the C locale, on unsigned bytes as the library functions take them.\<close>

definition is_digit :: "u8 \<Rightarrow> bool" where
  "is_digit c \<longleftrightarrow> 48 \<le> c \<and> c \<le> 57"

definition isxdigit :: "u8 \<Rightarrow> bool" where
  "isxdigit c \<longleftrightarrow> is_digit c \<or> (65 \<le> c \<and> c \<le> 70) \<or> (97 \<le> c \<and> c \<le> 102)"

definition isspace :: "char \<Rightarrow> bool" where
  "isspace c \<longleftrightarrow> c \<in> {CHR '' '', CHR 0x09, CHR 0x0A, CHR 0x0B, CHR 0x0C, CHR 0x0D}"

section \<open>C strings\<close>

definition strlen :: "string \<Rightarrow> nat" where
  "strlen s = length s"

definition memcmp_eq :: "'a list \<Rightarrow> 'a list \<Rightarrow> nat \<Rightarrow> bool" where
  "memcmp_eq a b n \<longleftrightarrow> take n a = take n b"

text \<open>The character at an index that is at most the length: the terminating NUL at the end.\<close>

definition cstr_at :: "string \<Rightarrow> nat \<Rightarrow> char" where
  "cstr_at s i = (if i < length s then s ! i else CHR 0x00)"

fun strchr :: "string \<Rightarrow> char \<Rightarrow> string option" where
  "strchr [] c = None"
| "strchr (x # xs) c = (if x = c then Some (x # xs) else strchr xs c)"

fun strstr :: "string \<Rightarrow> string \<Rightarrow> string option" where
  "strstr [] sub = (if sub = [] then Some [] else None)"
| "strstr (x # xs) sub = (if take (length sub) (x # xs) = sub then Some (x # xs) else strstr xs sub)"

lemma strchr_None [cstr_simps]: "strchr s c = None \<longleftrightarrow> c \<notin> set s"
  by (induction s) auto

lemma take_length_eq_prefix: "take (length sub) s = sub \<longleftrightarrow> (\<exists>zs. s = sub @ zs)"
  by (metis append_eq_conv_conj)

lemma strstr_Nil_None: "strstr [] sub = None \<longleftrightarrow> sub \<noteq> []"
  by simp

lemma strstr_None [cstr_simps]: "strstr s sub = None \<longleftrightarrow> (\<nexists>ys zs. s = ys @ sub @ zs)"
proof (induction s)
  case Nil
  then show ?case by auto
next
  case (Cons x xs)
  show ?case
  proof
    assume none: "strstr (x # xs) sub = None"
    show "\<nexists>ys zs. x # xs = ys @ sub @ zs"
    proof (intro notI, elim exE)
      fix ys zs
      assume eq: "x # xs = ys @ sub @ zs"
      from none have "\<nexists>zs. x # xs = sub @ zs" and "\<nexists>ys zs. xs = ys @ sub @ zs"
        using Cons.IH by (auto simp: take_length_eq_prefix split: if_splits)
      with eq show False by (cases ys) auto
    qed
  next
    assume no: "\<nexists>ys zs. x # xs = ys @ sub @ zs"
    then have "\<nexists>zs. x # xs = sub @ zs" by (metis append_Nil)
    moreover from no have "\<nexists>ys zs. xs = ys @ sub @ zs" by (metis append_Cons)
    ultimately show "strstr (x # xs) sub = None"
      using Cons.IH by (simp add: take_length_eq_prefix)
  qed
qed

section \<open>Splitting at a separator\<close>

fun split_on :: "'a \<Rightarrow> 'a list \<Rightarrow> 'a list list" where
  "split_on c [] = [[]]"
| "split_on c (x # xs) =
     (if x = c then [] # split_on c xs
      else (case split_on c xs of [] \<Rightarrow> [[x]] | y # ys \<Rightarrow> (x # y) # ys))"

lemma split_on_nonempty [simp]: "split_on c xs \<noteq> []"
  by (cases xs) (auto split: list.splits)

lemma split_on_no_sep: "c \<notin> set xs \<Longrightarrow> split_on c xs = [xs]"
  by (induction xs) auto

lemma split_on_append_sep:
  "split_on c (xs @ c # ys) = split_on c xs @ split_on c ys"
proof (induction xs)
  case Nil
  then show ?case by simp
next
  case (Cons x xs)
  then show ?case by (cases "split_on c xs") auto
qed

text \<open>A component sits between two separators, or between a separator and an end.\<close>

lemma in_split_on_iff:
  assumes "c \<notin> set w"
  shows "w \<in> set (split_on c xs) \<longleftrightarrow>
    xs = w \<or> (\<exists>zs. xs = w @ c # zs) \<or> (\<exists>ys. xs = ys @ c # w) \<or> (\<exists>ys zs. xs = ys @ c # w @ c # zs)"
    (is "?l \<longleftrightarrow> ?r xs")
proof
  assume ?l
  then show "?r xs"
  proof (induction "length xs" arbitrary: xs rule: less_induct)
    case less
    show ?case
    proof (cases "c \<in> set xs")
      case False
      with less.prems show ?thesis by (simp add: split_on_no_sep)
    next
      case True
      then obtain as bs where xs: "xs = as @ c # bs" and as: "c \<notin> set as"
        by (meson split_list_first)
      then have "w = as \<or> w \<in> set (split_on c bs)"
        using less.prems by (simp add: split_on_append_sep split_on_no_sep)
      then show ?thesis
      proof
        assume "w = as"
        with xs show ?thesis by blast
      next
        assume "w \<in> set (split_on c bs)"
        moreover have "length bs < length xs" using xs by simp
        ultimately have "?r bs" using less.hyps by blast
        then show ?thesis
        proof (elim disjE exE)
          assume "bs = w"
          with xs show ?thesis by blast
        next
          fix zs assume "bs = w @ c # zs"
          with xs have "xs = as @ c # w @ c # zs" by simp
          then show ?thesis by blast
        next
          fix ys assume "bs = ys @ c # w"
          with xs have "xs = (as @ c # ys) @ c # w" by simp
          then show ?thesis by blast
        next
          fix ys zs assume "bs = ys @ c # w @ c # zs"
          with xs have "xs = (as @ c # ys) @ c # w @ c # zs" by simp
          then show ?thesis by blast
        qed
      qed
    qed
  qed
next
  assume "?r xs"
  with assms show ?l
    by (auto simp: split_on_append_sep split_on_no_sep)
qed

section \<open>Byte order\<close>

text \<open>
  A 16-bit store puts the low byte first; \<open>htons\<close> swaps the bytes of its argument so that the
  store puts the high byte first.
\<close>

definition store16 :: "u16 \<Rightarrow> bytes" where
  "store16 x = [ucast x, ucast (drop_bit 8 x)]"

definition load16 :: "bytes \<Rightarrow> u16" where
  "load16 bs = ucast (bs ! 0) + push_bit 8 (ucast (bs ! 1))"

definition htons :: "u16 \<Rightarrow> u16" where
  "htons x = push_bit 8 x + drop_bit 8 x"

abbreviation ntohs :: "u16 \<Rightarrow> u16" where
  "ntohs \<equiv> htons"

definition store32 :: "u32 \<Rightarrow> bytes" where
  "store32 x = [ucast x, ucast (drop_bit 8 x), ucast (drop_bit 16 x), ucast (drop_bit 24 x)]"

lemma length_store16 [simp]: "length (store16 x) = 2"
  by (simp add: store16_def)

lemma length_store32 [simp]: "length (store32 x) = 4"
  by (simp add: store32_def)

lemma unat_store16:
  "unat (store16 x ! 0) = unat x mod 256" "unat (store16 x ! Suc 0) = unat x div 256"
proof -
  have "unat x div 256 < 256" using unat_less_u16 [of x] by (simp add: div_less_iff_less_mult)
  then show "unat (store16 x ! 0) = unat x mod 256" "unat (store16 x ! Suc 0) = unat x div 256"
    by (simp_all add: store16_def unat_ucast unat_drop_bit_div)
qed

lemma unat_push_bit_8: "unat (push_bit 8 x :: u16) = unat x * 256 mod 65536"
  by (simp add: push_bit_eq_mult unat_word_ariths)

lemma unat_load16: "unat (load16 [a, b]) = unat a + 256 * unat b"
proof -
  have a: "unat (ucast a :: u16) = unat a" and b: "unat (ucast b :: u16) = unat b"
    using unat_less_u8 [of a] unat_less_u8 [of b] by (simp_all add: unat_ucast)
  then show ?thesis
    using unat_less_u8 [of a] unat_less_u8 [of b]
    by (simp add: load16_def unat_word_ariths unat_push_bit_8)
qed

lemma load16_store16 [simp]: "load16 (store16 x) = x"
proof -
  have "store16 x = [store16 x ! 0, store16 x ! Suc 0]" by (simp add: store16_def)
  then have "unat (load16 (store16 x)) = unat (store16 x ! 0) + 256 * unat (store16 x ! Suc 0)"
    by (metis unat_load16)
  then have "unat (load16 (store16 x)) = unat x"
    by (simp add: unat_store16)
  then show ?thesis by (simp add: word_unat_eq_iff)
qed

text \<open>\<open>htons\<close> makes the store put the most significant byte first, and is its own inverse.\<close>

lemma unat_htons: "unat (htons x) = 256 * (unat x mod 256) + unat x div 256"
proof -
  have m: "unat x * 256 mod 65536 = 256 * (unat x mod 256)"
    using mod_mult_mult1 [of 256 "unat x" 256] by (simp add: mult.commute)
  have "unat x div 256 < 256" using unat_less_u16 [of x] by (simp add: div_less_iff_less_mult)
  then have "256 * (unat x mod 256) + unat x div 256 < 65536"
    using mod_less_divisor [of 256 "unat x"] by linarith
  then show ?thesis
    by (simp add: htons_def unat_word_ariths unat_push_bit_8 unat_drop_bit_div m)
qed

lemma htons_htons [simp]: "htons (htons x) = x"
proof -
  have d: "unat x div 256 < 256" using unat_less_u16 [of x] by (simp add: div_less_iff_less_mult)
  have "unat (htons (htons x)) = unat x"
    using d by (simp add: unat_htons)
  then show ?thesis by (simp add: word_unat_eq_iff)
qed

lemma store16_htons: "store16 (htons x) = [ucast (drop_bit 8 x), ucast x]"
proof -
  have d: "unat x div 256 < 256" using unat_less_u16 [of x] by (simp add: div_less_iff_less_mult)
  have "unat (store16 (htons x) ! 0) = unat (ucast (drop_bit 8 x) :: u8)"
    "unat (store16 (htons x) ! Suc 0) = unat (ucast x :: u8)"
    using d by (simp_all add: unat_store16 unat_htons unat_ucast unat_drop_bit_div)
  moreover have "store16 (htons x) = [store16 (htons x) ! 0, store16 (htons x) ! Suc 0]"
    by (simp add: store16_def)
  ultimately show ?thesis by (metis word_unat_eq_iff)
qed

text \<open>The bytes of a text.\<close>

definition str_bytes :: "string \<Rightarrow> bytes" where
  "str_bytes s = map (\<lambda>c. of_nat (of_char c)) s"

lemma unat_char: "unat (of_nat (of_char c) :: u8) = of_char c"
  by (simp add: unsigned_of_nat take_bit_eq_mod)

lemma str_bytes_eq_iff: "str_bytes s = str_bytes t \<longleftrightarrow> s = t"
proof -
  have "inj (\<lambda>c. of_nat (of_char c) :: u8)"
    by (rule injI) (metis of_char_eq_iff unat_char)
  then show ?thesis by (simp add: str_bytes_def inj_map_eq_map)
qed

lemma take_str_bytes: "take n (str_bytes s) = str_bytes (take n s)"
  by (simp add: str_bytes_def take_map)

section \<open>Numerals\<close>

text \<open>\<open>std::to_string\<close> of an unsigned number, and \<open>std::atoi\<close>.\<close>

definition digit_char :: "nat \<Rightarrow> char" where
  "digit_char n = char_of (48 + n)"

fun dec_string :: "nat \<Rightarrow> string" where
  "dec_string n = (if n < 10 then [digit_char n] else dec_string (n div 10) @ [digit_char (n mod 10)])"

declare dec_string.simps [simp del]

text \<open>An \<open>int\<close> on an output stream.\<close>

definition show_int :: "int \<Rightarrow> string" where
  "show_int i = (if i < 0 then ''-'' @ dec_string (nat (- i)) else dec_string (nat i))"

text \<open>\<open>std::atoi\<close>: leading white space, a sign and digits; a value outside \<open>int\<close> is undefined.\<close>

definition digit_val :: "char \<Rightarrow> nat option" where
  "digit_val c = (let n = of_char c :: nat in if 48 \<le> n \<and> n \<le> 57 then Some (n - 48) else None)"

fun digits_val :: "string \<Rightarrow> nat \<Rightarrow> nat" where
  "digits_val [] acc = acc"
| "digits_val (c # cs) acc = (case digit_val c of None \<Rightarrow> acc | Some d \<Rightarrow> digits_val cs (10 * acc + d))"

definition atoi :: "string \<Rightarrow> int cexec" where
  "atoi s =
     (let t = dropWhile isspace s;
          v = (case t of
                 c # cs \<Rightarrow> if c = CHR ''-'' then - int (digits_val cs 0)
                           else if c = CHR ''+'' then int (digits_val cs 0)
                           else int (digits_val t 0)
               | [] \<Rightarrow> 0)
      in if INT_MIN \<le> v \<and> v \<le> INT_MAX then Inr v else Inl SignedOverflow)"

lemma digit_val_digit_char: "n < 10 \<Longrightarrow> digit_val (digit_char n) = Some n"
  by (simp add: digit_val_def digit_char_def Let_def take_bit_eq_mod)

lemma digits_val_append_digit:
  "\<forall>c\<in>set s. digit_val c \<noteq> None \<Longrightarrow> d < 10 \<Longrightarrow>
   digits_val (s @ [digit_char d]) acc = 10 * digits_val s acc + d"
  by (induction s arbitrary: acc) (auto simp: digit_val_digit_char)

lemma dec_string_digits: "\<forall>c\<in>set (dec_string n). digit_val c \<noteq> None"
proof (induction n rule: dec_string.induct)
  case (1 n)
  then show ?case by (subst dec_string.simps) (auto simp: digit_val_digit_char)
qed

text \<open>Reading a printed number gives the number back.\<close>

lemma digits_val_dec_string: "digits_val (dec_string n) 0 = n"
proof (induction n rule: dec_string.induct)
  case (1 n)
  then show ?case
    using digits_val_append_digit [OF dec_string_digits, of "n mod 10" "n div 10" 0]
    by (subst dec_string.simps) (auto simp: digit_val_digit_char)
qed

lemma dec_string_inj: "dec_string m = dec_string n \<longleftrightarrow> m = n"
  by (metis digits_val_dec_string)

section \<open>Comparing without case\<close>

text \<open>\<open>strncasecmp\<close> in the C locale; the end of a list is the terminating zero.\<close>

definition tolower :: "char \<Rightarrow> char" where
  "tolower c = (let n = of_char c :: nat in if 65 \<le> n \<and> n \<le> 90 then char_of (n + 32) else c)"

fun strncasecmp_eq :: "string \<Rightarrow> string \<Rightarrow> nat \<Rightarrow> bool" where
  "strncasecmp_eq a b 0 = True"
| "strncasecmp_eq [] [] (Suc n) = True"
| "strncasecmp_eq [] (y # ys) (Suc n) = (y = CHR 0x00)"
| "strncasecmp_eq (x # xs) [] (Suc n) = (x = CHR 0x00)"
| "strncasecmp_eq (x # xs) (y # ys) (Suc n) =
     (tolower x = tolower y \<and> (x = CHR 0x00 \<or> strncasecmp_eq xs ys n))"

definition same_word :: "string \<Rightarrow> string \<Rightarrow> bool" where
  "same_word a b \<longleftrightarrow> map tolower a = map tolower b"

lemma tolower_nul: "tolower x = CHR 0x00 \<longleftrightarrow> x = CHR 0x00"
proof -
  have "of_char x < (256 :: nat)" by simp
  then have "tolower x \<noteq> CHR 0x00" if "65 \<le> (of_char x :: nat)" "(of_char x :: nat) \<le> 90"
    using that by (auto simp: tolower_def Let_def char_of_eq_iff take_bit_eq_mod)
  then show ?thesis by (cases "65 \<le> (of_char x :: nat) \<and> (of_char x :: nat) \<le> 90") (auto simp: tolower_def Let_def)
qed

lemma strncasecmp_word:
  "length a = length b \<Longrightarrow> CHR 0x00 \<notin> set b \<Longrightarrow> strncasecmp_eq a b (length b) \<longleftrightarrow> same_word a b"
proof (induction a b rule: list_induct2)
  case (Cons x xs y ys)
  have "tolower x = tolower y \<Longrightarrow> x \<noteq> CHR 0x00" using Cons.prems tolower_nul by (metis list.set_intros(1))
  then show ?case using Cons by (auto simp: same_word_def)
qed (simp add: same_word_def)

end
