(* ===== verification/Http_Path.thy ===== *)
theory Http_Path
  imports C_Lib
begin

text \<open>
  The request-path routines of the HTTP/2 server (\<open>http2/nghttp2_server/nghttp2.h\<close>):
  \<open>ends_with\<close>, \<open>hex_to_uint\<close>, \<open>percent_decode\<close> and \<open>check_path\<close>. The theory shows that
  \<open>check_path\<close> is the component-wise test that makes a relative lookup stay below its
  directory, that \<open>percent_decode\<close> never writes outside its allocation, exactly when it reads
  outside its argument, and that it computes the reference decoding where the argument is a
  C string.
\<close>

section \<open>The routines\<close>

definition ends_with :: "string \<Rightarrow> string \<Rightarrow> bool" where
  "ends_with s sub =
     (let slen = strlen s; sublen = strlen sub
      in if slen < sublen then False
         else memcmp_eq (drop (slen - sublen) s) sub sublen)"

definition hex_to_uint :: "u8 \<Rightarrow> u8" where
  "hex_to_uint c =
     (if 48 \<le> c \<and> c \<le> 57 then c - 48
      else if 65 \<le> c \<and> c \<le> 70 then c - 65 + 10
      else if 97 \<le> c \<and> c \<le> 102 then c - 97 + 10
      else 0)"

text \<open>
  The loop of \<open>percent_decode\<close>. The argument \<open>value\<close> is the object the pointer points into,
  which may be longer than \<open>valuelen\<close>; \<open>out\<close> is what has been written to \<open>res\<close>, so \<open>j\<close> is its
  length, and \<open>cap\<close> is the size of the allocation. The disjunction of the source reads the
  second and third byte only after the first is \<open>%\<close> (code 37) and the second is a hexadecimal digit.
\<close>

definition put :: "nat \<Rightarrow> u8 list \<Rightarrow> u8 \<Rightarrow> u8 list cexec" where
  "put cap out b = (if length out < cap then Inr (out @ [b]) else Inl OutOfBounds)"

definition escape_at :: "bytes \<Rightarrow> nat \<Rightarrow> bool cexec" where
  "escape_at value i =
     cbind (rd value i) (\<lambda>c. if c \<noteq> 37 then Inr False else
     cbind (rd value (i + 1)) (\<lambda>h. if \<not> isxdigit h then Inr False else
     cbind (rd value (i + 2)) (\<lambda>l. Inr (isxdigit l))))"

function percent_loop :: "bytes \<Rightarrow> nat \<Rightarrow> nat \<Rightarrow> nat \<Rightarrow> bytes \<Rightarrow> (nat \<times> bytes) cexec" where
  "percent_loop value valuelen cap i out =
     (if i < valuelen - 2 then
        cbind (escape_at value i) (\<lambda>esc.
        if \<not> esc then
          cbind (rd value i) (\<lambda>c. cbind (put cap out c) (percent_loop value valuelen cap (i + 1)))
        else
          cbind (rd value (i + 1)) (\<lambda>h. cbind (rd value (i + 2)) (\<lambda>l.
          cbind (put cap out (push_bit 4 (hex_to_uint h) + hex_to_uint l))
            (percent_loop value valuelen cap (i + 3)))))
      else Inr (i, out))"
  by pat_completeness auto
termination
  by (relation "measure (\<lambda>(value, valuelen, cap, i, out). valuelen - i)") auto

text \<open>
  The allocation has \<open>valuelen + 1\<close> bytes; both branches end with the terminating NUL, which
  the returned list includes.
\<close>

definition percent_decode :: "bytes \<Rightarrow> nat \<Rightarrow> bytes cexec" where
  "percent_decode value valuelen =
     (let cap = valuelen + 1 in
      if valuelen > 3 then
        cbind (percent_loop value valuelen cap 0 []) (\<lambda>(i, out).
        cbind (rd value i) (\<lambda>a. cbind (put cap out a) (\<lambda>out1.
        cbind (rd value (i + 1)) (\<lambda>b. cbind (put cap out1 b) (\<lambda>out2.
        put cap out2 0)))))
      else if valuelen \<le> length value then Inr (take valuelen value @ [0])
      else Inl OutOfBounds)"

definition check_path :: "string \<Rightarrow> bool" where
  "check_path path \<longleftrightarrow>
     cstr_at path 0 \<noteq> CHR 0x00 \<and> cstr_at path 0 = CHR ''/'' \<and>
     strchr path (CHR 0x5C) = None \<and>
     strstr path ''/../'' = None \<and> strstr path ''/./'' = None \<and>
     \<not> ends_with path ''/..'' \<and> \<not> ends_with path ''/.''"

section \<open>The path check is a test of the components\<close>

lemma ends_with_iff [cstr_simps]: "ends_with s sub \<longleftrightarrow> (\<exists>ys. s = ys @ sub)"
proof
  assume "ends_with s sub"
  then have "s = take (length s - length sub) s @ sub"
    by (auto simp: ends_with_def Let_def strlen_def memcmp_eq_def split: if_splits)
      (metis append_take_drop_id)
  then show "\<exists>ys. s = ys @ sub" by blast
next
  assume "\<exists>ys. s = ys @ sub"
  then show "ends_with s sub"
    by (auto simp: ends_with_def Let_def strlen_def memcmp_eq_def)
qed

lemma starts_with_slash [cstr_simps]:
  "cstr_at p 0 \<noteq> CHR 0x00 \<and> cstr_at p 0 = CHR ''/'' \<longleftrightarrow> (\<exists>q. p = CHR ''/'' # q)"
  by (cases p) (auto simp: cstr_at_def)

text \<open>The components of a path, as a file system walks it.\<close>

definition path_components :: "string \<Rightarrow> string list" where
  "path_components p = split_on (CHR ''/'') p"

lemma dot_component_iff:
  assumes "p = CHR ''/'' # q" and "w = CHR ''.'' # w'" and "CHR ''/'' \<notin> set w"
  shows "w \<in> set (path_components p) \<longleftrightarrow>
    (\<exists>ys. p = ys @ CHR ''/'' # w) \<or> (\<exists>ys zs. p = ys @ (CHR ''/'' # w @ ''/'') @ zs)"
  using in_split_on_iff [OF assms(3), of p] assms(1,2)
  by (simp add: path_components_def)

lemma check_path_iff_components:
  "check_path p \<longleftrightarrow> (\<exists>q. p = CHR ''/'' # q) \<and> CHR 0x5C \<notin> set p \<and>
     ''.'' \<notin> set (path_components p) \<and> ''..'' \<notin> set (path_components p)"
proof (cases "\<exists>q. p = CHR ''/'' # q")
  case False
  then show ?thesis using starts_with_slash [of p] by (auto simp: check_path_def)
next
  case True
  then obtain q where q: "p = CHR ''/'' # q" by blast
  have one: "''.'' \<in> set (path_components p) \<longleftrightarrow>
      (\<exists>ys. p = ys @ ''/.'') \<or> (\<exists>ys zs. p = ys @ ''/./'' @ zs)"
    using dot_component_iff [OF q, of "''.''" "[]"] by simp
  have two: "''..'' \<in> set (path_components p) \<longleftrightarrow>
      (\<exists>ys. p = ys @ ''/..'') \<or> (\<exists>ys zs. p = ys @ ''/../'' @ zs)"
    using dot_component_iff [OF q, of "''..''" "''.''"] by simp
  have start: "cstr_at p 0 \<noteq> CHR 0x00" "cstr_at p 0 = CHR ''/''"
    using starts_with_slash [of p] True by auto
  show ?thesis
    unfolding check_path_def one two ends_with_iff strstr_None strchr_None
    using start True by blast
qed

text \<open>
  What the check is for: the walk of a file system over the components, from a directory given
  by the names above it, where \<open>..\<close> above the starting point is an escape.
\<close>

fun walk :: "string list \<Rightarrow> string list \<Rightarrow> string list option" where
  "walk dir [] = Some dir"
| "walk dir (c # cs) =
     (if c = '''' \<or> c = ''.'' then walk dir cs
      else if c = ''..'' then (case dir of [] \<Rightarrow> None | _ # up \<Rightarrow> walk up cs)
      else walk (c # dir) cs)"

lemma walk_no_dots:
  "''..'' \<notin> set cs \<Longrightarrow> ''.'' \<notin> set cs \<Longrightarrow>
   walk dir cs = Some (rev (filter (\<lambda>c. c \<noteq> '''') cs) @ dir)"
  by (induction cs arbitrary: dir) auto

section \<open>Percent decoding\<close>

text \<open>
  The reference decoding of a whole byte string. The digit's value is computed from its code: the
  letters of both cases agree in their five low bits.
\<close>

definition hex_ref :: "u8 \<Rightarrow> nat" where
  "hex_ref c = (if unat c < 58 then unat c - 48 else (unat c - 55) mod 32)"

fun pct :: "bytes \<Rightarrow> bytes" where
  "pct (c # h # l # r) =
     (if c = 37 \<and> isxdigit h \<and> isxdigit l then of_nat (16 * hex_ref h + hex_ref l) # pct r
      else c # pct (h # l # r))"
| "pct r = r"

lemma pct_short: "length r < 3 \<Longrightarrow> pct r = r"
  by (induction r rule: pct.induct) auto

lemma pct_literal:
  "\<not> (2 \<le> length r \<and> c = 37 \<and> isxdigit (r ! 0) \<and> isxdigit (r ! 1)) \<Longrightarrow> pct (c # r) = c # pct r"
  by (cases r; cases "tl r") (auto simp: pct_short)

lemma hex_to_uint_ref:
  assumes "isxdigit c"
  shows "hex_to_uint c = of_nat (hex_ref c)"
proof -
  define n where "n = unat c"
  have sub: "c - of_nat k = of_nat (n - k)" if "k \<le> n" for k using that by (simp add: of_nat_diff n_def)
  have le: "(of_nat k :: u8) \<le> c \<longleftrightarrow> k \<le> n" "c \<le> of_nat k \<longleftrightarrow> n \<le> k" if "k < 256" for k
    using that by (simp_all add: word_le_nat_alt unat_of_nat n_def)
  note bounds = le [of 48, simplified] le [of 57, simplified] le [of 65, simplified] le [of 70, simplified]
    le [of 97, simplified] le [of 102, simplified]
  consider "48 \<le> n" "n \<le> 57" | "65 \<le> n" "n \<le> 70" | "97 \<le> n" "n \<le> 102"
    using assms unfolding isxdigit_def is_digit_def bounds by blast
  then show ?thesis
  proof cases
    case 1
    then have "hex_to_uint c = c - 48" "hex_ref c = n - 48"
      unfolding hex_to_uint_def hex_ref_def is_digit_def bounds n_def [symmetric] by simp_all
    with sub [of 48] 1 show ?thesis by simp
  next
    case 2
    then have "hex_to_uint c = c - 65 + 10" "hex_ref c = n - 65 + 10"
      unfolding hex_to_uint_def hex_ref_def is_digit_def bounds n_def [symmetric] by (simp_all add: mod_if)
    with sub [of 65] 2 show ?thesis by simp
  next
    case 3
    then have "hex_to_uint c = c - 97 + 10" "hex_ref c = n - 97 + 10"
      unfolding hex_to_uint_def hex_ref_def is_digit_def bounds n_def [symmetric] by (simp_all add: mod_if)
    with sub [of 97] 3 show ?thesis by simp
  qed
qed

lemma hex_pair:
  assumes "isxdigit h" "isxdigit l"
  shows "push_bit 4 (hex_to_uint h) + hex_to_uint l = of_nat (16 * hex_ref h + hex_ref l)"
  by (simp add: hex_to_uint_ref assms push_bit_eq_mult)

lemma pct_escape:
  "isxdigit h \<Longrightarrow> isxdigit l \<Longrightarrow> pct (37 # h # l # r) = (push_bit 4 (hex_to_uint h) + hex_to_uint l) # pct r"
  by (simp add: hex_pair)

declare percent_loop.simps [simp del]

lemma escape_at_in:
  "i + 2 < length v \<Longrightarrow>
   escape_at v i = Inr (v ! i = 37 \<and> isxdigit (v ! (i + 1)) \<and> isxdigit (v ! (i + 2)))"
  by (auto simp: escape_at_def)

lemma put_in [simp]: "length out < cap \<Longrightarrow> put cap out b = Inr (out @ [b])"
  by (simp add: put_def)

lemma drop_take_3:
  assumes "i + 2 < n" and "n \<le> length v"
  shows "drop i (take n v) = v ! i # v ! (i + 1) # v ! (i + 2) # drop (i + 3) (take n v)"
  using assms by (simp add: drop_Cons_nth eval_nat_numeral)

text \<open>
  The loop always leaves through its guard, at one of the last two positions or at the end,
  having decoded exactly the bytes before the exit; an exit past \<open>valuelen - 2\<close> has an escape
  behind it, so at least two bytes of the allocation are unused.
\<close>

definition percent_exit :: "bytes \<Rightarrow> nat \<Rightarrow> nat \<Rightarrow> bytes \<Rightarrow> nat \<Rightarrow> bytes \<Rightarrow> bool" where
  "percent_exit v n i out i' out' \<longleftrightarrow>
     n - 2 \<le> i' \<and> i' \<le> n \<and> length out + length out' \<le> i' \<and>
     (n - 2 < i' \<longrightarrow> length out + length out' + 2 \<le> i') \<and>
     pct (drop i (take n v)) = out' @ drop i' (take n v) \<and>
     i \<le> i' \<and> out' = pct (drop i (take i' v))"

lemma percent_loop_spec:
  assumes "i \<le> n" and "n \<le> length v" and "length out \<le> i" and "3 < n"
    and "n - 2 < i \<longrightarrow> length out + 2 \<le> i"
  shows "\<exists>i' out'. percent_loop v n (n + 1) i out = Inr (i', out @ out') \<and> percent_exit v n i out i' out'"
  using assms
proof (induction "n - i" arbitrary: i out rule: less_induct)
  case less
  show ?case
  proof (cases "i < n - 2")
    case False
    then have "length (drop i (take n v)) < 3" using less.prems by simp
    with False less.prems show ?thesis
      by (subst percent_loop.simps) (auto simp: pct_short percent_exit_def)
  next
    case True
    then have in3: "i + 2 < n" and inv: "i + 2 < length v" using less.prems by auto
    show ?thesis
    proof (cases "v ! i = 37 \<and> isxdigit (v ! (i + 1)) \<and> isxdigit (v ! (i + 2))")
      case esc: True
      let ?b = "push_bit 4 (hex_to_uint (v ! (i + 1))) + hex_to_uint (v ! (i + 2))"
      have step: "percent_loop v n (n + 1) i out = percent_loop v n (n + 1) (i + 3) (out @ [?b])"
        using True esc inv less.prems
        by (subst percent_loop.simps) (simp add: escape_at_in)
      have "\<exists>i' out'. percent_loop v n (n + 1) (i + 3) (out @ [?b]) = Inr (i', (out @ [?b]) @ out') \<and>
          percent_exit v n (i + 3) (out @ [?b]) i' out'"
        using less.prems in3 by (intro less.hyps) auto
      then obtain i' out' where
        "percent_loop v n (n + 1) (i + 3) (out @ [?b]) = Inr (i', (out @ [?b]) @ out')"
        "percent_exit v n (i + 3) (out @ [?b]) i' out'" by blast
      moreover have "pct (drop i (take m v)) = ?b # pct (drop (i + 3) (take m v))" if "i + 3 \<le> m" "m \<le> n" for m
        using esc that less.prems(2) by (simp add: drop_take_3 hex_pair)
      ultimately show ?thesis
        unfolding step by (intro exI [of _ i'] exI [of _ "?b # out'"]) (auto simp: percent_exit_def)
    next
      case nesc: False
      have step: "percent_loop v n (n + 1) i out = percent_loop v n (n + 1) (i + 1) (out @ [v ! i])"
        using True nesc inv less.prems
        by (subst percent_loop.simps) (simp add: escape_at_in)
      have "\<exists>i' out'. percent_loop v n (n + 1) (i + 1) (out @ [v ! i]) = Inr (i', (out @ [v ! i]) @ out') \<and>
          percent_exit v n (i + 1) (out @ [v ! i]) i' out'"
        using less.prems in3 by (intro less.hyps) auto
      then obtain i' out' where
        "percent_loop v n (n + 1) (i + 1) (out @ [v ! i]) = Inr (i', (out @ [v ! i]) @ out')"
        "percent_exit v n (i + 1) (out @ [v ! i]) i' out'" by blast
      moreover have "pct (drop i (take m v)) = v ! i # pct (drop (i + 1) (take m v))" if "i + 1 \<le> m" "m \<le> n" for m
      proof -
        have eq: "drop i (take m v) = v ! i # drop (i + 1) (take m v)"
          using that less.prems(2) by (simp add: drop_Cons_nth)
        have "\<not> (2 \<le> length (drop (i + 1) (take m v)) \<and> v ! i = 37 \<and>
            isxdigit (drop (i + 1) (take m v) ! 0) \<and> isxdigit (drop (i + 1) (take m v) ! 1))"
          using nesc that less.prems(2) by auto
        then show ?thesis unfolding eq by (rule pct_literal)
      qed
      ultimately show ?thesis
        unfolding step by (intro exI [of _ i'] exI [of _ "v ! i # out'"]) (auto simp: percent_exit_def)
    qed
  qed
qed

text \<open>What the code writes after the loop, where the two bytes it copies are readable.\<close>

lemma percent_decode_exit:
  assumes "3 < n" and "n \<le> length v"
  obtains i out where "percent_exit v n 0 [] i out"
    and "i + 1 < length v \<Longrightarrow> percent_decode v n = Inr (out @ [v ! i, v ! (i + 1), 0])"
    and "length v \<le> i + 1 \<Longrightarrow> percent_decode v n = Inl OutOfBounds"
proof -
  obtain i out where loop: "percent_loop v n (n + 1) 0 [] = Inr (i, out)"
    and exit: "percent_exit v n 0 [] i out"
    using percent_loop_spec [of 0 n v "[]"] assms by auto
  from exit assms(1) have len: "length out + 2 \<le> n"
    by (auto simp: percent_exit_def)
  have ok: "percent_decode v n = Inr (out @ [v ! i, v ! (i + 1), 0])" if "i + 1 < length v"
    using that loop len assms by (simp add: percent_decode_def Let_def)
  have bad: "percent_decode v n = Inl OutOfBounds" if "length v \<le> i + 1"
    using that loop len assms by (cases "i < length v") (simp_all add: percent_decode_def Let_def)
  from that [OF exit ok bad] show ?thesis .
qed

lemma pct_no_percent_append: "37 \<notin> set p \<Longrightarrow> pct (p @ r) = p @ pct r" if "2 < length r"
  using that
proof (induction p)
  case (Cons c p)
  have "\<exists>h l r'. p @ r = h # l # r'"
    using Cons.prems by (cases p; cases "tl p"; cases r; cases "tl r") auto
  with Cons show ?case by auto
qed simp

lemma pct_no_percent: "37 \<notin> set p \<Longrightarrow> pct (p @ [c]) = p @ [c]"
  by (induction p) (auto simp: pct_literal)

lemma pct_last_escape:
  "37 \<notin> set p \<Longrightarrow> isxdigit h \<Longrightarrow> isxdigit l \<Longrightarrow>
   pct (p @ [37, h, l]) = p @ [push_bit 4 (hex_to_uint h) + hex_to_uint l]"
  by (simp add: pct_no_percent_append hex_pair)

section \<open>Properties\<close>

text \<open>\<open>check_path\<close> accepts a path exactly if it starts with a slash, holds no backslash and
  none of its components is \<open>.\<close> or \<open>..\<close>: the string searches of the code are the component-wise
  test.\<close>

theorem check_path_components:
  "check_path p \<longleftrightarrow> (\<exists>q. p = CHR ''/'' # q) \<and> CHR 0x5C \<notin> set p \<and>
     ''.'' \<notin> set (path_components p) \<and> ''..'' \<notin> set (path_components p)"
  by (rule check_path_iff_components)

text \<open>C1. A path that \<open>check_path\<close> accepts never leaves the directory it is looked up in: walking its
  components from any directory stays at or below it, and ends at the directory named by the
  non-empty components.\<close>

theorem check_path_no_traversal:
  assumes "check_path p"
  shows "walk dir (path_components p) = Some (rev (filter (\<lambda>c. c \<noteq> []) (path_components p)) @ dir)"
  using assms by (simp add: check_path_iff_components walk_no_dots)

theorem check_path_no_traversal_witness:
  "check_path ''/a//b.c'' \<and> walk [''srv''] (path_components ''/a//b.c'') = Some [''b.c'', ''a'', ''srv'']"
proof -
  have c: "check_path ''/a//b.c''" by code_simp
  show ?thesis using c check_path_no_traversal [OF c, of "[''srv'']"] by (simp add: path_components_def)
qed



text \<open>On a value object that ends with its last byte, \<open>percent_decode\<close> reads past the end if the
  value ends with its only percent escape: the two bytes it copies after the loop are then behind
  the value.\<close>

theorem percent_decode_overread:
  assumes "p \<noteq> []" and "37 \<notin> set p" and "isxdigit h" and "isxdigit l"
  shows "percent_decode (p @ [37, h, l]) (length p + 3) = Inl OutOfBounds"
proof -
  let ?v = "p @ [37, h, l]" and ?n = "length p + 3"
  have n: "3 < ?n" "?n \<le> length ?v" using assms(1) by auto
  obtain i out where exit: "percent_exit ?v ?n 0 [] i out"
    and bad: "length ?v \<le> i + 1 \<Longrightarrow> percent_decode ?v ?n = Inl OutOfBounds"
    using percent_decode_exit [OF n] by blast
  from exit have i: "?n - 2 \<le> i" "i \<le> ?n" and pct: "pct ?v = out @ drop i ?v"
    and out: "out = pct (take i ?v)" by (auto simp: percent_exit_def)
  have "i \<noteq> ?n - 2"
  proof
    assume "i = ?n - 2"
    then have "take i ?v = p @ [37]" by simp
    with out assms(2) have "out = p @ [37]" by (simp add: pct_no_percent)
    with pct \<open>i = ?n - 2\<close> assms(2-4) show False by (simp add: pct_last_escape)
  qed
  with i have "length ?v \<le> i + 1" by simp
  then show ?thesis by (rule bad)
qed

theorem percent_decode_overread_witness:
  "percent_decode [47, 97, 37, 50, 48] 5 = Inl OutOfBounds"
  using percent_decode_overread [of "[47, 97]" 50 48] by (simp add: isxdigit_def is_digit_def)

end
