(* ===== verification/Raw_Packet.thy ===== *)
theory Raw_Packet
  imports C_Lib
begin

text \<open>
  The raw IPv4 sender (\<open>sockets/raw_socket_client.cc\<close>): the header checksum and the packet
  \<open>main\<close> builds and sends. The checksum is shown equal to the end-around-carry sum of the
  Internet checksum, a header that carries it is shown to verify, and the packet handed to
  \<open>sendto\<close> is shown to be a well-formed IPv4 header followed by the UDP header.
\<close>

unbundle bit_operations_syntax

section \<open>The checksum\<close>

text \<open>
  The accumulator \<open>sum\<close> of the code is an \<open>unsigned long\<close> of 64 bits, here \<open>acc\<close>; \<open>nwords\<close> is an \<open>int\<close> that counts down, and the pointer
  \<open>buf\<close> advances through the object \<open>buf\<close>.
\<close>

function checksum_loop :: "u16 list \<Rightarrow> nat \<Rightarrow> int \<Rightarrow> u64 \<Rightarrow> u64 cexec" where
  "checksum_loop buf p nwords acc =
     (if nwords > 0 then cbind (rd buf p) (\<lambda>w. checksum_loop buf (p + 1) (nwords - 1) (acc + ucast w))
      else Inr acc)"
  by pat_completeness auto
termination
  by (relation "measure (\<lambda>(buf, p, nwords, acc). nat nwords)") auto

definition checksum :: "u16 list \<Rightarrow> int \<Rightarrow> u16 cexec" where
  "checksum buf nwords =
     cbind (checksum_loop buf 0 nwords 0) (\<lambda>sum0.
       let sum1 = drop_bit 16 sum0 + (sum0 AND 0xffff);
           sum2 = sum1 + drop_bit 16 sum1
       in Inr (ucast (NOT sum2)))"

section \<open>The packet\<close>

text \<open>
  The headers as the C structures of \<open>netinet/ip.h\<close> and \<open>netinet/udp.h\<close>: multi-byte fields hold
  the value the code stores, and \<open>iphdr_bytes\<close> is the memory image on a little-endian host, where
  the bit field \<open>ihl\<close> is the low half of the first byte.
\<close>

record iphdr =
  ihl :: u8
  version :: u8
  tos :: u8
  tot_len :: u16
  ip_id :: u16
  frag_off :: u16
  ttl :: u8
  protocol :: u8
  ip_check :: u16
  saddr :: u32
  daddr :: u32

record udphdr =
  source :: u16
  dest :: u16
  udp_len :: u16
  udp_check :: u16

definition iphdr_bytes :: "iphdr \<Rightarrow> bytes" where
  "iphdr_bytes h =
     [(ihl h AND 15) OR push_bit 4 (version h AND 15), tos h] @ store16 (tot_len h) @ store16 (ip_id h) @
     store16 (frag_off h) @ [ttl h, protocol h] @ store16 (ip_check h) @ store32 (saddr h) @ store32 (daddr h)"

definition udphdr_bytes :: "udphdr \<Rightarrow> bytes" where
  "udphdr_bytes u = store16 (source u) @ store16 (dest u) @ store16 (udp_len u) @ store16 (udp_check u)"

text \<open>The object at an address read as an array of \<open>unsigned short\<close>.\<close>

fun words16 :: "bytes \<Rightarrow> u16 list" where
  "words16 (a # b # r) = load16 [a, b] # words16 r"
| "words16 _ = []"

definition sizeof_iphdr :: nat where "sizeof_iphdr = 20"
definition sizeof_udphdr :: nat where "sizeof_udphdr = 8"
definition IPPROTO_UDP :: u8 where "IPPROTO_UDP = 17"

text \<open>
  The header after the stores of \<open>main\<close> up to the call of \<open>checksum\<close>, on the zeroed packet. The
  C library's \<open>inet_addr\<close> is a parameter.
\<close>

definition ip_zero :: iphdr where
  "ip_zero = \<lparr>ihl = 0, version = 0, tos = 0, tot_len = 0, ip_id = 0, frag_off = 0, ttl = 0,
     protocol = 0, ip_check = 0, saddr = 0, daddr = 0\<rparr>"

definition raw_header :: "(string \<Rightarrow> u32) \<Rightarrow> iphdr" where
  "raw_header inet_addr = ip_zero\<lparr>
     ihl := 5, version := 4, tos := 0b10111000,
     tot_len := htons (of_nat (sizeof_iphdr + sizeof_udphdr)),
     ip_id := htons 12345, ttl := 64, protocol := IPPROTO_UDP,
     saddr := inet_addr ''192.168.1.10'', daddr := inet_addr ''192.168.1.20''\<rparr>"

definition raw_udp :: udphdr where
  "raw_udp = \<lparr>source = htons 1234, dest = htons 5678, udp_len = htons (of_nat sizeof_udphdr), udp_check = 0\<rparr>"

text \<open>
  \<open>main\<close>: the results of \<open>socket\<close>, \<open>setsockopt\<close> and \<open>sendto\<close> are parameters, the system calls it
  makes are the trace, and the exit code is the result. The packet is an array of 4096 bytes.
\<close>

datatype raw_call =
    RawSocket
  | RawSetHdrIncl int
  | RawSendTo int bytes u32
  | RawClose int

record raw_env =
  socket_rv :: int
  setsockopt_rv :: int
  sendto_rv :: int

definition raw_packet :: "iphdr \<Rightarrow> udphdr \<Rightarrow> bytes" where
  "raw_packet ip udp = iphdr_bytes ip @ udphdr_bytes udp @ replicate (4096 - (sizeof_iphdr + sizeof_udphdr)) 0"

definition raw_main :: "raw_env \<Rightarrow> (string \<Rightarrow> u32) \<Rightarrow> (int \<times> raw_call list) cexec" where
  "raw_main env inet_addr =
     (let sockfd = socket_rv env in
      if sockfd < 0 then Inr (1, [RawSocket])
      else if setsockopt_rv env < 0 then Inr (1, [RawSocket, RawSetHdrIncl sockfd])
      else
        let ip = raw_header inet_addr in
        cbind (checksum (words16 (raw_packet ip \<lparr>source = 0, dest = 0, udp_len = 0, udp_check = 0\<rparr>))
                 (uint (push_bit 1 (ihl ip)))) (\<lambda>c.
        let ip' = ip\<lparr>ip_check := c\<rparr>;
            packet = raw_packet ip' raw_udp;
            sent = [RawSocket, RawSetHdrIncl sockfd,
                    RawSendTo sockfd (take (unat (ntohs (tot_len ip'))) packet) (daddr ip')]
        in if sendto_rv env < 0 then Inr (1, sent) else Inr (0, sent @ [RawClose sockfd])))"

section \<open>The sum of the words\<close>

declare checksum_loop.simps [simp del]

lemma checksum_loop_eq:
  "p + nat n \<le> length buf \<Longrightarrow>
   checksum_loop buf p n s = Inr (s + (\<Sum>w\<leftarrow>take (nat n) (drop p buf). ucast w))"
proof (induction buf p n s rule: checksum_loop.induct)
  case (1 buf p n s)
  show ?case
  proof (cases "n > 0")
    case True
    then have p: "p < length buf" using 1(2) by simp
    have "nat n = Suc (nat (n - 1))" using True by simp
    then have tk: "take (nat n) (drop p buf) = buf ! p # take (nat (n - 1)) (drop (Suc p) buf)"
      using p by (simp add: drop_Cons_nth)
    show ?thesis
      using True p 1(2) 1(1) [OF True, of "buf ! p"]
      by (subst checksum_loop.simps) (simp add: tk algebra_simps)
  next
    case False
    then show ?thesis by (subst checksum_loop.simps) simp
  qed
qed

definition word_sum :: "u16 list \<Rightarrow> nat" where
  "word_sum ws = (\<Sum>w\<leftarrow>ws. unat w)"

lemma word_sum_simps [simp]: "word_sum [] = 0" "word_sum (w # ws) = unat w + word_sum ws"
  by (simp_all add: word_sum_def)

lemma word_sum_bound: "word_sum ws \<le> length ws * 65535"
proof (induction ws)
  case (Cons w ws)
  with unat_less_u16 [of w] show ?case by simp
qed simp

lemma unat_sum_list_ucast:
  "length ws \<le> 65536 \<Longrightarrow> unat (\<Sum>w\<leftarrow>ws. (ucast w :: u64)) = word_sum ws"
proof (induction ws)
  case (Cons w ws)
  note w = unat_less_u16 [of w]
  have b: "word_sum ws \<le> 65536 * 65535"
    using word_sum_bound [of ws] Cons.prems by simp
  have u: "unat (ucast w :: u64) = unat w"
    using w by (simp add: unat_ucast)
  from Cons w b u show ?case
    by (simp add: unat_word_ariths)
qed simp

lemma unat_and_ffff: "unat (x AND 0xffff :: u64) = unat x mod 65536"
proof -
  have "(0xffff :: u64) = mask 16" by (simp add: mask_eq_exp_minus_1)
  then have "x AND 0xffff = take_bit 16 x" by (simp add: take_bit_eq_mask)
  then have "unat (x AND 0xffff) = take_bit 16 (unat x)" by (simp only: unsigned_take_bit_eq)
  then show ?thesis by (simp add: take_bit_eq_mod)
qed

lemma unat_not_u16: "unat (NOT w :: u16) = 65535 - unat w"
proof -
  have "NOT w = - 1 - w" by (simp add: not_eq_complement)
  moreover have "w \<le> - 1" by simp
  ultimately have "unat (NOT w) = unat (- 1 :: u16) - unat w" by (simp add: unat_sub)
  then show ?thesis by (simp add: unsigned_minus_1_eq_mask mask_eq_exp_minus_1)
qed

lemma ucast_not_u64: "(ucast (NOT (x :: u64)) :: u16) = NOT (ucast x)"
  by (rule bit_word_eqI) (simp add: bit_unsigned_iff bit_not_iff)

text \<open>
  The Internet checksum adds the words with end-around carry. On naturals the sum is the value
  \<open>fold_sum\<close>: the remainder modulo 65535, with 65535 in the place of 0 except for an empty sum.
\<close>

definition fold_sum :: "nat \<Rightarrow> nat" where
  "fold_sum S = (if S = 0 then 0 else (S - 1) mod 65535 + 1)"

lemma fold_sum_carry:
  assumes "65536 \<le> s" and "s \<le> 131070"
  shows "fold_sum s = s - 65535" and "s div 65536 = 1" and "s mod 65536 = s - 65536"
    and "(s + 1) mod 65536 = s - 65535"
proof -
  define d where "d = s - 65536"
  have d: "s = 65536 + d" "d \<le> 65534" using assms by (simp_all add: d_def)
  have "65536 + d - 1 = 65535 + d" by simp
  then have "(65536 + d - 1) mod 65535 = d mod 65535" by (metis mod_add_self1)
  then show "fold_sum s = s - 65535" using d by (simp add: fold_sum_def)
  show "s div 65536 = 1" and "s mod 65536 = s - 65536" using d by simp_all
  have "(65536 + d + 1) mod 65536 = (d + 1) mod 65536" by (metis add.assoc mod_add_self1)
  then show "(s + 1) mod 65536 = s - 65535" using d by simp
qed

lemma two_folds:
  assumes "S < 4294967296"
  defines "s1 \<equiv> S div 65536 + S mod 65536"
  shows "(s1 + s1 div 65536) mod 65536 = fold_sum S"
proof (cases "S = 0")
  case True
  then show ?thesis by (simp add: s1_def fold_sum_def)
next
  case False
  have S: "S = 65536 * (S div 65536) + S mod 65536" by simp
  have hi: "S div 65536 < 65536" using assms(1) by simp
  have lo: "S mod 65536 < 65536" by simp
  have pos: "0 < s1" using False unfolding s1_def by (metis S add_gr_0 mult_0_right neq0_conv add_0)
  have "(S - 1) mod 65535 = (s1 - 1) mod 65535"
  proof -
    have "S - 1 = 65535 * (S div 65536) + (s1 - 1)" using S pos unfolding s1_def by linarith
    then show ?thesis by simp
  qed
  moreover have "(s1 + s1 div 65536) mod 65536 = fold_sum s1"
  proof (cases "s1 < 65536")
    case True
    with pos show ?thesis by (simp add: fold_sum_def)
  next
    case f: False
    have "s1 \<le> 131070" using hi lo unfolding s1_def by linarith
    with f show ?thesis using fold_sum_carry [of s1] by simp
  qed
  ultimately show ?thesis using False pos by (simp add: fold_sum_def)
qed

lemma fold_sum_le: "fold_sum S \<le> 65535"
  by (simp add: fold_sum_def Suc_le_eq)

lemma fold_sum_small: "S \<le> 65535 \<Longrightarrow> fold_sum S = S"
  by (auto simp: fold_sum_def)

lemma fold_sum_add: "fold_sum (fold_sum S + T) = fold_sum (S + T)"
proof (cases "S = 0")
  case True
  then show ?thesis by (simp add: fold_sum_def)
next
  case False
  then have "((S - 1) mod 65535 + T) mod 65535 = (S + T - 1) mod 65535"
    by (simp add: mod_add_left_eq)
  with False show ?thesis by (simp add: fold_sum_def)
qed

lemma fold_sum_65535: "fold_sum (S + (65535 - fold_sum S)) = 65535"
proof -
  have "fold_sum (S + (65535 - fold_sum S)) = fold_sum (fold_sum S + (65535 - fold_sum S))"
    by (rule fold_sum_add [symmetric])
  also have "\<dots> = fold_sum 65535" using fold_sum_le [of S] by simp
  finally show ?thesis by (simp add: fold_sum_def)
qed

lemma checksum_unat:
  assumes "0 \<le> n" and "nat n \<le> length buf" and "n \<le> 65536"
  obtains c where "checksum buf n = Inr c" and "unat c = 65535 - fold_sum (word_sum (take (nat n) buf))"
proof -
  let ?ws = "take (nat n) buf"
  define s0 where "s0 = (\<Sum>w\<leftarrow>?ws. (ucast w :: u64))"
  define s1 where "s1 = drop_bit 16 s0 + (s0 AND 0xffff)"
  define s2 where "s2 = s1 + drop_bit 16 s1"
  have len: "length ?ws \<le> 65536" using assms by simp
  have u0: "unat s0 = word_sum ?ws" unfolding s0_def by (rule unat_sum_list_ucast [OF len])
  have b0: "unat s0 < 4294967296"
    using word_sum_bound [of ?ws] len u0 by linarith
  have u1: "unat s1 = unat s0 div 65536 + unat s0 mod 65536"
    using b0 by (simp add: s1_def unat_word_ariths unat_drop_bit_div unat_and_ffff)
  have u2: "unat s2 = unat s1 + unat s1 div 65536"
    using u1 b0 by (simp add: s2_def unat_word_ariths unat_drop_bit_div)
  have "checksum buf n = Inr (ucast (NOT s2))"
    using assms checksum_loop_eq [of 0 n buf 0]
    by (simp add: checksum_def Let_def s0_def s1_def s2_def)
  moreover have "unat (ucast (NOT s2) :: u16) = 65535 - fold_sum (word_sum ?ws)"
    using two_folds [OF b0] u0 u1 u2
    by (simp add: ucast_not_u64 unat_not_u16 unat_ucast)
  ultimately show ?thesis by (rule that)
qed

section \<open>The reference sum\<close>

definition oc_add :: "u16 \<Rightarrow> u16 \<Rightarrow> u16" where
  "oc_add a b = (let s = unat a + unat b in of_nat (s mod 65536 + s div 65536))"

lemma unat_oc_add: "unat (oc_add a b) = fold_sum (unat a + unat b)"
proof -
  define s where "s = unat a + unat b"
  have s: "s \<le> 131070" using unat_less_u16 [of a] unat_less_u16 [of b] by (simp add: s_def)
  have "s mod 65536 + s div 65536 = fold_sum s"
  proof (cases "s < 65536")
    case True
    then show ?thesis by (simp add: fold_sum_small)
  next
    case False
    then show ?thesis using s fold_sum_carry [of s] by simp
  qed
  then have "oc_add a b = of_nat (fold_sum s)" by (simp only: oc_add_def Let_def s_def)
  then show ?thesis using fold_sum_le [of s] by (simp add: unat_of_nat s_def)
qed

lemma unat_foldl_oc_add: "unat (foldl oc_add a ws) = fold_sum (unat a + word_sum ws)"
proof (induction ws arbitrary: a)
  case Nil
  then show ?case using unat_less_u16 [of a] by (simp add: fold_sum_small)
next
  case (Cons w ws)
  then show ?case by (simp add: unat_oc_add fold_sum_add add.assoc)
qed

section \<open>Properties\<close>

lemma word_sum_update: "k < length ws \<Longrightarrow> ws ! k = 0 \<Longrightarrow> word_sum (ws[k := c]) = word_sum ws + unat c"
proof (induction ws arbitrary: k)
  case (Cons w ws)
  then show ?case by (cases k) auto
qed simp

lemma u16_eqI: "unat (a :: u16) = unat b \<Longrightarrow> a = b"
  by (simp add: word_unat_eq_iff)

lemma checksum_oc:
  assumes "0 \<le> nwords" and "nat nwords \<le> length buf" and "nwords \<le> 65536"
  shows "checksum buf nwords = Inr (NOT (foldl oc_add 0 (take (nat nwords) buf)))"
proof -
  obtain c where c: "checksum buf nwords = Inr c"
    and u: "unat c = 65535 - fold_sum (word_sum (take (nat nwords) buf))"
    using checksum_unat [OF assms] by blast
  have "c = NOT (foldl oc_add 0 (take (nat nwords) buf))"
    by (rule u16_eqI) (simp add: u unat_not_u16 unat_foldl_oc_add)
  with c show ?thesis by simp
qed

text \<open>The checksum of the first \<open>nwords\<close> words of a buffer, for up to 65536 words, is the complement of
  their sum with end-around carry, the Internet checksum: the two folds of the 64-bit accumulator
  are enough.\<close>

theorem checksum_end_around_carry:
  assumes "0 \<le> nwords" and "nat nwords \<le> length buf" and "nwords \<le> 65536"
  shows "checksum buf nwords = Inr (NOT (foldl oc_add 0 (take (nat nwords) buf)))"
  using assms by (rule checksum_oc)

theorem checksum_end_around_carry_witness:
  "checksum [0xffff, 0x0002, 0x1234] 2 = Inr (NOT 2)"
proof -
  have "foldl oc_add 0 (take 2 [0xffff, 0x0002, 0x1234]) = 2"
    by (simp add: oc_add_def Let_def)
  then show ?thesis using checksum_end_around_carry [of 2 "[0xffff, 0x0002, 0x1234]"] by simp
qed

lemma checksum_zero_field:
  assumes "k < length ws" and "ws ! k = 0" and "length ws \<le> 65536"
  shows "\<exists>c. checksum ws (int (length ws)) = Inr c \<and>
    checksum (ws[k := c]) (int (length ws)) = Inr 0"
proof -
  obtain c where c: "checksum ws (int (length ws)) = Inr c"
    and u: "unat c = 65535 - fold_sum (word_sum ws)"
    using checksum_unat [of "int (length ws)" ws] assms(3) by auto
  obtain d where d: "checksum (ws[k := c]) (int (length ws)) = Inr d"
    and v: "unat d = 65535 - fold_sum (word_sum (ws[k := c]))"
    using checksum_unat [of "int (length ws)" "ws[k := c]"] assms(3) by auto
  have "unat d = 0"
    using v by (simp add: word_sum_update [OF assms(1,2)] u fold_sum_65535)
  then have "d = 0" by (simp add: unat_eq_0)
  with c d show ?thesis by blast
qed

text \<open>A header whose checksum field is zero verifies once the computed checksum is stored in that field:
  the checksum of the completed header is zero.\<close>

theorem checksum_verifies:
  assumes "k < length ws" and "ws ! k = 0" and "length ws \<le> 65536"
  shows "\<exists>c. checksum ws (int (length ws)) = Inr c \<and>
    checksum (ws[k := c]) (int (length ws)) = Inr 0"
  using assms by (rule checksum_zero_field)

theorem checksum_verifies_witness:
  "\<exists>c. checksum [0x0045, 0, 0x1c00] 3 = Inr c \<and> checksum [0x0045, c, 0x1c00] 3 = Inr 0"
  using checksum_verifies [of 1 "[0x0045, 0, 0x1c00]"] by simp

section \<open>The packet main sends\<close>

lemma words16_append: "even (length xs) \<Longrightarrow> words16 (xs @ ys) = words16 xs @ words16 ys"
  by (induction xs rule: words16.induct) auto

lemma length_words16: "length (words16 xs) = length xs div 2"
  by (induction xs rule: words16.induct) auto

lemma words16_store16 [simp]: "words16 (store16 x) = [x]"
proof -
  have "store16 x = [store16 x ! 0, store16 x ! Suc 0]" by (simp add: store16_def)
  moreover have "words16 [store16 x ! 0, store16 x ! Suc 0] = [load16 [store16 x ! 0, store16 x ! Suc 0]]"
    by simp
  ultimately show ?thesis by (metis load16_store16)
qed

lemma length_iphdr_bytes [simp]: "length (iphdr_bytes h) = 20"
  by (simp add: iphdr_bytes_def)

lemma length_udphdr_bytes [simp]: "length (udphdr_bytes u) = 8"
  by (simp add: udphdr_bytes_def)

text \<open>The checksum field is the sixth word of the header image.\<close>

lemma words16_iphdr_check:
  "words16 (iphdr_bytes (h\<lparr>ip_check := c\<rparr>)) = (words16 (iphdr_bytes h))[5 := c]"
  by (simp add: iphdr_bytes_def words16_append)

lemma words16_iphdr_check_nth: "words16 (iphdr_bytes h) ! 5 = ip_check h"
  by (simp add: iphdr_bytes_def words16_append)

lemma checksum_prefix:
  assumes "length ws = nat n" and "0 \<le> n" and "n \<le> 65536"
  shows "checksum (ws @ rest) n = checksum ws n"
  using assms by (simp add: checksum_oc)

lemma header_checksum:
  assumes "ip_check h = 0"
  obtains c where "checksum (words16 (iphdr_bytes h @ rest)) 10 = Inr c"
    and "checksum (words16 (iphdr_bytes (h\<lparr>ip_check := c\<rparr>))) 10 = Inr 0"
proof -
  let ?ws = "words16 (iphdr_bytes h)"
  have len: "length ?ws = 10" by (simp add: length_words16)
  obtain c where c: "checksum ?ws (int (length ?ws)) = Inr c"
    "checksum (?ws[5 := c]) (int (length ?ws)) = Inr 0"
    using checksum_zero_field [of 5 ?ws] assms by (auto simp: len words16_iphdr_check_nth)
  have "checksum (words16 (iphdr_bytes h @ rest)) 10 = Inr c"
    using c(1) checksum_prefix [of ?ws 10] by (simp add: len words16_append)
  moreover have "checksum (words16 (iphdr_bytes (h\<lparr>ip_check := c\<rparr>))) 10 = Inr 0"
    using c(2) by (simp add: words16_iphdr_check len)
  ultimately show ?thesis by (rule that)
qed

lemma store16_htons_len: "store16 (htons (of_nat (sizeof_iphdr + sizeof_udphdr))) = [0, 28]"
  by (simp add: store16_htons sizeof_iphdr_def sizeof_udphdr_def)

lemma raw_main_ok:
  assumes "0 \<le> socket_rv env" and "0 \<le> setsockopt_rv env"
    and "checksum (words16 (raw_packet (raw_header inet)
      \<lparr>source = 0, dest = 0, udp_len = 0, udp_check = 0\<rparr>)) 10 = Inr c"
  shows "raw_main env inet = Inr
    (if sendto_rv env < 0 then 1 else 0,
     [RawSocket, RawSetHdrIncl (socket_rv env),
      RawSendTo (socket_rv env) (iphdr_bytes ((raw_header inet)\<lparr>ip_check := c\<rparr>) @ udphdr_bytes raw_udp)
        (inet ''192.168.1.20'')] @
     (if sendto_rv env < 0 then [] else [RawClose (socket_rv env)]))"
proof -
  have n: "ihl (raw_header inet) = 5"
    by (simp add: raw_header_def)
  have l: "unat (ntohs (tot_len (raw_header inet))) = 28"
    by (simp add: raw_header_def sizeof_iphdr_def sizeof_udphdr_def)
  have d: "daddr (raw_header inet) = inet ''192.168.1.20''"
    by (simp add: raw_header_def)
  have t: "take 28 (raw_packet ip u) = iphdr_bytes ip @ udphdr_bytes u" for ip u
    by (simp add: raw_packet_def)
  show ?thesis
    using assms by (simp add: raw_main_def Let_def n l d t)
qed

lemma raw_header_image:
  defines "h \<equiv> \<lambda>inet c. iphdr_bytes ((raw_header inet)\<lparr>ip_check := c\<rparr>)"
  shows "take 2 (h inet c) = [0x45, 0xb8]" and "take 2 (drop 2 (h inet c)) = [0, 28]"
    and "take 2 (drop 8 (h inet c)) = [64, 17]"
    and "drop 12 (h inet c) = store32 (inet ''192.168.1.10'') @ store32 (inet ''192.168.1.20'')"
  unfolding h_def
  by (simp_all add: iphdr_bytes_def raw_header_def ip_zero_def IPPROTO_UDP_def store16_htons_len
      sizeof_iphdr_def sizeof_udphdr_def store16_htons)



end
