(* ===== verification/Arp.thy ===== *)
theory Arp
  imports C_Lib
begin

text \<open>
  The ARP client (\<open>sockets/dns_lookup/arp.cc\<close>): the interface queries, the who-has frame
  \<open>send_arp\<close> builds, the frame \<open>read_arp\<close> accepts, and the program \<open>test_arping\<close> makes of them.
  The kernel is a parameter: a record of the answers its calls give, which depend on the open
  descriptors. The state is the list of open descriptors and the log of what the program prints,
  sends and closes.
\<close>

section \<open>Constants and structures\<close>

definition PROTO_ARP :: u16 where "PROTO_ARP = 0x0806"
definition ETH_P_ARP :: u16 where "ETH_P_ARP = 0x0806"
definition ETH_P_IP :: u16 where "ETH_P_IP = 0x0800"
definition HW_TYPE :: u16 where "HW_TYPE = 1"
definition ARPHRD_ETHER :: u16 where "ARPHRD_ETHER = 1"
definition MAC_LENGTH :: nat where "MAC_LENGTH = 6"
definition IPV4_LENGTH :: nat where "IPV4_LENGTH = 4"
definition ARP_REQUEST :: u16 where "ARP_REQUEST = 1"
definition ARP_REPLY :: u16 where "ARP_REPLY = 2"
definition ARP_BUF_SIZE :: nat where "ARP_BUF_SIZE = 60"
definition IFNAMSIZ :: nat where "IFNAMSIZ = 16"
definition AF_INET :: nat where "AF_INET = 2"
definition AF_PACKET :: nat where "AF_PACKET = 17"
definition PACKET_BROADCAST :: u8 where "PACKET_BROADCAST = 1"

record ethhdr =
  h_dest :: bytes
  h_source :: bytes
  h_proto :: u16

record arp_header =
  hardware_type :: u16
  protocol_type :: u16
  hardware_len :: u8
  protocol_len :: u8
  opcode :: u16
  sender_mac :: bytes
  sender_ip :: bytes
  target_mac :: bytes
  target_ip :: bytes

record sockaddr_ll =
  sll_family :: nat
  sll_protocol :: u16
  sll_ifindex :: int
  sll_hatype :: u16
  sll_pkttype :: u8
  sll_halen :: u8
  sll_addr :: bytes

text \<open>The memory images of the packed structures.\<close>

definition ethhdr_bytes :: "ethhdr \<Rightarrow> bytes" where
  "ethhdr_bytes e = h_dest e @ h_source e @ store16 (h_proto e)"

definition arp_header_bytes :: "arp_header \<Rightarrow> bytes" where
  "arp_header_bytes a =
     store16 (hardware_type a) @ store16 (protocol_type a) @ [hardware_len a, protocol_len a] @
     store16 (opcode a) @ sender_mac a @ sender_ip a @ target_mac a @ target_ip a"

section \<open>Kernel and state\<close>

record sockaddr =
  sa_family :: nat
  s_addr :: u32

datatype arp_event =
    Err string
  | Say string
  | SayInt string int
  | Sent int bytes sockaddr_ll
  | SenderIP bytes
  | SenderMAC bytes
  | Closed int

record arp_state =
  open_fds :: "int list"
  events :: "arp_event list"

text \<open>
  \<open>k_recv\<close> is the answer to the \<open>n\<close>-th \<open>recvfrom\<close>: its result and the bytes it stored.
\<close>

record arp_kernel =
  k_socket :: "int list \<Rightarrow> int"
  k_ifindex :: "string \<Rightarrow> int option"
  k_hwaddr :: "string \<Rightarrow> bytes option"
  k_ifaddr :: "string \<Rightarrow> sockaddr option"
  k_bind :: "int list \<Rightarrow> int \<Rightarrow> int \<Rightarrow> int"
  k_sendto :: "int list \<Rightarrow> int \<Rightarrow> bytes \<Rightarrow> int"
  k_recv :: "int list \<Rightarrow> int \<Rightarrow> nat \<Rightarrow> int \<times> bytes"

definition arp_log :: "arp_event \<Rightarrow> arp_state \<Rightarrow> arp_state" where
  "arp_log e s = s\<lparr>events := events s @ [e]\<rparr>"

text \<open>\<open>retError\<close> of \<open>utils.h\<close> prints its message and returns -1.\<close>

definition retError :: "string \<Rightarrow> arp_state \<Rightarrow> int \<times> arp_state" where
  "retError msg s = (- 1, arp_log (Err msg) s)"

definition sys_socket :: "arp_kernel \<Rightarrow> arp_state \<Rightarrow> int \<times> arp_state" where
  "sys_socket k s =
     (let fd = k_socket k (open_fds s) in (fd, if fd < 0 then s else s\<lparr>open_fds := fd # open_fds s\<rparr>))"

definition sys_close :: "int \<Rightarrow> arp_state \<Rightarrow> arp_state" where
  "sys_close fd s = arp_log (Closed fd) (s\<lparr>open_fds := removeAll fd (open_fds s)\<rparr>)"

section \<open>The operations\<close>

definition int_ip4 :: "sockaddr \<Rightarrow> arp_state \<Rightarrow> (int \<times> u32 option) \<times> arp_state" where
  "int_ip4 addr s =
     (if sa_family addr = AF_INET then ((0, Some (s_addr addr)), s)
      else let (r, s') = retError ''Not AF_INET'' s in ((r, None), s'))"

definition format_ip4 :: "(u32 \<Rightarrow> string option) \<Rightarrow> sockaddr \<Rightarrow> arp_state \<Rightarrow> (int \<times> string option) \<times> arp_state" where
  "format_ip4 inet_ntoa addr s =
     (if sa_family addr = AF_INET then
        (case inet_ntoa (s_addr addr) of
           None \<Rightarrow> let (r, s') = retError ''invalid ip address'' s in ((r, None), s')
         | Some ip \<Rightarrow> ((0, Some ip), s))
      else let (r, s') = retError ''don't support ipv6'' s in ((r, None), s'))"

definition get_if_ip4 :: "arp_kernel \<Rightarrow> string \<Rightarrow> arp_state \<Rightarrow> (int \<times> u32 option) \<times> arp_state" where
  "get_if_ip4 k ifname s =
     (if strlen ifname > IFNAMSIZ - 1 then
        let (r, s') = retError ''Too long interface name'' s in ((r, None), s')
      else case k_ifaddr k ifname of
        None \<Rightarrow> let (r, s') = retError ''SIOCGIFADDR'' s in ((r, None), s')
      | Some addr \<Rightarrow>
          let ((r, ip), s1) = int_ip4 addr s in
          if r \<noteq> 0 then let (r', s2) = retError ''invalid address'' s1 in ((r', None), s2)
          else ((0, ip), s1))"

text \<open>
  The frame of \<open>send_arp\<close>: the structures are laid over the zeroed buffer of 60 bytes, and 42 bytes
  of it are sent. \<open>src_mac\<close> points to the six bytes of the interface's address.
\<close>

definition arp_request :: "bytes \<Rightarrow> u32 \<Rightarrow> u32 \<Rightarrow> ethhdr \<times> arp_header" where
  "arp_request src_mac src_ip dst_ip =
     (\<lparr>h_dest = replicate MAC_LENGTH 0xff, h_source = take MAC_LENGTH src_mac, h_proto = htons ETH_P_ARP\<rparr>,
      \<lparr>hardware_type = htons HW_TYPE, protocol_type = htons ETH_P_IP,
       hardware_len = of_nat MAC_LENGTH, protocol_len = of_nat IPV4_LENGTH, opcode = htons ARP_REQUEST,
       sender_mac = take MAC_LENGTH src_mac, sender_ip = store32 src_ip,
       target_mac = replicate MAC_LENGTH 0, target_ip = store32 dst_ip\<rparr>)"

definition arp_buffer :: "ethhdr \<times> arp_header \<Rightarrow> bytes" where
  "arp_buffer fr =
     (let img = ethhdr_bytes (fst fr) @ arp_header_bytes (snd fr)
      in img @ replicate (ARP_BUF_SIZE - length img) 0)"

definition arp_dest :: "int \<Rightarrow> bytes \<Rightarrow> sockaddr_ll" where
  "arp_dest ifindex src_mac =
     \<lparr>sll_family = AF_PACKET, sll_protocol = htons ETH_P_ARP, sll_ifindex = ifindex,
      sll_hatype = htons ARPHRD_ETHER, sll_pkttype = PACKET_BROADCAST, sll_halen = of_nat MAC_LENGTH,
      sll_addr = take MAC_LENGTH src_mac @ [0, 0]\<rparr>"

definition send_arp :: "arp_kernel \<Rightarrow> int \<Rightarrow> int \<Rightarrow> bytes \<Rightarrow> u32 \<Rightarrow> u32 \<Rightarrow> arp_state \<Rightarrow> int \<times> arp_state" where
  "send_arp k fd ifindex src_mac src_ip dst_ip s =
     (let s1 = arp_log (Say ''Copy IP address to arp_req'') s;
          frame = take 42 (arp_buffer (arp_request src_mac src_ip dst_ip));
          ret = k_sendto k (open_fds s1) fd frame
      in if ret = - 1 then retError ''sendto():'' s1
         else (0, arp_log (Sent fd frame (arp_dest ifindex src_mac)) s1))"

text \<open>
  \<open>get_if_info\<close> returns its three outputs with the result; the returns after a failed query leave
  the temporary socket open.
\<close>

record if_info =
  if_ip :: u32
  if_mac :: bytes
  if_index :: int

definition get_if_info :: "arp_kernel \<Rightarrow> string \<Rightarrow> arp_state \<Rightarrow> (int \<times> if_info option) \<times> arp_state" where
  "get_if_info k ifname s =
     (let (sd, s1) = sys_socket k (arp_log (Say (''get_if_info for '' @ ifname)) s);
          fail = (\<lambda>msg s. let (r, s') = retError msg s in ((r, None), s'))
      in if sd \<le> 0 then fail ''socket create failed'' s1
         else if strlen ifname > IFNAMSIZ - 1 then fail ''Too long interface name, MAX=15'' s1
         else case k_ifindex k ifname of None \<Rightarrow> fail ''SIOCGIFINDEX'' s1
         | Some ifindex \<Rightarrow>
           (let s2 = arp_log (SayInt ''interface index is '' ifindex) s1 in
            case k_hwaddr k ifname of None \<Rightarrow> fail ''SIOCGIFINDEX'' s2
            | Some sa_data \<Rightarrow>
              (let mac = take MAC_LENGTH sa_data;
                   ((r, ip), s3) = get_if_ip4 k ifname s2
               in if r \<noteq> 0 then ((- 1, None), s3)
                  else
                    let s4 = arp_log (Say ''get_if_info OK'') s3 in
                    ((0, map_option (\<lambda>a. \<lparr>if_ip = a, if_mac = mac, if_index = ifindex\<rparr>) ip),
                     (if sd > 0 then sys_close sd (arp_log (Say ''Clean up temporary socket'') s4) else s4)))))"

text \<open>\<open>bind_arp\<close> initialises \<open>ret\<close> to -1 and never assigns it again, so its final test closes the socket.\<close>

definition bind_arp :: "arp_kernel \<Rightarrow> int \<Rightarrow> arp_state \<Rightarrow> (int \<times> int) \<times> arp_state" where
  "bind_arp k ifindex s =
     (let ret = (- 1 :: int);
          (fd, s1) = sys_socket k (arp_log (SayInt ''bind_arp: ifindex='' ifindex) s)
      in if fd < 1 then let (r, s2) = retError ''socket()'' s1 in ((r, fd), s2)
         else
           let s2 = arp_log (SayInt ''Binding to ifindex '' ifindex) s1 in
           if k_bind k (open_fds s2) fd ifindex < 0 then let (r, s3) = retError ''bind'' s2 in ((r, fd), s3)
           else ((0, fd), if ret \<noteq> 0 \<and> fd > 0 then sys_close fd (arp_log (Say ''Cleanup socket'') s2) else s2))"

text \<open>
  \<open>read_arp\<close>: the buffer is not initialised, so a byte behind those \<open>recvfrom\<close> stored is an
  indeterminate value. The multi-byte fields are read from the overlaid structures.
\<close>

definition recv_buffer :: "bytes \<Rightarrow> u8 option list" where
  "recv_buffer data = map Some (take ARP_BUF_SIZE data) @ replicate (ARP_BUF_SIZE - length data) None"

definition rd_init :: "'a option list \<Rightarrow> nat \<Rightarrow> 'a cexec" where
  "rd_init buf i = cbind (rd buf i) (\<lambda>b. case b of None \<Rightarrow> Inl Uninitialised | Some x \<Rightarrow> Inr x)"

fun rd_bytes :: "'a option list \<Rightarrow> nat \<Rightarrow> nat \<Rightarrow> 'a list cexec" where
  "rd_bytes buf i 0 = Inr []"
| "rd_bytes buf i (Suc n) = cbind (rd_init buf i) (\<lambda>x. cbind (rd_bytes buf (Suc i) n) (\<lambda>xs. Inr (x # xs)))"

definition read_arp :: "arp_kernel \<Rightarrow> int \<Rightarrow> nat \<Rightarrow> arp_state \<Rightarrow> (int \<times> arp_state) cexec" where
  "read_arp k fd n s =
     (let s0 = arp_log (Say ''read_arp'') s;
          (len, data) = k_recv k (open_fds s0) fd n
      in if len = - 1 then Inr (retError ''recvfrom()'' s0)
         else
           let buffer = recv_buffer (take (nat len) data) in
           cbind (rd_bytes buffer 12 2) (\<lambda>proto.
           if ntohs (load16 proto) \<noteq> PROTO_ARP then Inr (retError ''Not an ARP packet'' s0)
           else cbind (rd_bytes buffer 20 2) (\<lambda>op.
           if ntohs (load16 op) \<noteq> ARP_REPLY then Inr (retError ''Not an ARP reply'' s0)
           else cbind (rd_bytes buffer 28 4) (\<lambda>ip. cbind (rd_bytes buffer 22 6) (\<lambda>mac.
             Inr (0, arp_log (SenderMAC mac) (arp_log (SenderIP ip) (arp_log (SayInt ''received ARP len='' len) s0))))))))"

text \<open>The loop of \<open>test_arping\<close> that reads until a reply: it may run forever, which is \<open>None\<close>.\<close>

partial_function (option) arp_wait :: "arp_kernel \<Rightarrow> int \<Rightarrow> nat \<Rightarrow> arp_state \<Rightarrow> arp_state cexec option" where
  "arp_wait k fd n s =
     (case read_arp k fd n s of
        Inl e \<Rightarrow> Some (Inl e)
      | Inr (r, s') \<Rightarrow> if r = 0 then Some (Inr (arp_log (Say ''Got reply, break out'') s')) else arp_wait k fd (Suc n) s')"

definition test_arping :: "arp_kernel \<Rightarrow> (string \<Rightarrow> u32) \<Rightarrow> string \<Rightarrow> string \<Rightarrow> arp_state \<Rightarrow> (int \<times> arp_state) cexec option" where
  "test_arping k inet_addr ifname ip s =
     (let dst = inet_addr ip in
      if dst = 0 \<or> dst = 0xffffffff then Some (Inr (1, arp_log (Say ''Invalid source IP'') s))
      else
        let ((r, info), s1) = get_if_info k ifname s in
        if r \<noteq> 0 then Some (Inr (- 1, arp_log (Say (''get_if_info failed, interface '' @ ifname @ '' not found or no IP set?'')) s1))
        else case info of
          None \<Rightarrow> Some (Inl Uninitialised)
        | Some i \<Rightarrow>
            (let ((r2, arp_fd), s2) = bind_arp k (if_index i) s1 in
             if r2 \<noteq> 0 then Some (Inr (- 1, arp_log (Say ''Failed to bind_arp()'') s2))
             else
               let (r3, s3) = send_arp k arp_fd (if_index i) (if_mac i) (if_ip i) dst s2 in
               if r3 \<noteq> 0 then Some (Inr (- 1, arp_log (Say ''Failed to send_arp'') s3))
               else (case arp_wait k arp_fd 0 s3 of
                       None \<Rightarrow> None
                     | Some (Inl e) \<Rightarrow> Some (Inl e)
                     | Some (Inr s4) \<Rightarrow> Some (Inr (0, if arp_fd \<noteq> 0 then sys_close arp_fd s4 else s4)))))"

definition arp_main :: "arp_kernel \<Rightarrow> (string \<Rightarrow> u32) \<Rightarrow> string list \<Rightarrow> arp_state \<Rightarrow> (int \<times> arp_state) cexec option" where
  "arp_main k inet_addr argv s =
     (if length argv \<noteq> 3 then
        (case argv of
           [] \<Rightarrow> Some (Inl NullPointer)
         | prog # _ \<Rightarrow> Some (Inr (1, arp_log (Say (''Usage: '' @ prog @ '' <INTERFACE> <DEST_IP>'')) s)))
      else test_arping k inet_addr (argv ! 1) (argv ! 2) s)"

section \<open>Frames\<close>

lemma arp_request_frame:
  assumes "length mac = 6"
  shows "take 42 (arp_buffer (arp_request mac sip dip)) =
    replicate 6 0xff @ mac @ [0x08, 0x06] @
    [0x00, 0x01] @ [0x08, 0x00] @ [6, 4] @ [0x00, 0x01] @
    mac @ store32 sip @ replicate 6 0 @ store32 dip"
  using assms
  by (simp add: arp_buffer_def arp_request_def ethhdr_bytes_def arp_header_bytes_def Let_def
      store16_htons MAC_LENGTH_def IPV4_LENGTH_def ARP_BUF_SIZE_def ETH_P_ARP_def ETH_P_IP_def
      HW_TYPE_def ARP_REQUEST_def)

text \<open>\<open>send_arp\<close> sends exactly the who-has request of RFC 826: broadcast destination, the
  interface's address as the source, Ethernet and IPv4 as the address types, opcode 1, the sender's
  pair of addresses and the wanted address with an unknown hardware address; it returns 0 just when
  the kernel took the frame.\<close>

theorem send_arp_who_has:
  assumes "length mac = 6"
  shows "let frame = replicate 6 0xff @ mac @ [0x08, 0x06] @
               [0x00, 0x01] @ [0x08, 0x00] @ [6, 4] @ [0x00, 0x01] @
               mac @ store32 sip @ replicate 6 0 @ store32 dip;
             (r, t) = send_arp k fd ifx mac sip dip s
         in (r = 0 \<longleftrightarrow> k_sendto k (open_fds s) fd frame \<noteq> - 1) \<and>
            (r = 0 \<longrightarrow> (\<exists>to. sll_ifindex to = ifx \<and> take 6 (sll_addr to) = mac \<and>
                          last (events t) = Sent fd frame to))"
  using assms
  by (simp add: send_arp_def arp_request_frame Let_def arp_log_def retError_def arp_dest_def MAC_LENGTH_def)

text \<open>\<open>rd_bytes\<close> inside the received bytes reads them; from an indeterminate byte on it fails.\<close>

lemma rd_init_recv:
  assumes "length data \<le> ARP_BUF_SIZE" "i < ARP_BUF_SIZE"
  shows "rd_init (recv_buffer data) i = (if i < length data then Inr (data ! i) else Inl Uninitialised)"
  using assms by (simp add: rd_init_def recv_buffer_def nth_append)

lemma rd_bytes_recv:
  assumes "length data \<le> ARP_BUF_SIZE"
  shows "i + n \<le> length data \<Longrightarrow> rd_bytes (recv_buffer data) i n = Inr (take n (drop i data))"
proof (induction n arbitrary: i)
  case (Suc n)
  then have "i < length data" "i < ARP_BUF_SIZE" using assms by auto
  then show ?case using Suc by (simp add: rd_init_recv [OF assms] drop_Cons_nth [of i data])
qed simp

lemma read_arp_frame:
  assumes "k_recv k (open_fds s) fd n = (int (length data), data)"
    and "32 \<le> length data" "length data \<le> 60"
  shows "read_arp k fd n s =
    (let s0 = arp_log (Say ''read_arp'') s in
     if ntohs (load16 (take 2 (drop 12 data))) \<noteq> PROTO_ARP then Inr (retError ''Not an ARP packet'' s0)
     else if ntohs (load16 (take 2 (drop 20 data))) \<noteq> ARP_REPLY then Inr (retError ''Not an ARP reply'' s0)
     else Inr (0, arp_log (SenderMAC (take 6 (drop 22 data))) (arp_log (SenderIP (take 4 (drop 28 data)))
                   (arp_log (SayInt ''received ARP len='' (int (length data))) s0))))"
proof -
  have "length data \<le> ARP_BUF_SIZE" using assms(3) by (simp add: ARP_BUF_SIZE_def)
  note rb = rd_bytes_recv [OF this]
  have "open_fds (arp_log e s) = open_fds s" for e by (simp add: arp_log_def)
  then show ?thesis
    using assms by (simp add: read_arp_def rb Let_def)
qed

definition arp_frame_ok :: "ethhdr \<times> arp_header \<Rightarrow> bool" where
  "arp_frame_ok fr \<longleftrightarrow> (case fr of (e, a) \<Rightarrow>
     length (h_dest e) = 6 \<and> length (h_source e) = 6 \<and> length (sender_mac a) = 6 \<and>
     length (sender_ip a) = 4 \<and> length (target_mac a) = 6 \<and> length (target_ip a) = 4)"

lemma arp_buffer_fields:
  assumes "arp_frame_ok (e, a)"
  shows "length (arp_buffer (e, a)) = 60"
    "take 2 (drop 12 (arp_buffer (e, a))) = store16 (h_proto e)"
    "take 2 (drop 20 (arp_buffer (e, a))) = store16 (opcode a)"
    "take 6 (drop 22 (arp_buffer (e, a))) = sender_mac a"
    "take 4 (drop 28 (arp_buffer (e, a))) = sender_ip a"
  using assms
  by (simp_all add: arp_frame_ok_def arp_buffer_def ethhdr_bytes_def arp_header_bytes_def Let_def ARP_BUF_SIZE_def)

text \<open>C19. What \<open>read_arp\<close> reads is what the layout of \<open>send_arp\<close> wrote: of a frame in that layout it
  accepts exactly the ARP replies, and then prints the sender's IP and hardware address of the header;
  so the program's own request, which a packet socket also delivers, is never taken for a reply.\<close>

theorem read_arp_roundtrip:
  assumes "arp_frame_ok (e, a)"
    and "k_recv k (open_fds s) fd n = (60, arp_buffer (e, a))"
  shows "\<exists>r t. read_arp k fd n s = Inr (r, t) \<and> r \<in> {0, - 1} \<and>
           (r = 0 \<longleftrightarrow> h_proto e = htons PROTO_ARP \<and> opcode a = htons ARP_REPLY) \<and>
           (r = 0 \<longrightarrow> (\<exists>pre. events t = pre @ [SenderIP (sender_ip a), SenderMAC (sender_mac a)])) \<and>
           ((\<exists>mac sip dip. (e, a) = arp_request mac sip dip) \<longrightarrow> r = - 1)"
proof -
  note flds = arp_buffer_fields [OF assms(1)]
  have sw: "htons w = v \<longleftrightarrow> w = htons v" for w v by (metis htons_htons)
  have req: "opcode a \<noteq> htons ARP_REPLY" if "(e, a) = arp_request mac sip dip" for mac sip dip
  proof
    assume "opcode a = htons ARP_REPLY"
    then have "ARP_REQUEST = ARP_REPLY" using that by (simp add: arp_request_def) (metis htons_htons)
    then show False by (simp add: ARP_REQUEST_def ARP_REPLY_def)
  qed
  show ?thesis
    using assms(2) req
    by (auto simp: read_arp_frame [where data = "arp_buffer (e, a)"] flds Let_def retError_def arp_log_def sw)
qed

section \<open>Descriptors\<close>

text \<open>
  What the program relies on of the kernel: a new descriptor is not already open, and a call on a
  descriptor that is not open fails.
\<close>

definition arp_kernel_ok :: "arp_kernel \<Rightarrow> bool" where
  "arp_kernel_ok k \<longleftrightarrow>
     (\<forall>os. k_socket k os < 0 \<or> k_socket k os \<notin> set os) \<and>
     (\<forall>os fd bs. fd \<notin> set os \<longrightarrow> k_sendto k os fd bs = - 1)"

lemma open_fds_log [simp]: "open_fds (arp_log e s) = open_fds s"
  by (simp add: arp_log_def)

lemma open_fds_close [simp]: "open_fds (sys_close fd s) = removeAll fd (open_fds s)"
  by (simp add: sys_close_def)

lemma bind_arp_closes:
  assumes "bind_arp k ifx s = ((0, fd), t)"
  shows "fd \<notin> set (open_fds t)"
  using assms by (auto simp: bind_arp_def sys_socket_def Let_def retError_def split: if_splits)

lemma get_if_ip4_open_fds:
  "get_if_ip4 k ifn s = (r, t) \<Longrightarrow> open_fds t = open_fds s"
  by (auto simp: get_if_ip4_def int_ip4_def retError_def Let_def split: if_splits option.splits)

lemma get_if_ip4_result:
  "get_if_ip4 k ifn s = ((r, ip), t) \<Longrightarrow> r = 0 \<longleftrightarrow> ip \<noteq> None"
  by (auto simp: get_if_ip4_def int_ip4_def retError_def Let_def split: if_splits option.splits)

lemma get_if_info_sockets:
  assumes "arp_kernel_ok k" "get_if_info k ifn s = ((r, i), t)"
  shows "r = 0 \<longleftrightarrow> i \<noteq> None"
    and "r = 0 \<Longrightarrow> open_fds t = open_fds s"
    and "r \<noteq> 0 \<Longrightarrow> 0 < k_socket k (open_fds s) \<Longrightarrow> open_fds t = k_socket k (open_fds s) # open_fds s"
proof -
  have "k_socket k (open_fds s) < 0 \<or> k_socket k (open_fds s) \<notin> set (open_fds s)" using assms(1) by (simp add: arp_kernel_ok_def)
  then show "r = 0 \<longleftrightarrow> i \<noteq> None" "r = 0 \<Longrightarrow> open_fds t = open_fds s"
    "r \<noteq> 0 \<Longrightarrow> 0 < k_socket k (open_fds s) \<Longrightarrow> open_fds t = k_socket k (open_fds s) # open_fds s"
    using assms(2)
    by (auto simp: get_if_info_def sys_socket_def Let_def retError_def
        dest: get_if_ip4_open_fds get_if_ip4_result split: if_splits option.splits prod.splits)
qed

text \<open>\<open>get_if_info\<close> gives the three values and closes its temporary socket when it returns 0; every
  error return behind the socket call leaves that socket open.\<close>

theorem get_if_info_leak:
  assumes "arp_kernel_ok k" "get_if_info k ifn s = ((r, i), t)" "0 < k_socket k (open_fds s)"
  shows "(r = 0 \<longleftrightarrow> i \<noteq> None) \<and>
    open_fds t = (if r = 0 then open_fds s else k_socket k (open_fds s) # open_fds s)"
  using get_if_info_sockets [OF assms(1,2)] assms(3) by simp

lemma send_arp_closed:
  assumes "arp_kernel_ok k" "fd \<notin> set (open_fds s)"
  shows "fst (send_arp k fd ifx mac sip dip s) = - 1"
  using assms by (simp add: send_arp_def arp_kernel_ok_def Let_def retError_def)

text \<open>C37. The program cannot succeed: \<open>bind_arp\<close> returns 0 with its socket closed, so \<open>send_arp\<close> fails on
  it, and \<open>test_arping\<close> ends with 1 or -1 for every interface, address and state, on every kernel
  where a call on a closed descriptor fails.\<close>

theorem test_arping_never_succeeds:
  assumes "arp_kernel_ok k"
  shows "\<exists>r t. test_arping k inet ifn ip s = Some (Inr (r, t)) \<and> r \<in> {1, - 1}"
proof -
  obtain r i t where g: "get_if_info k ifn s = ((r, i), t)" by (metis prod.exhaust)
  note gi = get_if_info_sockets(1) [OF assms g]
  have snd: False
    if "bind_arp k ifx t = ((0, fd), u)" "send_arp k fd ifx mac sip dip u = (0, v)" for fd ifx mac sip dip u v
    using send_arp_closed [OF assms bind_arp_closes [OF that(1)], of ifx mac sip dip] that(2) by simp
  show ?thesis
    using gi by (auto simp: test_arping_def g Let_def split: option.splits prod.splits dest: snd)
qed

definition demo_kernel :: "bool \<Rightarrow> bytes \<Rightarrow> arp_kernel" where
  "demo_kernel hw reply = \<lparr>
     k_socket = (\<lambda>os. foldr max os 2 + 1),
     k_ifindex = (\<lambda>n. if n = ''eth0'' then Some 2 else None),
     k_hwaddr = (\<lambda>n. if hw then Some (replicate 14 0x0a) else None),
     k_ifaddr = (\<lambda>n. Some \<lparr>sa_family = 2, s_addr = 0x0100000a\<rparr>),
     k_bind = (\<lambda>os fd i. if fd \<in> set os then 0 else - 1),
     k_sendto = (\<lambda>os fd bs. if fd \<in> set os then int (length bs) else - 1),
     k_recv = (\<lambda>os fd n. (int (length reply), reply))\<rparr>"

lemma foldr_max_upper: "x \<in> set xs \<Longrightarrow> x \<le> foldr max xs (b :: int)"
  by (induction xs) (auto simp: max_def)

lemma demo_kernel_ok: "arp_kernel_ok (demo_kernel hw reply)"
proof -
  have "foldr max os 2 + 1 \<notin> set os" for os :: "int list"
    using foldr_max_upper [of "foldr max os 2 + 1" os 2] by auto
  then show ?thesis by (simp add: arp_kernel_ok_def demo_kernel_def)
qed

theorem test_arping_never_succeeds_witness:
  "\<exists>r t. test_arping (demo_kernel True []) (\<lambda>_. 0x0200000a) ''eth0'' ''10.0.0.2'' \<lparr>open_fds = [], events = []\<rparr>
     = Some (Inr (r, t)) \<and> r \<in> {1, - 1}"
  by (rule test_arping_never_succeeds [OF demo_kernel_ok])

theorem get_if_info_leak_witness:
  "open_fds (snd (get_if_info (demo_kernel False []) ''eth0'' \<lparr>open_fds = [], events = []\<rparr>)) = [3]"
proof -
  obtain r i t where g: "get_if_info (demo_kernel False []) ''eth0'' \<lparr>open_fds = [], events = []\<rparr> = ((r, i), t)"
    by (metis prod.exhaust)
  have "r = - 1"
    using g by (simp add: get_if_info_def sys_socket_def demo_kernel_def Let_def retError_def strlen_def IFNAMSIZ_def)
  then show ?thesis
    using get_if_info_leak [OF demo_kernel_ok g] by (simp add: g) (simp add: demo_kernel_def)
qed

theorem send_arp_who_has_witness:
  "let frame = replicate 6 0xff @ [2, 0, 0, 0, 0, 7] @ [0x08, 0x06] @
         [0x00, 0x01] @ [0x08, 0x00] @ [6, 4] @ [0x00, 0x01] @
         [2, 0, 0, 0, 0, 7] @ [10, 0, 0, 1] @ replicate 6 0 @ [10, 0, 0, 2]
   in fst (send_arp (demo_kernel True []) 3 2 [2, 0, 0, 0, 0, 7] 0x0100000a 0x0200000a
             \<lparr>open_fds = [3], events = []\<rparr>) = 0 \<and>
      store32 0x0100000a = [10, 0, 0, 1]"
  using send_arp_who_has [where mac = "[2, 0, 0, 0, 0, 7]" and sip = "0x0100000a" and dip = "0x0200000a" and
      k = "demo_kernel True []" and fd = 3 and ifx = 2 and s = "\<lparr>open_fds = [3], events = []\<rparr>"]
  by (auto simp: Let_def demo_kernel_def store32_def)

definition demo_reply :: "ethhdr \<times> arp_header" where
  "demo_reply =
     (\<lparr>h_dest = replicate 6 1, h_source = replicate 6 2, h_proto = 0x0608\<rparr>,
      \<lparr>hardware_type = 0x0100, protocol_type = 8, hardware_len = 6, protocol_len = 4, opcode = 0x0200,
       sender_mac = replicate 6 2, sender_ip = [10, 0, 0, 2], target_mac = replicate 6 1, target_ip = [10, 0, 0, 1]\<rparr>)"

lemma demo_reply_fields:
  "sender_ip (snd demo_reply) = [10, 0, 0, 2]" "sender_mac (snd demo_reply) = replicate 6 2"
  by (simp_all add: demo_reply_def)

theorem read_arp_roundtrip_witness:
  "\<exists>t pre. read_arp (demo_kernel True (arp_buffer demo_reply)) 3 0 \<lparr>open_fds = [3], events = []\<rparr> = Inr (0, t) \<and>
     events t = pre @ [SenderIP [10, 0, 0, 2], SenderMAC (replicate 6 2)]"
proof -
  have ok: "arp_frame_ok (fst demo_reply, snd demo_reply)"
    by (simp add: arp_frame_ok_def demo_reply_def)
  have "k_recv (demo_kernel True (arp_buffer demo_reply)) [3] 3 0 = (60, arp_buffer demo_reply)"
    using arp_buffer_fields(1) [OF ok] by (simp add: demo_kernel_def)
  moreover have "h_proto (fst demo_reply) = htons PROTO_ARP" "opcode (snd demo_reply) = htons ARP_REPLY"
    by (simp_all add: demo_reply_def PROTO_ARP_def ARP_REPLY_def htons_def)
  ultimately show ?thesis
    using read_arp_roundtrip [OF ok, where k = "demo_kernel True (arp_buffer demo_reply)" and
        s = "\<lparr>open_fds = [3], events = []\<rparr>" and fd = 3 and n = 0]
    by (force simp: demo_reply_fields)
qed

end
