(* ===== verification/Epoll_Kernel.thy ===== *)
theory Epoll_Kernel
  imports C_Lib
begin

text \<open>
  What the two epoll servers share: the control flow of a \<open>main\<close> that can return, block in a call or
  leave the defined part of the language (\<open>ctl\<close>); the state of the loop with the descriptors that are
  open and the registrations made with \<open>epoll_ctl\<close>; and the documented behaviour of \<open>epoll_wait\<close>,
  which reports only registered descriptors, with the data word given at registration, and fails on a
  descriptor that is not open. The kernel's answers are inputs of the loop.
\<close>

section \<open>Control flow\<close>

datatype 's ctl = Next 's | Stop int 's | Stuck 's | Undef ub

fun ctl_bind :: "'s ctl \<Rightarrow> ('s \<Rightarrow> 't ctl) \<Rightarrow> ('s \<Rightarrow> 't) \<Rightarrow> 't ctl" where
  "ctl_bind (Next s) f g = f s"
| "ctl_bind (Stop r s) f g = Stop r (g s)"
| "ctl_bind (Stuck s) f g = Stuck (g s)"
| "ctl_bind (Undef u) f g = Undef u"

abbreviation andthen :: "'s ctl \<Rightarrow> ('s \<Rightarrow> 's ctl) \<Rightarrow> 's ctl" where
  "andthen m f \<equiv> ctl_bind m f id"

text \<open>A property of the state in which the computation goes on, returns or blocks.\<close>

fun ctl_all :: "('s \<Rightarrow> bool) \<Rightarrow> 's ctl \<Rightarrow> bool" where
  "ctl_all P (Next s) = P s"
| "ctl_all P (Stop r s) = P s"
| "ctl_all P (Stuck s) = P s"
| "ctl_all P (Undef u) = True"

lemma ctl_all_bind:
  "ctl_all P m \<Longrightarrow> (\<And>s. m = Next s \<Longrightarrow> P s \<Longrightarrow> ctl_all P (f s)) \<Longrightarrow> ctl_all P (andthen m f)"
  by (cases m) auto

section \<open>Constants\<close>

definition EPOLLIN :: u32 where "EPOLLIN = 0x1"
definition EPOLLOUT :: u32 where "EPOLLOUT = 0x4"
definition EPOLLHUP :: u32 where "EPOLLHUP = 0x10"
definition EPOLLRDHUP :: u32 where "EPOLLRDHUP = 0x2000"
definition EPOLLET :: u32 where "EPOLLET = 0x80000000"

definition BUF_SIZE :: nat where "BUF_SIZE = 256"
definition MAX_EVENTS :: nat where "MAX_EVENTS = 32"

definition has_any :: "u32 \<Rightarrow> u32 \<Rightarrow> bool" where
  "has_any ev m \<longleftrightarrow> and ev m \<noteq> 0"

abbreviation hangup :: "u32 \<Rightarrow> bool" where
  "hangup ev \<equiv> has_any ev (or EPOLLRDHUP EPOLLHUP)"

section \<open>State\<close>

datatype srv_event =
    Print string
  | PrintInt string int
  | ReadError string
  | Connected string u16
  | Data bytes
  | Wrote int bytes
  | CloseFd int
  | MemRecv u64
  | SessionSend

text \<open>
  \<open>interest\<close> is the interest list of the epoll object: the registered descriptors with the event mask
  and the data word. \<open>ep_open\<close> says that the object exists: closing \<open>epfd\<close> destroys it. \<open>conn_sock\<close> is not initialised before the first connection.
\<close>

record srv =
  opened :: "int list"
  interest :: "(int \<times> u32 \<times> int) list"
  ep_open :: bool
  listen_sock :: int
  epfd :: int
  conn_sock :: "int option"
  srv_out :: "srv_event list"

definition emit :: "srv_event \<Rightarrow> 'a srv_scheme \<Rightarrow> 'a srv_scheme" where
  "emit e s = s\<lparr>srv_out := srv_out s @ [e]\<rparr>"

definition ctl_add :: "int \<Rightarrow> u32 \<Rightarrow> int \<Rightarrow> 'a srv_scheme \<Rightarrow> 'a srv_scheme" where
  "ctl_add fd ev data s = s\<lparr>interest := (fd, ev, data) # interest s\<rparr>"

definition ctl_del :: "int \<Rightarrow> 'a srv_scheme \<Rightarrow> 'a srv_scheme" where
  "ctl_del fd s = s\<lparr>interest := filter (\<lambda>r. fst r \<noteq> fd) (interest s)\<rparr>"

definition close_fd :: "int \<Rightarrow> 'a srv_scheme \<Rightarrow> 'a srv_scheme" where
  "close_fd fd s = emit (CloseFd fd)
     (s\<lparr>opened := removeAll fd (opened s), interest := filter (\<lambda>r. fst r \<noteq> fd) (interest s),
        ep_open := (ep_open s \<and> fd \<noteq> epfd s)\<rparr>)"

definition open_fd :: "int \<Rightarrow> 'a srv_scheme \<Rightarrow> 'a srv_scheme" where
  "open_fd fd s = (if fd < 0 then s else s\<lparr>opened := fd # opened s\<rparr>)"

named_theorems srv_simps \<open>what the primitive operations of the loop change\<close>

lemma emit_fields [simp, srv_simps]:
  "opened (emit e s) = opened s" "interest (emit e s) = interest s"
  "listen_sock (emit e s) = listen_sock s" "epfd (emit e s) = epfd s"
  "conn_sock (emit e s) = conn_sock s" "srv_out (emit e s) = srv_out s @ [e]"
  "ep_open (emit e s) = ep_open s" "srv.more (emit e s) = srv.more s"
  by (simp_all add: emit_def)

lemma ctl_add_fields [simp, srv_simps]:
  "opened (ctl_add fd ev d s) = opened s" "interest (ctl_add fd ev d s) = (fd, ev, d) # interest s"
  "listen_sock (ctl_add fd ev d s) = listen_sock s" "epfd (ctl_add fd ev d s) = epfd s"
  "conn_sock (ctl_add fd ev d s) = conn_sock s" "srv_out (ctl_add fd ev d s) = srv_out s"
  "ep_open (ctl_add fd ev d s) = ep_open s" "srv.more (ctl_add fd ev d s) = srv.more s"
  by (simp_all add: ctl_add_def)

lemma ctl_del_fields [simp, srv_simps]:
  "opened (ctl_del fd s) = opened s" "interest (ctl_del fd s) = filter (\<lambda>r. fst r \<noteq> fd) (interest s)"
  "listen_sock (ctl_del fd s) = listen_sock s" "epfd (ctl_del fd s) = epfd s"
  "conn_sock (ctl_del fd s) = conn_sock s" "srv_out (ctl_del fd s) = srv_out s"
  "ep_open (ctl_del fd s) = ep_open s" "srv.more (ctl_del fd s) = srv.more s"
  by (simp_all add: ctl_del_def)

lemma close_fd_fields [simp, srv_simps]:
  "opened (close_fd fd s) = removeAll fd (opened s)"
  "interest (close_fd fd s) = filter (\<lambda>r. fst r \<noteq> fd) (interest s)"
  "listen_sock (close_fd fd s) = listen_sock s" "epfd (close_fd fd s) = epfd s"
  "conn_sock (close_fd fd s) = conn_sock s" "srv_out (close_fd fd s) = srv_out s @ [CloseFd fd]"
  "ep_open (close_fd fd s) = (ep_open s \<and> fd \<noteq> epfd s)" "srv.more (close_fd fd s) = srv.more s"
  by (simp_all add: close_fd_def)

lemma open_fd_fields [simp, srv_simps]:
  "opened (open_fd fd s) = (if fd < 0 then opened s else fd # opened s)"
  "interest (open_fd fd s) = interest s"
  "listen_sock (open_fd fd s) = listen_sock s" "epfd (open_fd fd s) = epfd s"
  "conn_sock (open_fd fd s) = conn_sock s" "srv_out (open_fd fd s) = srv_out s"
  "ep_open (open_fd fd s) = ep_open s" "srv.more (open_fd fd s) = srv.more s"
  by (simp_all add: open_fd_def)

section \<open>The kernel's answers\<close>

text \<open>One accepted connection: the results of \<open>accept\<close>, \<open>fcntl\<close>, \<open>inet_ntop\<close> and \<open>epoll_ctl\<close>.\<close>

record conn_in =
  a_fd :: int
  a_fcntl :: int
  a_addr :: string
  a_port :: u16
  a_ctl :: int

text \<open>One round of a read loop: an error, the end of the stream, or data with the result of the
  write that follows it.\<close>

datatype rw = RdErr int | RdEof | RdData bytes int

record ev_in =
  ev_mask :: u32
  ev_data :: int
  ev_accept :: conn_in
  ev_reads :: "rw list"

definition rw_ok :: "rw \<Rightarrow> bool" where
  "rw_ok r \<longleftrightarrow> (case r of RdData d w \<Rightarrow> 0 < length d \<and> length d \<le> BUF_SIZE \<and> w \<le> int (length d) | _ \<Rightarrow> True)"

text \<open>
  \<open>epoll_wait\<close> reports at most \<open>MAX_EVENTS\<close> registered descriptors, with their registered data word,
  and fails once the epoll object is gone. The loop does not depend on more of the kernel.
\<close>

definition wait_ok :: "'a srv_scheme \<Rightarrow> int \<Rightarrow> ev_in list \<Rightarrow> bool" where
  "wait_ok s nfds evs \<longleftrightarrow>
     (\<not> ep_open s \<longrightarrow> nfds = - 1) \<and>
     nfds \<le> int MAX_EVENTS \<and> length evs = nat nfds \<and>
     (\<forall>e\<in>set evs. ev_data e \<in> (\<lambda>r. snd (snd r)) ` set (interest s) \<and> list_all rw_ok (ev_reads e))"

section \<open>Read errors\<close>

definition read_errors :: "(int \<times> string) list" where
  "read_errors = [(11, ''EAGAIN''), (9, ''EBADF''), (14, ''EFAULT''), (4, ''EINTR''), (22, ''EINVAL''), (5, ''EIO'')]"

definition printReadError :: "(int \<Rightarrow> string) \<Rightarrow> int \<Rightarrow> string" where
  "printReadError strerror err =
     (let sError = (case map_of read_errors err of Some n \<Rightarrow> n | None \<Rightarrow> ''UNKNOWN_ERROR'')
      in ''read error, '' @ sError @ '' '' @ strerror err)"

text \<open>Printing a \<open>char\<close> array reads up to its terminating zero.\<close>

definition print_buf :: "bytes \<Rightarrow> bytes cexec" where
  "print_buf b = (if 0 \<in> set b then Inr (takeWhile (\<lambda>x. x \<noteq> 0) b) else Inl OutOfBounds)"

section \<open>The loop over a batch of events\<close>

fun for_events :: "('e \<Rightarrow> 's \<Rightarrow> 's ctl) \<Rightarrow> 'e list \<Rightarrow> 's \<Rightarrow> 's ctl" where
  "for_events handle [] s = Next s"
| "for_events handle (e # es) s = andthen (handle e s) (for_events handle es)"

lemma for_events_append: "for_events handle (es @ fs) = (\<lambda>s. andthen (for_events handle es s) (for_events handle fs))"
proof
  show "for_events handle (es @ fs) s = andthen (for_events handle es s) (for_events handle fs)" for s
  proof (induction es arbitrary: s)
    case (Cons e es)
    then show ?case by (cases "handle e s") auto
  qed simp
qed

text \<open>\<open>P\<close> holds where the computation ends, goes on or blocks, and only the undefined behaviour \<open>U\<close> is met.\<close>

definition ctl_inv :: "('s \<Rightarrow> bool) \<Rightarrow> (ub \<Rightarrow> bool) \<Rightarrow> 's ctl \<Rightarrow> bool" where
  "ctl_inv P U m \<longleftrightarrow> ctl_all P m \<and> (\<forall>u. m = Undef u \<longrightarrow> U u)"

lemma ctl_inv_simps [simp]:
  "ctl_inv P U (Next s) = P s" "ctl_inv P U (Stop r s) = P s"
  "ctl_inv P U (Stuck s) = P s" "ctl_inv P U (Undef u) = U u"
  by (simp_all add: ctl_inv_def)

lemma ctl_inv_conj: "ctl_inv (\<lambda>t. P t \<and> Q t) U m \<longleftrightarrow> ctl_inv P U m \<and> ctl_inv Q U m"
  by (cases m) auto

lemma ctl_inv_mono: "ctl_inv P U m \<Longrightarrow> (\<And>s. P s \<Longrightarrow> Q s) \<Longrightarrow> ctl_inv Q U m"
  by (cases m) auto

lemma ctl_inv_bind:
  assumes "ctl_inv (\<lambda>x. Q x \<and> P (g x)) U m" "\<And>x. m = Next x \<Longrightarrow> Q x \<Longrightarrow> ctl_inv P U (f x)"
  shows "ctl_inv P U (ctl_bind m f g)"
  using assms by (cases m) auto

text \<open>
  The contract of an event handler: it keeps an invariant of the state on the events it can be given,
  and what an event is checked against stays true along the batch (\<open>keeps\<close>). The loop over a batch then
  keeps both.
\<close>

locale event_loop =
  fixes handle :: "'e \<Rightarrow> 's \<Rightarrow> 's ctl"
    and inv :: "'s \<Rightarrow> bool"
    and keeps :: "'s \<Rightarrow> 's \<Rightarrow> bool"
    and ev_ok :: "'s \<Rightarrow> 'e \<Rightarrow> bool"
    and U :: "ub \<Rightarrow> bool"
  assumes handle_inv: "inv s \<Longrightarrow> ev_ok s e \<Longrightarrow> ctl_inv (\<lambda>t. inv t \<and> keeps s t) U (handle e s)"
    and keeps_refl: "keeps s s"
    and keeps_trans: "keeps s t \<Longrightarrow> keeps t v \<Longrightarrow> keeps s v"
    and ev_ok_keeps: "ev_ok s e \<Longrightarrow> keeps s t \<Longrightarrow> ev_ok t e"
begin

lemma for_events_inv:
  "inv s \<Longrightarrow> \<forall>e\<in>set es. ev_ok s e \<Longrightarrow> ctl_inv (\<lambda>t. inv t \<and> keeps s t) U (for_events handle es s)"
proof (induction es arbitrary: s)
  case (Cons e es)
  then have h: "ctl_inv (\<lambda>t. inv t \<and> keeps s t) U (handle e s)" by (simp add: handle_inv)
  have "ctl_inv (\<lambda>v. inv v \<and> keeps s v) U (for_events handle es t)" if "inv t" "keeps s t" for t
  proof (rule ctl_inv_mono)
    show "ctl_inv (\<lambda>v. inv v \<and> keeps t v) U (for_events handle es t)"
      using that Cons.prems(2) by (intro Cons.IH) (auto intro: ev_ok_keeps)
    show "inv v \<and> keeps s v" if "inv v \<and> keeps t v" for v
      using that \<open>keeps s t\<close> keeps_trans by blast
  qed
  then show ?case
    using h by (auto intro!: ctl_inv_bind [where Q = "\<lambda>t. inv t \<and> keeps s t"])
qed (simp add: keeps_refl)

end

end
