(* ===== verification/Dns.thy ===== *)
theory Dns
  imports Epoll_Kernel
begin

text \<open>
  The name lookups of \<open>sockets/dns_lookup\<close>: the printing of address lists (\<open>utils.h\<close>), the blocking
  lookup (\<open>dns.cc\<close>) and the three asynchronous ones of \<open>posix_async\<close>, which poll the request, wait
  for a signal, and get a call on another thread. The resolver is a parameter: what
  \<open>getaddrinfo\<close> and \<open>getaddrinfo_a\<close> answer, and when, are arguments. The request of
  the threaded lookup is on the heap and the model keeps whether it has been freed.
\<close>

section \<open>Address lists\<close>

record sockaddr_in =
  sin_family :: "nat slot"
  sin_addr :: "u32 slot"

record addrinfo =
  ai_flags :: int
  ai_family :: int
  ai_socktype :: int
  ai_protocol :: int
  ai_addrlen :: nat
  ai_addr :: "sockaddr_in option"
  ai_canonname :: "string option"

text \<open>
  A list linked by \<open>ai_next\<close> is a list of its nodes, the null pointer the empty one. Text on
  standard output is the list of its lines.
\<close>

definition INET_FAMILY :: nat where "INET_FAMILY = 2"
definition SOCK_STREAM :: int where "SOCK_STREAM = 1"

definition inet_ntoa :: "u32 \<Rightarrow> string" where
  "inet_ntoa a = (let b = map (\<lambda>x. dec_string (unat x)) (store32 a)
                  in b ! 0 @ ''.'' @ b ! 1 @ ''.'' @ b ! 2 @ ''.'' @ b ! 3)"

definition addr_header :: string where "addr_header = ''***** struct addrinfo *******''"
definition addr_rule :: string where "addr_rule = ''*****************************''"

definition addr_block :: "addrinfo \<Rightarrow> string list cexec" where
  "addr_block info =
     (case ai_addr info of
        None \<Rightarrow> Inl NullPointer
      | Some sa \<Rightarrow>
          cbind (rd_slot (sin_family sa)) (\<lambda>fam.
          cbind (if fam = INET_FAMILY
                 then cbind (rd_slot (sin_addr sa)) (\<lambda>a. Inr (''ip address '' @ inet_ntoa a))
                 else Inr ''not AF_INET!'') (\<lambda>l.
          Inr [addr_header,
               ''ai_family '' @ show_int (ai_family info),
               ''ai_socktype '' @ show_int (ai_socktype info),
               ''ai_protocol '' @ show_int (ai_protocol info),
               ''ai_flags '' @ show_int (ai_flags info),
               ''ai_addrlen '' @ dec_string (ai_addrlen info),
               ''ai_canonname '' @ (case ai_canonname info of None \<Rightarrow> ''0'' | Some n \<Rightarrow> n),
               l, addr_rule])))"

fun printAddrInfo :: "addrinfo list \<Rightarrow> string list \<Rightarrow> string list cexec" where
  "printAddrInfo [] t = Inl NullPointer"
| "printAddrInfo (info # nxt) t =
     cbind (addr_block info) (\<lambda>b.
     if nxt \<noteq> [] then printAddrInfo nxt (t @ b @ [addr_rule]) else Inr (t @ b))"

text \<open>The loop the signal and the thread versions put around it.\<close>

fun print_each :: "addrinfo list \<Rightarrow> string list \<Rightarrow> string list cexec" where
  "print_each [] t = Inr t"
| "print_each (p # ps) t = cbind (printAddrInfo (p # ps) t) (print_each ps)"

definition getHostFromArg :: "nat \<Rightarrow> string list \<Rightarrow> string" where
  "getHostFromArg index argv = (if index < length argv then argv ! index else ''google.com'')"

section \<open>The blocking lookup\<close>

text \<open>
  \<open>malloc\<close> leaves the family and the address unset and \<open>inet_aton\<close> stores an address only when the
  text is one.
\<close>

definition ip2AddrInfo :: "(string \<Rightarrow> u32 option) \<Rightarrow> string \<Rightarrow> string list \<Rightarrow> (addrinfo \<times> string list) cexec" where
  "ip2AddrInfo inet_aton ip t =
     (let sa = \<lparr>sin_family = Uninit, sin_addr = (case inet_aton ip of Some a \<Rightarrow> Val a | None \<Rightarrow> Uninit)\<rparr>;
          addr = \<lparr>ai_flags = 0, ai_family = int INET_FAMILY, ai_socktype = SOCK_STREAM, ai_protocol = 6,
                  ai_addrlen = length ip, ai_addr = Some sa, ai_canonname = None\<rparr>
      in cbind (rd_slot (sin_addr sa)) (\<lambda>a. Inr (addr, t @ [''ip address '' @ inet_ntoa a])))"

fun dns_print :: "(sockaddr_in option \<Rightarrow> nat \<Rightarrow> string option) \<Rightarrow> addrinfo list \<Rightarrow> string list \<Rightarrow> string list cexec" where
  "dns_print getnameinfo [] t = Inr t"
| "dns_print getnameinfo (p # ps) t =
     (let host = (case getnameinfo (ai_addr p) (ai_addrlen p) of Some h \<Rightarrow> Val h | None \<Rightarrow> Uninit)
      in cbind (rd_slot host) (\<lambda>h. dns_print getnameinfo ps (t @ [''resolved ip: '' @ h])))"

record dns_exit =
  code :: int
  stdout :: "string list"
  stderr :: "string list"
  released :: bool

definition dns_main ::
  "(int \<times> addrinfo list) \<Rightarrow> (int \<Rightarrow> string) \<Rightarrow> (sockaddr_in option \<Rightarrow> nat \<Rightarrow> string option) \<Rightarrow> dns_exit cexec" where
  "dns_main getaddrinfo gai_strerror getnameinfo =
     (let (rv, servinfo) = getaddrinfo in
      if rv \<noteq> 0
      then Inr \<lparr>code = 1, stdout = [], stderr = [''getaddrinfo: '' @ gai_strerror rv], released = False\<rparr>
      else cbind (dns_print getnameinfo servinfo []) (\<lambda>t.
        Inr \<lparr>code = 0, stdout = t, stderr = [], released = True\<rparr>))"

section \<open>The polling lookup\<close>

definition EAI_AGAIN :: int where "EAI_AGAIN = - 3"
definition EAI_MEMORY :: int where "EAI_MEMORY = - 10"
definition EAI_SYSTEM :: int where "EAI_SYSTEM = - 11"
definition EAI_INPROGRESS :: int where "EAI_INPROGRESS = - 100"
definition EAI_ALLDONE :: int where "EAI_ALLDONE = - 103"
definition EAI_INTR :: int where "EAI_INTR = - 104"

text \<open>\<open>gai_error n\<close> is the answer to the \<open>n\<close>-th call; the loop ends only when one is not \<open>EAI_INPROGRESS\<close>.\<close>

definition poll_round :: "(nat \<Rightarrow> int) \<Rightarrow> nat \<Rightarrow> unit \<Rightarrow> unit + int" where
  "poll_round gai_error n u = (let ret = gai_error n in if ret = EAI_INPROGRESS then Inl () else Inr ret)"

definition poll_loop :: "(nat \<Rightarrow> int) \<Rightarrow> int option" where
  "poll_loop gai_error = loop_from (poll_round gai_error) 0 ()"

definition async_main ::
  "int \<Rightarrow> (nat \<Rightarrow> int) \<Rightarrow> addrinfo list \<Rightarrow> (int \<Rightarrow> string) \<Rightarrow> dns_exit cexec option" where
  "async_main getaddrinfo_a gai_error ar_result gai_strerror =
     (if getaddrinfo_a \<noteq> 0
      then Some (Inr \<lparr>code = 1, stdout = [],
             stderr = [''Error starting DNS resolution: '' @ gai_strerror getaddrinfo_a], released = False\<rparr>)
      else case poll_loop gai_error of
        None \<Rightarrow> None
      | Some ret \<Rightarrow> Some
          (if ret = 0
           then cbind (printAddrInfo ar_result []) (\<lambda>t. Inr \<lparr>code = 0, stdout = t, stderr = [], released = False\<rparr>)
           else Inr \<lparr>code = 0, stdout = [], stderr = [''Error resolving DNS: '' @ gai_strerror ret], released = False\<rparr>))"

section \<open>The lookup that waits for a signal\<close>

text \<open>
  \<open>ar_result\<close> starts as the address of a local variable that is never written; the library
  replaces it when it has a list.
\<close>

datatype ai_ptr = Servinfo | Chain "addrinfo list"

fun print_result :: "ai_ptr \<Rightarrow> string list \<Rightarrow> string list cexec" where
  "print_result Servinfo t = Inl Uninitialised"
| "print_result (Chain ps) t = print_each ps t"

record sig_env =
  se_signalfd :: int
  se_epoll_create :: int
  se_epoll_ctl :: int
  se_getaddrinfo_a :: int
  se_gai_error :: int
  se_wait :: "int \<times> int list"
  se_read :: "nat \<Rightarrow> int \<times> int"
  se_perror :: string
  se_result :: ai_ptr

definition signalfd_setup :: "sig_env \<Rightarrow> string list \<Rightarrow> (int \<times> int) \<times> string list" where
  "signalfd_setup k t =
     (let sfd = se_signalfd k; t1 = t @ [''Setup signalfd '' @ show_int sfd] in
      if se_epoll_ctl k = - 1 then ((- 1, sfd), t1 @ [''failed initial epoll_ctl''])
      else ((se_epoll_create k, sfd), t1))"

text \<open>One event; \<open>se_read n\<close> is the result of the \<open>n\<close>-th read and the signal number it stored.\<close>

record sig_state =
  reads :: nat
  sout :: "string list"
  serr :: "string list"

definition sig_event :: "sig_env \<Rightarrow> int \<Rightarrow> int \<Rightarrow> int \<Rightarrow> sig_state \<Rightarrow> sig_state cexec" where
  "sig_event k signal sfd fd s =
     (let s1 = s\<lparr>sout := sout s @ [''Reading file descriptor '' @ show_int fd]\<rparr> in
      if fd = sfd then
        let (n, signo) = se_read k (reads s1); s2 = s1\<lparr>reads := reads s1 + 1\<rparr> in
        if n > 0 then
          if signo = signal
          then cbind (print_result (se_result k) (sout s2 @ [''Got signal from getaddrinfo_a''])) (\<lambda>t.
                 Inr (s2\<lparr>sout := t\<rparr>))
          else Inr s2
        else Inr (s2\<lparr>serr := serr s2 @ [''Error :: '' @ se_perror k]\<rparr>)
      else Inr s1)"

fun sig_events :: "sig_env \<Rightarrow> int \<Rightarrow> int \<Rightarrow> int list \<Rightarrow> sig_state \<Rightarrow> sig_state cexec" where
  "sig_events k signal sfd [] s = Inr s"
| "sig_events k signal sfd (fd # fds) s = cbind (sig_event k signal sfd fd s) (sig_events k signal sfd fds)"

definition sig_main :: "sig_env \<Rightarrow> int \<Rightarrow> string list \<Rightarrow> dns_exit cexec" where
  "sig_main k signal argv =
     (let host = getHostFromArg 1 argv; t0 = [''Resolving '' @ host];
          ((efd, sfd), t1) = signalfd_setup k t0;
          failed = (\<lambda>t. Inr \<lparr>code = - 1, stdout = t, stderr = [], released = False\<rparr>)
      in if efd = - 1 \<or> sfd = - 1 then failed t1
         else
           let rv = se_getaddrinfo_a k in
           if rv = EAI_AGAIN then failed (t1 @ [''getaddrinfo_a failed! '' @ show_int (se_gai_error k)])
           else if rv = EAI_MEMORY then failed (t1 @ [''getaddrinfo_a failed! Out of Memory''])
           else if rv = EAI_SYSTEM then failed (t1 @ [''getaddrinfo_a failed! EAI_SYSTEM''])
           else
             let (nfds, fds) = se_wait k; t2 = t1 @ [''Got nfds '' @ show_int nfds] in
             cbind (sig_events k signal sfd (take (nat nfds) fds) \<lparr>reads = 0, sout = t2, serr = []\<rparr>) (\<lambda>s.
               Inr \<lparr>code = 0, stdout = sout s, stderr = serr s, released = True\<rparr>))"

section \<open>The lookup that is told on another thread\<close>

text \<open>
  Two threads of control share the request: \<open>main\<close>, which starts the lookup, waits at most the
  timeout and frees the request, and the library, which resolves the name, stores the result in
  the request and then calls \<open>dnsCallback\<close> with it. A schedule is the sequence of their steps; a step
  that is not enabled has no result. \<open>gai_suspend\<close> answers 0 only when the request has been
  processed and \<open>EAI_ALLDONE\<close> only when none is pending. The time limit is passed with its nanoseconds unset.
\<close>

datatype dns_label =
    StartLookup int int
  | Resolve "addrinfo list option"
  | NotifyThread
  | SuspendReturns int
  | FreeRequests
  | ExitMain

datatype main_pc = AtStart | InSuspend | BeforeFree | AfterFree | Exited int
datatype lib_pc = NoRequest | Resolving | Resolved | Notified

record timespec =
  tv_sec :: "int slot"
  tv_nsec :: "int slot"

definition suspend_limit :: timespec where
  "suspend_limit = \<lparr>tv_sec = Val 15, tv_nsec = Uninit\<rparr>"

record dns_thread =
  main_at :: main_pc
  lib_at :: lib_pc
  request :: "ai_ptr option"
  dns_out :: "string list"

definition dns_thread_init :: "string list \<Rightarrow> dns_thread" where
  "dns_thread_init argv =
     \<lparr>main_at = AtStart, lib_at = NoRequest, request = Some Servinfo,
      dns_out = [''Resolving '' @ getHostFromArg 1 argv]\<rparr>"

text \<open>The argument is the request behind \<open>sival_ptr\<close>, \<open>None\<close> when it has been freed.\<close>

definition dnsCallback :: "ai_ptr option \<Rightarrow> string list \<Rightarrow> string list cexec" where
  "dnsCallback resp t =
     (case resp of
        None \<Rightarrow> Inl UseAfterFree
      | Some r \<Rightarrow> cbind (print_result r (t @ [''****Hit dnsCallback''])) (\<lambda>t1.
          Inr (t1 @ [''******************'', []])))"

definition start_lookup :: "int \<Rightarrow> int \<Rightarrow> dns_thread \<Rightarrow> dns_thread" where
  "start_lookup rv gai_error s =
     (let failed = (\<lambda>m. s\<lparr>main_at := Exited (- 1), dns_out := dns_out s @ [m]\<rparr>) in
      if rv = EAI_AGAIN then failed (''getaddrinfo_a failed! '' @ show_int gai_error)
      else if rv = EAI_MEMORY then failed ''getaddrinfo_a failed! Out of Memory''
      else if rv = EAI_SYSTEM then failed ''getaddrinfo_a failed! EAI_SYSTEM''
      else s\<lparr>main_at := InSuspend, lib_at := (if rv = 0 then Resolving else NoRequest)\<rparr>)"

definition suspend_message :: "int \<Rightarrow> string list" where
  "suspend_message rv =
     (if rv = EAI_AGAIN then [''gai_suspend timeout '']
      else if rv = EAI_ALLDONE then [''gai_suspend no requests pending'']
      else if rv = EAI_INTR then [''gai_suspend interupt'']
      else [])"

fun exited :: "main_pc \<Rightarrow> bool" where
  "exited (Exited c) = True"
| "exited _ = False"

fun dns_step :: "dns_label \<Rightarrow> dns_thread \<Rightarrow> dns_thread cexec option" where
  "dns_step (StartLookup rv err) s = (if main_at s = AtStart then Some (Inr (start_lookup rv err s)) else None)"
| "dns_step (Resolve res) s =
     (if lib_at s = Resolving \<and> \<not> exited (main_at s)
      then Some (case request s of
             None \<Rightarrow> Inl UseAfterFree
           | Some old \<Rightarrow> Inr (s\<lparr>lib_at := Resolved,
                                request := Some (case res of Some as \<Rightarrow> Chain as | None \<Rightarrow> old)\<rparr>))
      else None)"
| "dns_step NotifyThread s =
     (if lib_at s = Resolved \<and> \<not> exited (main_at s)
      then Some (cbind (dnsCallback (request s) (dns_out s)) (\<lambda>t. Inr (s\<lparr>lib_at := Notified, dns_out := t\<rparr>)))
      else None)"
| "dns_step (SuspendReturns rv) s =
     (if main_at s = InSuspend \<and> (rv = 0 \<longrightarrow> lib_at s \<in> {Resolved, Notified}) \<and> (rv = EAI_ALLDONE \<longrightarrow> lib_at s \<noteq> Resolving)
      then Some (Inr (s\<lparr>main_at := BeforeFree, dns_out := dns_out s @ suspend_message rv\<rparr>)) else None)"
| "dns_step FreeRequests s =
     (if main_at s = BeforeFree then Some (Inr (s\<lparr>main_at := AfterFree, request := None\<rparr>)) else None)"
| "dns_step ExitMain s =
     (if main_at s = AfterFree then Some (Inr (s\<lparr>main_at := Exited 0\<rparr>)) else None)"

section \<open>What is printed\<close>

definition addr_ip :: "addrinfo \<Rightarrow> string option" where
  "addr_ip info =
     (case ai_addr info of
        Some sa \<Rightarrow> (case (sin_family sa, sin_addr sa) of
          (Val f, Val a) \<Rightarrow> if f = INET_FAMILY then Some (inet_ntoa a) else None
        | _ \<Rightarrow> None)
      | None \<Rightarrow> None)"

definition addr_ok :: "addrinfo \<Rightarrow> bool" where
  "addr_ok info \<longleftrightarrow>
     (case ai_addr info of
        None \<Rightarrow> False
      | Some sa \<Rightarrow> (case sin_family sa of Uninit \<Rightarrow> False | Val f \<Rightarrow> f = INET_FAMILY \<longrightarrow> sin_addr sa \<noteq> Uninit))"

definition addr_text :: "addrinfo \<Rightarrow> string list" where
  "addr_text info = (case addr_block info of Inr b \<Rightarrow> b | Inl e \<Rightarrow> [])"

definition ip_line :: "addrinfo \<Rightarrow> string" where
  "ip_line info = (case addr_ip info of Some x \<Rightarrow> ''ip address '' @ x | None \<Rightarrow> ''not AF_INET!'')"

lemma addr_block_lines:
  assumes "addr_ok info"
  shows "addr_block info = Inr [addr_header,
               ''ai_family '' @ show_int (ai_family info),
               ''ai_socktype '' @ show_int (ai_socktype info),
               ''ai_protocol '' @ show_int (ai_protocol info),
               ''ai_flags '' @ show_int (ai_flags info),
               ''ai_addrlen '' @ dec_string (ai_addrlen info),
               ''ai_canonname '' @ (case ai_canonname info of None \<Rightarrow> ''0'' | Some n \<Rightarrow> n),
               ip_line info, addr_rule]"
proof -
  from assms obtain sa f where sa: "ai_addr info = Some sa" "sin_family sa = Val f"
    "f = INET_FAMILY \<longrightarrow> sin_addr sa \<noteq> Uninit"
    by (auto simp: addr_ok_def split: option.splits slot.splits)
  then show ?thesis
    by (cases "sin_addr sa") (simp_all add: addr_block_def ip_line_def addr_ip_def)
qed

lemma addr_block_ok: "addr_ok info \<Longrightarrow> addr_block info = Inr (addr_text info)"
  by (simp add: addr_text_def addr_block_lines)

lemma line_not_rule [simp]: "addr_header \<noteq> addr_rule" "''ip address '' @ x \<noteq> addr_rule"
  by (simp_all add: addr_header_def addr_rule_def)

lemma addr_text_header: "addr_ok info \<Longrightarrow> count_list (addr_text info) addr_header = 1"
  by (simp add: addr_text_def addr_block_lines ip_line_def addr_header_def addr_rule_def split: option.splits)

lemma addr_text_ip:
  "addr_ok info \<Longrightarrow> count_list (addr_text info) (''ip address '' @ x) = (if addr_ip info = Some x then 1 else 0)"
  by (simp add: addr_text_def addr_block_lines ip_line_def addr_header_def addr_rule_def split: option.splits)

fun chain_text :: "addrinfo list \<Rightarrow> string list" where
  "chain_text [] = []"
| "chain_text (a # as) = addr_text a @ (if as \<noteq> [] then addr_rule # chain_text as else [])"

lemma printAddrInfo_ok:
  "as \<noteq> [] \<Longrightarrow> list_all addr_ok as \<Longrightarrow> printAddrInfo as t = Inr (t @ chain_text as)"
  by (induction as t rule: printAddrInfo.induct) (auto simp: addr_block_ok)

lemma count_chain_text:
  "l \<noteq> addr_rule \<Longrightarrow> count_list (chain_text as) l = (\<Sum>a\<leftarrow>as. count_list (addr_text a) l)"
  by (induction as) (auto simp: count_list_append)

fun each_text :: "addrinfo list \<Rightarrow> string list" where
  "each_text [] = []"
| "each_text (a # as) = chain_text (a # as) @ each_text as"

lemma print_each_ok: "list_all addr_ok as \<Longrightarrow> print_each as t = Inr (t @ each_text as)"
  by (induction as arbitrary: t) (simp_all add: printAddrInfo_ok del: printAddrInfo.simps chain_text.simps)

lemma sum_Suc_shift_weighted:
  fixes f :: "'a \<Rightarrow> nat"
  shows "(\<Sum>x\<leftarrow>a # as. f x) + (\<Sum>i<length as. (i + 1) * f (as ! i))
    = (\<Sum>i<length (a # as). (i + 1) * f ((a # as) ! i))"
proof -
  have "(\<Sum>x\<leftarrow>as. f x) = (\<Sum>i<length as. f (as ! i))"
    by (simp add: sum_list_sum_nth atLeast0LessThan)
  then show ?thesis
    by (simp add: sum.lessThan_Suc_shift sum.distrib algebra_simps del: sum.lessThan_Suc)
qed

lemma count_each_text:
  "l \<noteq> addr_rule \<Longrightarrow>
   count_list (each_text as) l = (\<Sum>i<length as. (i + 1) * count_list (addr_text (as ! i)) l)"
proof (induction as)
  case (Cons a as)
  then have "count_list (each_text (a # as)) l =
      (\<Sum>x\<leftarrow>a # as. count_list (addr_text x) l) + (\<Sum>i<length as. (i + 1) * count_list (addr_text (as ! i)) l)"
    by (simp add: count_list_append count_chain_text del: chain_text.simps)
  also note sum_Suc_shift_weighted
  finally show ?case .
qed simp

text \<open>Over a list of addresses whose fields are set, one call of \<open>printAddrInfo\<close> prints each address
  once; the loop the asynchronous lookups put around it prints the address at
  position \<open>i\<close> \<open>i + 1\<close> times, so a list of \<open>n\<close> addresses gives \<open>n * (n + 1) div 2\<close> blocks.
\<close>

theorem print_each_counts:
  assumes "list_all addr_ok as"
  shows "(\<exists>t. print_each as [] = Inr t \<and>
      count_list t addr_header = length as * (length as + 1) div 2 \<and>
      (\<forall>ip. count_list t (''ip address '' @ ip) = (\<Sum>i<length as. if addr_ip (as ! i) = Some ip then i + 1 else 0))) \<and>
    (as \<noteq> [] \<longrightarrow> (\<exists>t. printAddrInfo as [] = Inr t \<and> count_list t addr_header = length as))"
proof -
  have ok: "addr_ok (as ! i)" if "i < length as" for i using assms that by (simp add: list_all_length)
  have gauss: "(\<Sum>i<n. i + 1) = n * (n + 1) div 2" for n :: nat by (induction n) auto
  have "(\<Sum>i<length as. (i + 1) * count_list (addr_text (as ! i)) addr_header) = (\<Sum>i<length as. i + 1)"
    by (rule sum.cong) (simp_all add: addr_text_header ok)
  then have 1: "count_list (each_text as) addr_header = length as * (length as + 1) div 2"
    by (simp only: count_each_text [OF line_not_rule(1)] gauss)
  have 2: "count_list (each_text as) (''ip address '' @ ip) =
      (\<Sum>i<length as. if addr_ip (as ! i) = Some ip then i + 1 else 0)" for ip
    unfolding count_each_text [OF line_not_rule(2)]
    by (rule sum.cong) (simp_all only: addr_text_ip [OF ok] lessThan_iff, simp)
  have 3: "count_list (chain_text as) addr_header = length as"
    unfolding count_chain_text [OF line_not_rule(1)]
    using assms by (induction as) (simp_all add: addr_text_header)
  show ?thesis
    using print_each_ok [OF assms, of "[]"] printAddrInfo_ok [OF _ assms, of "[]"] 1 2 3 by simp
qed

definition demo_addr :: "u32 \<Rightarrow> addrinfo" where
  "demo_addr a = \<lparr>ai_flags = 0, ai_family = 2, ai_socktype = 1, ai_protocol = 6, ai_addrlen = 16,
     ai_addr = Some \<lparr>sin_family = Val INET_FAMILY, sin_addr = Val a\<rparr>, ai_canonname = None\<rparr>"

lemma demo_addr_ok [simp]: "addr_ok (demo_addr a)" "addr_ip (demo_addr a) = Some (inet_ntoa a)"
  by (simp_all add: addr_ok_def addr_ip_def demo_addr_def)

theorem print_each_counts_witness:
  "\<exists>t. print_each [demo_addr 1, demo_addr 2, demo_addr 2] [] = Inr t \<and> count_list t addr_header = 6"
  using print_each_counts [of "[demo_addr 1, demo_addr 2, demo_addr 2]"] by auto

section \<open>The polling loop\<close>

lemma keeps_on_poll:
  "keeps_on (poll_round gai_error) n k u = (if \<forall>i<k. gai_error (n + i) = EAI_INPROGRESS then Some () else None)"
proof (induction k arbitrary: n u)
  case (Suc k)
  then show ?case by (simp add: poll_round_def Let_def All_less_Suc2)
qed simp

lemma poll_loop_stops:
  "\<forall>i<n. gai_error i = EAI_INPROGRESS \<Longrightarrow> gai_error n \<noteq> EAI_INPROGRESS \<Longrightarrow> poll_loop gai_error = Some (gai_error n)"
  unfolding poll_loop_def
  by (rule loop_from_returns [of _ 0 n _ "()"]) (simp_all add: keeps_on_poll poll_round_def)

lemma poll_loop_None: "poll_loop gai_error = None \<longleftrightarrow> (\<forall>n. gai_error n = EAI_INPROGRESS)"
  by (auto simp: poll_loop_def loop_from_None keeps_on_poll)

text \<open>C34. The polling lookup returns exactly when the start is refused or some poll answers something else
  than in progress. It then acts on the first such answer: on 0 it prints every address of the result
  once, on anything else it reports the error, and it leaves with 0 either way.
\<close>

theorem async_main_returns:
  assumes "list_all addr_ok as" "as \<noteq> []"
  shows "(async_main started gai_error as gai_strerror = None \<longleftrightarrow> started = 0 \<and> (\<forall>n. gai_error n = EAI_INPROGRESS)) \<and>
    (\<forall>n. started = 0 \<and> (\<forall>i<n. gai_error i = EAI_INPROGRESS) \<and> gai_error n \<noteq> EAI_INPROGRESS \<longrightarrow>
      async_main started gai_error as gai_strerror = Some (Inr \<lparr>code = 0,
        stdout = (if gai_error n = 0 then chain_text as else []),
        stderr = (if gai_error n = 0 then [] else [''Error resolving DNS: '' @ gai_strerror (gai_error n)]),
        released = False\<rparr>))"
proof (intro conjI allI impI)
  show "async_main started gai_error as gai_strerror = None \<longleftrightarrow> started = 0 \<and> (\<forall>n. gai_error n = EAI_INPROGRESS)"
    unfolding poll_loop_None [symmetric] by (simp add: async_main_def split: option.splits)
  next
  fix n
  assume n: "started = 0 \<and> (\<forall>i<n. gai_error i = EAI_INPROGRESS) \<and> gai_error n \<noteq> EAI_INPROGRESS"
  then have "poll_loop gai_error = Some (gai_error n)" using poll_loop_stops by blast
  with n show "async_main started gai_error as gai_strerror = Some (Inr \<lparr>code = 0,
      stdout = (if gai_error n = 0 then chain_text as else []),
      stderr = (if gai_error n = 0 then [] else [''Error resolving DNS: '' @ gai_strerror (gai_error n)]),
      released = False\<rparr>)"
    using printAddrInfo_ok [OF assms(2,1), of "[]"] by (simp add: async_main_def)
qed

theorem async_main_returns_witness:
  "\<exists>r. async_main 0 (\<lambda>n. if n < 3 then EAI_INPROGRESS else 0) [demo_addr 1] (\<lambda>e. ''error'') = Some (Inr r) \<and>
     code r = 0 \<and> stdout r = chain_text [demo_addr 1]"
proof -
  let ?g = "\<lambda>n::nat. if n < 3 then EAI_INPROGRESS else 0"
  have "\<exists>n. (\<forall>i<n. ?g i = EAI_INPROGRESS) \<and> ?g n \<noteq> EAI_INPROGRESS \<and> ?g n = 0"
    by (rule exI [of _ 3]) (simp add: EAI_INPROGRESS_def)
  then obtain n where "\<forall>i<n. ?g i = EAI_INPROGRESS" "?g n \<noteq> EAI_INPROGRESS" "?g n = 0" by blast
  then show ?thesis
    using conjunct2 [OF async_main_returns [of "[demo_addr 1]" 0 ?g "\<lambda>e. ''error''"], rule_format, of n] by simp
qed

section \<open>The signal\<close>

text \<open>When every call before the wait succeeds and the signal of the finished lookup arrives, the
  program prints the result and leaves with 0 and the request freed, provided the
  library stored a list. A lookup that failed leaves \<open>ar_result\<close> at the unset local variable, and
  the program then reads it: whether the lookup succeeded is never asked.
\<close>

theorem sig_main_result:
  assumes "se_epoll_ctl k \<noteq> - 1" "se_epoll_create k \<noteq> - 1" "se_signalfd k \<noteq> - 1" "se_getaddrinfo_a k = 0"
    and "se_wait k = (1, [se_signalfd k])" "se_read k 0 = (n, signal)" "0 < n"
  shows "(se_result k = Servinfo \<longrightarrow> sig_main k signal argv = Inl Uninitialised) \<and>
    (\<forall>as. se_result k = Chain as \<and> list_all addr_ok as \<longrightarrow>
       sig_main k signal argv = Inr \<lparr>code = 0,
         stdout = [''Resolving '' @ getHostFromArg 1 argv, ''Setup signalfd '' @ show_int (se_signalfd k),
                   ''Got nfds 1'', ''Reading file descriptor '' @ show_int (se_signalfd k),
                   ''Got signal from getaddrinfo_a''] @ each_text as,
         stderr = [], released = True\<rparr>)"
proof -
  have one: "show_int 1 = ''1''" by code_simp
  have codes: "EAI_AGAIN \<noteq> 0" "EAI_MEMORY \<noteq> 0" "EAI_SYSTEM \<noteq> 0"
    by (simp_all add: EAI_AGAIN_def EAI_MEMORY_def EAI_SYSTEM_def)
  show ?thesis
    using assms codes by (simp add: sig_main_def signalfd_setup_def sig_event_def print_each_ok one Let_def)
qed

definition demo_sig :: "ai_ptr \<Rightarrow> sig_env" where
  "demo_sig r = \<lparr>se_signalfd = 3, se_epoll_create = 4, se_epoll_ctl = 0, se_getaddrinfo_a = 0, se_gai_error = 0,
     se_wait = (1, [3]), se_read = (\<lambda>n. (128, 37)), se_perror = [], se_result = r\<rparr>"

theorem sig_main_result_witness:
  "sig_main (demo_sig Servinfo) 37 [''a.out''] = Inl Uninitialised"
  using sig_main_result [of "demo_sig Servinfo" 128 37 "[''a.out'']"] by (simp add: demo_sig_def)

section \<open>The race for the request\<close>

definition lib_label :: "dns_label \<Rightarrow> bool" where
  "lib_label l \<longleftrightarrow> l = NotifyThread \<or> (\<exists>res. l = Resolve res)"

definition dns_past :: "dns_label list \<Rightarrow> dns_thread \<Rightarrow> bool" where
  "dns_past ls s \<longleftrightarrow>
     (main_at s = AtStart \<longrightarrow> lib_at s = NoRequest) \<and>
     (request s = None \<longleftrightarrow> FreeRequests \<in> set ls) \<and>
     (lib_at s = Resolved \<and> request s = Some Servinfo \<longrightarrow> Resolve None \<in> set ls) \<and>
     (\<forall>as. request s = Some (Chain as) \<longrightarrow> Resolve (Some as) \<in> set ls)"

lemma start_lookup_fields [simp]:
  "request (start_lookup rv err s) = request s"
  "main_at (start_lookup rv err s) \<noteq> AtStart"
  "lib_at s \<noteq> Resolved \<Longrightarrow> lib_at (start_lookup rv err s) \<noteq> Resolved"
  by (simp_all add: start_lookup_def Let_def)

lemma dns_past_step:
  assumes "dns_past ls s" "dns_step l s = Some (Inr t)"
  shows "dns_past (ls @ [l]) t"
proof (cases l)
  case (StartLookup rv err)
  with assms show ?thesis by (auto simp: dns_past_def split: if_splits)
next
  case (Resolve res)
  with assms obtain old where old: "request s = Some old" "lib_at s = Resolving"
    and t: "t = s\<lparr>lib_at := Resolved, request := Some (case res of Some as \<Rightarrow> Chain as | None \<Rightarrow> old)\<rparr>"
    by (auto split: if_splits option.splits)
  with assms(1) Resolve show ?thesis by (cases res) (auto simp: dns_past_def split: if_splits)
next
  case NotifyThread
  with assms obtain u where "t = s\<lparr>lib_at := Notified, dns_out := u\<rparr>"
    by (auto simp: cbind_eq_Inr split: if_splits)
  with assms NotifyThread show ?thesis by (auto simp: dns_past_def split: if_splits)
next
  case (SuspendReturns rv)
  with assms have "t = s\<lparr>main_at := BeforeFree, dns_out := dns_out s @ suspend_message rv\<rparr>"
    by (auto split: if_splits)
  with assms(1) SuspendReturns show ?thesis by (auto simp: dns_past_def)
next
  case FreeRequests
  with assms have "t = s\<lparr>main_at := AfterFree, request := None\<rparr>" by (auto split: if_splits)
  with assms(1) FreeRequests show ?thesis by (auto simp: dns_past_def)
next
  case ExitMain
  with assms have "t = s\<lparr>main_at := Exited 0\<rparr>" by (auto split: if_splits)
  with assms(1) ExitMain show ?thesis by (auto simp: dns_past_def)
qed

interpretation dnr: schedule dns_step "\<lambda>s. \<exists>argv. s = dns_thread_init argv" dns_past
proof unfold_locales
  show "dns_past [] s" if "\<exists>argv. s = dns_thread_init argv" for s
    using that by (auto simp: dns_past_def dns_thread_init_def)
qed (rule dns_past_step)

lemma dns_step_undef:
  assumes "dns_past ls s" "\<forall>as. Resolve (Some as) \<in> set ls \<longrightarrow> list_all addr_ok as" "dns_step l s = Some (Inl e)"
  shows "if FreeRequests \<in> set ls then e = UseAfterFree \<and> lib_label l
         else e = Uninitialised \<and> l = NotifyThread \<and> Resolve None \<in> set ls"
proof (cases l)
  case (Resolve res)
  with assms show ?thesis by (auto simp: dns_past_def lib_label_def split: if_splits option.splits)
next
  case NotifyThread
  with assms(3) have cb: "dnsCallback (request s) (dns_out s) = Inl e" and at: "lib_at s = Resolved"
    by (auto simp: cbind_def split: if_splits sum.splits)
  show ?thesis
  proof (cases "request s")
    case None
    with cb assms(1) NotifyThread show ?thesis by (simp add: dnsCallback_def dns_past_def lib_label_def)
  next
    case (Some r)
    with assms(1,2) have "r = Chain as \<Longrightarrow> list_all addr_ok as" for as by (auto simp: dns_past_def)
    with cb Some have "r = Servinfo \<and> e = Uninitialised"
      by (cases r) (auto simp: dnsCallback_def print_each_ok)
    with Some at assms(1) NotifyThread show ?thesis by (simp add: dns_past_def)
  qed
qed (use assms(3) in \<open>auto split: if_splits\<close>)


definition demo_race :: "dns_label list" where
  "demo_race = [StartLookup 0 0, Resolve (Some [demo_addr 1]), SuspendReturns 0, FreeRequests]"


section \<open>The blocking lookup\<close>

lemma dns_print_lines:
  "(\<forall>p\<in>set ps. \<exists>h. getnameinfo (ai_addr p) (ai_addrlen p) = Some h) \<Longrightarrow>
   dns_print getnameinfo ps t =
     Inr (t @ map (\<lambda>p. ''resolved ip: '' @ the (getnameinfo (ai_addr p) (ai_addrlen p))) ps)"
  by (induction ps arbitrary: t) auto

lemma dns_print_unset:
  assumes "p \<in> set ps" "getnameinfo (ai_addr p) (ai_addrlen p) = None"
  shows "dns_print getnameinfo ps t = Inl Uninitialised"
  using assms by (induction ps arbitrary: t) (auto split: option.splits)

text \<open>The blocking lookup prints one line per address in the order of the resolver's list and frees the
  list, when every address can be written as text; the result of \<open>getnameinfo\<close> is not looked
  at, and an address that cannot be written makes it print an unset buffer. A refused lookup is
  reported with exit code 1.
\<close>

theorem dns_main_lines:
  "dns_main (rv, as) gai_strerror getnameinfo =
     (if rv \<noteq> 0
      then Inr \<lparr>code = 1, stdout = [], stderr = [''getaddrinfo: '' @ gai_strerror rv], released = False\<rparr>
      else if list_all (\<lambda>p. getnameinfo (ai_addr p) (ai_addrlen p) \<noteq> None) as
      then Inr \<lparr>code = 0, stdout = map (\<lambda>p. ''resolved ip: '' @ the (getnameinfo (ai_addr p) (ai_addrlen p))) as,
                stderr = [], released = True\<rparr>
      else Inl Uninitialised)"
proof (cases "list_all (\<lambda>p. getnameinfo (ai_addr p) (ai_addrlen p) \<noteq> None) as")
  case True
  then show ?thesis
    using dns_print_lines [of as getnameinfo "[]"] by (auto simp: dns_main_def list_all_iff)
next
  case False
  then obtain p where "p \<in> set as" "getnameinfo (ai_addr p) (ai_addrlen p) = None" by (auto simp: list_all_iff)
  with False show ?thesis by (simp add: dns_main_def dns_print_unset)
qed

text \<open>The address \<open>ip2AddrInfo\<close> builds has no family: neither printing routine can show it.\<close>

lemma ip2AddrInfo_unset:
  "ip2AddrInfo inet_aton s t = Inr (a, t') \<Longrightarrow> printAddrInfo [a] u = Inl Uninitialised"
  by (cases "inet_aton s") (auto simp: ip2AddrInfo_def addr_block_def Let_def)

end
