(* ===== verification/Boost_Dns.thy ===== *)
theory Boost_Dns
  imports Dns
begin

text \<open>
  The lookups over Boost.Asio (\<open>sockets/dns_lookup/boost\<close>): the one that waits for a future (\<open>dns.cc\<close>), the
  coroutine whose executor is never run (\<open>dns_coroutine.cc\<close>) and the one that polls the resolver's
  executor from a timer (\<open>dns_poll_timer.cc\<close>). The resolver is a parameter: its outcome is an argument
  and the moment it completes is a label of the schedule.
\<close>

section \<open>The future\<close>

datatype future_outcome = Endpoints "string list" | SystemError string | OtherException

definition boost_main :: "future_outcome \<Rightarrow> string list \<Rightarrow> int \<times> string list" where
  "boost_main r argv =
     (let t = [''Resolving '' @ getHostFromArg 1 argv] in
      (0, t @ (case r of
                 Endpoints es \<Rightarrow> map (\<lambda>e. ''Endpoint '' @ e) es
               | SystemError m \<Rightarrow> [m]
               | OtherException \<Rightarrow> [''Uncaught exception''])))"

section \<open>The coroutine\<close>

text \<open>
  \<open>co_spawn\<close> queues \<open>do_resolve\<close> on an executor; \<open>main\<close> then turns in an empty loop. A state is what was
  printed, the queue and the number of turns of the loop.
\<close>

record coroutine_state =
  co_out :: "string list"
  co_queue :: "string list"
  co_turns :: nat

definition coroutine_start :: "string list \<Rightarrow> coroutine_state" where
  "coroutine_start argv =
     \<lparr>co_out = [''Resolving '' @ getHostFromArg 1 argv], co_queue = [getHostFromArg 1 argv], co_turns = 0\<rparr>"

definition coroutine_turn :: "coroutine_state \<Rightarrow> coroutine_state" where
  "coroutine_turn s = s\<lparr>co_turns := co_turns s + 1\<rparr>"

section \<open>The timer\<close>

text \<open>
  The timer's executor runs the waits that are armed; the resolver's executor has the completion of the lookup once it
  is there. Seconds are counted from the start.
\<close>

record poll_state =
  pt_armed :: bool
  pt_expiry :: nat
  pt_count :: int
  pt_pending :: bool
  pt_ready :: "string list list"
  pt_out :: "string list"

definition poll_start :: "string list \<Rightarrow> poll_state" where
  "poll_start argv =
     \<lparr>pt_armed = True, pt_expiry = 2, pt_count = 0, pt_pending = True, pt_ready = [],
      pt_out = [''Resolving '' @ getHostFromArg 1 argv]\<rparr>"

definition resolveCallback :: "string list \<Rightarrow> string list \<Rightarrow> string list" where
  "resolveCallback results t = t @ map (\<lambda>e. ''Endpoint '' @ e) results"

text \<open>\<open>poll_one\<close> runs at most one completed handler.\<close>

definition poll_one :: "poll_state \<Rightarrow> nat \<times> poll_state" where
  "poll_one s = (case pt_ready s of
     [] \<Rightarrow> (0, s)
   | r # rs \<Rightarrow> (1, s\<lparr>pt_ready := rs, pt_out := resolveCallback r (pt_out s)\<rparr>))"

definition pollDNS :: "poll_state \<Rightarrow> poll_state cexec" where
  "pollDNS s =
     (if pt_count s = INT_MAX then Inl SignedOverflow
      else
        let s1 = s\<lparr>pt_out := pt_out s @ [''***Hit pollDNS''], pt_count := pt_count s + 1\<rparr>;
            (nReady, s2) = poll_one s1
        in Inr (s2\<lparr>pt_expiry := pt_expiry s2 + 2\<rparr>))"

datatype poll_label = LookupDone "string list" | TimerFires

fun poll_step :: "poll_label \<Rightarrow> poll_state \<Rightarrow> poll_state cexec option" where
  "poll_step (LookupDone r) s =
     (if pt_pending s then Some (Inr (s\<lparr>pt_pending := False, pt_ready := pt_ready s @ [r]\<rparr>)) else None)"
| "poll_step TimerFires s = (if pt_armed s then Some (pollDNS (s\<lparr>pt_armed := False\<rparr>)) else None)"

section \<open>What is printed\<close>

lemma coroutine_never_resolves:
  "co_queue ((coroutine_turn ^^ n) (coroutine_start argv)) = [getHostFromArg 1 argv] \<and>
   co_out ((coroutine_turn ^^ n) (coroutine_start argv)) = [''Resolving '' @ getHostFromArg 1 argv]"
  by (induction n) (simp_all add: coroutine_turn_def coroutine_start_def)

lemma poll_steps [simp]:
  "poll_step (LookupDone r) (poll_start argv) = Some (Inr ((poll_start argv)\<lparr>pt_pending := False, pt_ready := [r]\<rparr>))"
  "pt_armed (poll_start argv)" "pt_pending (poll_start argv)" "pt_count (poll_start argv) = 0" "pt_ready (poll_start argv) = []"
  "pt_out (poll_start argv) = [''Resolving '' @ getHostFromArg 1 argv]"
  by (simp_all add: poll_start_def)

lemma pollDNS_first:
  "pt_count s = 0 \<Longrightarrow> pollDNS s =
     Inr (s\<lparr>pt_count := 1, pt_expiry := pt_expiry s + 2, pt_ready := tl (pt_ready s),
            pt_out := pt_out s @ [''***Hit pollDNS''] @ (case pt_ready s of [] \<Rightarrow> [] | r # _ \<Rightarrow> map (\<lambda>e. ''Endpoint '' @ e) r)\<rparr>)"
  by (cases "pt_ready s") (simp_all add: pollDNS_def poll_one_def resolveCallback_def INT_MAX_def)

text \<open>The timer is never armed again after it has fired: whatever the schedule, \<open>pollDNS\<close> runs at most once, at
  most two steps ever happen, and the addresses are printed only when the lookup was done before
  the timer fired. An answer that comes later is never shown, and the program does not end.
\<close>

theorem poll_timer_once:
  assumes "sched poll_step ls (poll_start argv) = Some r"
  shows "\<exists>s. r = Inr s \<and> length ls \<le> 2 \<and> pt_count s = (if TimerFires \<in> set ls then 1 else 0) \<and>
    pt_out s = [''Resolving '' @ getHostFromArg 1 argv] @
      (if TimerFires \<in> set ls
       then ''***Hit pollDNS'' # (case ls of LookupDone es # _ \<Rightarrow> map (\<lambda>e. ''Endpoint '' @ e) es | _ \<Rightarrow> [])
       else [])"
proof (cases ls)
  case Nil
  with assms show ?thesis by auto
next
  case (Cons l ls')
  note out = Cons
  show ?thesis
  proof (cases ls')
    case Nil
    with assms out show ?thesis by (cases l) (auto simp: pollDNS_first)
  next
    case (Cons l' ls'')
    show ?thesis
    proof (cases ls'')
      case Nil
      with assms out Cons show ?thesis by (cases l; cases l') (auto simp: pollDNS_first)
    next
      case (Cons l'' ls3)
      with assms out \<open>ls' = l' # ls''\<close> show ?thesis
        by (cases l; cases l'; cases l'') (auto simp: pollDNS_first)
    qed
  qed
qed

theorem poll_timer_once_witness:
  "\<exists>s. sched poll_step [TimerFires, LookupDone [''10.0.0.1'']] (poll_start []) = Some (Inr s) \<and>
     pt_out s = [''Resolving google.com'', ''***Hit pollDNS'']"
proof -
  have "\<exists>r. sched poll_step [TimerFires, LookupDone [''10.0.0.1'']] (poll_start []) = Some r"
    by (simp add: pollDNS_first)
  then obtain r where r: "sched poll_step [TimerFires, LookupDone [''10.0.0.1'']] (poll_start []) = Some r" by blast
  have "getHostFromArg 1 [] = ''google.com''" by (simp add: getHostFromArg_def)
  with r poll_timer_once [OF r] show ?thesis by auto
qed

end
