(* ===== verification/Tcp_Sockets.thy ===== *)
theory Tcp_Sockets
  imports C_Lib
begin

text \<open>
  The blocking TCP client and server of \<open>sockets\<close> (\<open>utils.h\<close>, \<open>socket_client.cc\<close>,
  \<open>socket_server.cc\<close>). Errors are reported and then ignored, so every step has the results of the
  earlier ones as they are. The kernel is a parameter: its answers are fields of \<open>tcp_kernel\<close> and the
  lists of what the sockets deliver. A receive buffer is a list of slots, because the programs print buffers
  they have not written.
\<close>

section \<open>Arguments\<close>

record host =
  ip :: string
  port :: u16

text \<open>\<open>argv[argc]\<close> is the null pointer, and there is nothing behind it.\<close>

definition argv_at :: "string list \<Rightarrow> nat \<Rightarrow> string cexec" where
  "argv_at argv i =
     (if i < length argv then Inr (argv ! i) else if i = length argv then Inl NullPointer else Inl OutOfBounds)"

definition getHostFromArg_ip_port :: "string list \<Rightarrow> nat \<Rightarrow> nat \<Rightarrow> string list \<Rightarrow> (host option \<times> string list) cexec" where
  "getHostFromArg_ip_port argv ipIndex portIndex t =
     (if length argv < ipIndex \<or> length argv < portIndex then Inr (None, t)
      else cbind (argv_at argv ipIndex) (\<lambda>a. cbind (argv_at argv portIndex) (\<lambda>p.
           cbind (atoi p) (\<lambda>n.
             Inr (Some \<lparr>ip = a, port = word_of_int n\<rparr>, t @ [''Connecting to '' @ a @ '':'' @ p])))))"

definition retError_line :: "string \<Rightarrow> string list \<Rightarrow> string list" where
  "retError_line e t = t @ [e]"

definition deref_host :: "host option \<Rightarrow> host cexec" where
  "deref_host h = (case h of None \<Rightarrow> Inl NullPointer | Some x \<Rightarrow> Inr x)"

section \<open>Client\<close>

record tcp_kernel =
  tk_socket :: int
  tk_setsockopt :: int
  tk_connect :: int
  tk_bind :: int
  tk_listen :: int
  tk_aton :: "string \<Rightarrow> u32 option"
  tk_strerror :: "int \<Rightarrow> string"

text \<open>
  The state of a client: its lines, the type-of-service byte it asked for, the address it
  connected to (whose address part is unset when the text was no address) and the payloads it handed to
  \<open>send\<close>.
\<close>

record tcp_client =
  tc_out :: "string list"
  tc_sock :: int
  tc_tos :: u8
  tc_addr :: "u32 slot"
  tc_port :: u16
  tc_sent :: "string list"

definition client_setup :: "tcp_kernel \<Rightarrow> string list \<Rightarrow> tcp_client cexec" where
  "client_setup k argv =
     cbind (getHostFromArg_ip_port argv 1 2 []) (\<lambda>(h, t).
     let t1 = (if h = None then retError_line ''need to specify ip and port'' t else t);
         sock = tk_socket k;
         t2 = (if sock < 0 then retError_line ''failed to create socket'' t1 else t1) @ [''created socket : '' @ show_int sock]
     in cbind (deref_host h) (\<lambda>hst.
        let addr = (case tk_aton k (ip hst) of Some a \<Rightarrow> Val a | None \<Rightarrow> Uninit);
            dscp = push_bit 2 46;
            t3 = (if tk_setsockopt k < 0 then retError_line ''failed to setsockopt'' t2 else t2)
                   @ [''set dscp : '' @ [char_of (unat dscp)]];
            t4 = (if tk_connect k < 0 then retError_line ''failed to connect socket'' t3 else t3)
        in Inr \<lparr>tc_out = t4, tc_sock = sock, tc_tos = dscp, tc_addr = addr, tc_port = htons (port hst), tc_sent = []\<rparr>))"

text \<open>One round of the endless loop, with the result of \<open>send\<close> and the \<open>errno\<close> behind it.\<close>

definition client_round :: "tcp_kernel \<Rightarrow> int \<times> int \<Rightarrow> tcp_client \<Rightarrow> tcp_client" where
  "client_round k r c =
     (let (sent, errno) = r;
          l = (if sent = - 1 then ''Failed to send, errno: '' @ show_int errno @ '' '' @ tk_strerror k errno
               else ''sent bytes :'' @ show_int sent)
      in c\<lparr>tc_out := tc_out c @ [l, ''sent message''], tc_sent := tc_sent c @ [''test'']\<rparr>)"

definition client_rounds :: "tcp_kernel \<Rightarrow> (int \<times> int) list \<Rightarrow> tcp_client \<Rightarrow> tcp_client" where
  "client_rounds k rs c = fold (client_round k) rs c"

section \<open>Server\<close>

text \<open>A buffer of characters: \<open>read\<close> overwrites its front, printing goes up to the first zero.\<close>

definition store_read :: "bytes \<Rightarrow> u8 slot list \<Rightarrow> u8 slot list" where
  "store_read data buf = map Val data @ drop (length data) buf"

fun print_cbuf :: "u8 slot list \<Rightarrow> bytes cexec" where
  "print_cbuf [] = Inl OutOfBounds"
| "print_cbuf (c # cs) = cbind (rd_slot c) (\<lambda>b. if b = 0 then Inr [] else cbind (print_cbuf cs) (\<lambda>r. Inr (b # r)))"

datatype srv_line = Line string | GotMessage bytes | Reply int string

record tcp_server =
  ts_out :: "srv_line list"
  ts_open :: "int list"
  ts_buf :: "u8 slot list"

definition SERVER_BUF :: nat where "SERVER_BUF = 256"

definition server_setup :: "tcp_kernel \<Rightarrow> string list \<Rightarrow> (u16 \<times> tcp_server) cexec" where
  "server_setup k argv =
     cbind (getHostFromArg_ip_port argv 1 2 []) (\<lambda>(h, t).
     let t1 = (if h = None then retError_line ''need to specify ip and port'' t else t);
         sock = tk_socket k;
         t2 = (if sock < 0 then retError_line ''failed to create socket'' t1 else t1) @ [''created socket : '' @ show_int sock]
     in cbind (deref_host h) (\<lambda>hst.
        let t3 = (if tk_bind k < 0 then retError_line ''failed to bind socket'' t2 else t2) @ [''bound socket''];
            t4 = (if tk_listen k = - 1 then retError_line ''failed to listen'' t3 else t3) @ [''listening...'']
        in Inr (htons (port hst),
                \<lparr>ts_out = map Line t4, ts_open = (if sock < 0 then [] else [sock]), ts_buf = replicate SERVER_BUF Uninit\<rparr>)))"

text \<open>The inner loop: the messages \<open>read\<close> delivers on a connection until it ends or fails.\<close>

fun serve_client :: "int \<Rightarrow> bytes list \<Rightarrow> tcp_server \<Rightarrow> tcp_server cexec" where
  "serve_client c [] s = Inr s"
| "serve_client c (d # ds) s =
     (let buf = store_read d (ts_buf s) in
      cbind (print_cbuf buf) (\<lambda>m.
      serve_client c ds (s\<lparr>ts_out := ts_out s @ [Reply c ''received'', GotMessage m],
                           ts_buf := replicate SERVER_BUF (Val 0)\<rparr>)))"

text \<open>One round of the outer loop: the descriptor \<open>accept\<close> returned and what it delivers.\<close>

definition server_round :: "int \<times> bytes list \<Rightarrow> tcp_server \<Rightarrow> tcp_server cexec" where
  "server_round conn s =
     (let (c, ds) = conn;
          t = (if c < 0 then [Line ''failed to create client socket''] else []) @ [Line (''accepted socket : '' @ show_int c)]
      in serve_client c ds (s\<lparr>ts_out := ts_out s @ t, ts_open := (if c < 0 then ts_open s else ts_open s @ [c])\<rparr>))"

fun server_rounds :: "(int \<times> bytes list) list \<Rightarrow> tcp_server \<Rightarrow> tcp_server cexec" where
  "server_rounds [] s = Inr s"
| "server_rounds (c # cs) s = cbind (server_round c s) (server_rounds cs)"

section \<open>Which command lines work\<close>

lemma getHost_cases:
  assumes "argv \<noteq> []"
  shows "length argv = 1 \<Longrightarrow> getHostFromArg_ip_port argv 1 2 t = Inr (None, t)"
    and "length argv = 2 \<Longrightarrow> getHostFromArg_ip_port argv 1 2 t = Inl NullPointer"
    and "3 \<le> length argv \<Longrightarrow> atoi (argv ! 2) = Inl e \<Longrightarrow> getHostFromArg_ip_port argv 1 2 t = Inl e"
    and "3 \<le> length argv \<Longrightarrow> atoi (argv ! 2) = Inr n \<Longrightarrow>
      getHostFromArg_ip_port argv 1 2 t =
        Inr (Some \<lparr>ip = argv ! 1, port = word_of_int n\<rparr>, t @ [''Connecting to '' @ argv ! 1 @ '':'' @ argv ! 2])"
  using assms by (simp_all add: getHostFromArg_ip_port_def argv_at_def)

lemma argv_length_cases:
  assumes "argv \<noteq> []"
  obtains "length argv = 1" | "length argv = 2" | "3 \<le> length argv"
proof -
  have "length argv \<noteq> 0" using assms by simp
  then have "length argv = 1 \<or> length argv = 2 \<or> 3 \<le> length argv" by arith
  with that show ?thesis by blast
qed

text \<open>Both programs need an address and a port: with fewer arguments they dereference a null pointer, the
  missing argument itself or the host they reported as missing. With both arguments the
  client connects to the port modulo \<open>2 ^ 16\<close> with type of service 184, the expedited
  forwarding code point, and the server listens on the port modulo \<open>2 ^ 16\<close>, whatever the system calls
  answered.
\<close>

theorem tcp_setup_arguments:
  assumes "argv \<noteq> []"
  shows "(length argv < 3 \<longrightarrow> client_setup k argv = Inl NullPointer \<and> server_setup k argv = Inl NullPointer) \<and>
    (\<forall>n. 3 \<le> length argv \<and> atoi (argv ! 2) = Inr n \<longrightarrow>
       (\<exists>c s. client_setup k argv = Inr c \<and> tc_tos c = 184 \<and> tc_port c = htons (word_of_int n) \<and>
              (\<forall>a. tk_aton k (argv ! 1) = Some a \<longrightarrow> tc_addr c = Val a) \<and>
              server_setup k argv = Inr (htons (word_of_int n), s) \<and> ts_buf s = replicate SERVER_BUF Uninit))"
proof (cases rule: argv_length_cases [OF assms])
  case 1
  with getHost_cases(1) [OF assms] show ?thesis
    by (simp add: client_setup_def server_setup_def deref_host_def Let_def)
next
  case 2
  with getHost_cases(2) [OF assms] show ?thesis
    by (simp add: client_setup_def server_setup_def)
next
  case 3
  have tos: "push_bit 2 (46 :: u8) = 184" by (simp add: push_bit_eq_mult)
  have "\<exists>c s. client_setup k argv = Inr c \<and> tc_tos c = 184 \<and> tc_port c = htons (word_of_int n) \<and>
      (\<forall>a. tk_aton k (argv ! 1) = Some a \<longrightarrow> tc_addr c = Val a) \<and>
      server_setup k argv = Inr (htons (word_of_int n), s) \<and> ts_buf s = replicate SERVER_BUF Uninit"
    if "atoi (argv ! 2) = Inr n" for n
    using getHost_cases(4) [OF assms 3 that, of "[]"] tos
    by (simp add: client_setup_def server_setup_def deref_host_def Let_def)
  with 3 show ?thesis by simp
qed

definition demo_tcp :: tcp_kernel where
  "demo_tcp = \<lparr>tk_socket = 3, tk_setsockopt = 0, tk_connect = 0, tk_bind = 0, tk_listen = 0,
     tk_aton = (\<lambda>s. Some 16777343), tk_strerror = (\<lambda>e. ''error'')\<rparr>"

theorem tcp_setup_arguments_witness:
  "client_setup demo_tcp [''client'', ''127.0.0.1''] = Inl NullPointer \<and>
   (\<exists>c. client_setup demo_tcp [''client'', ''127.0.0.1'', ''65537''] = Inr c \<and> tc_port c = htons 1)"
proof -
  have n: "atoi ([''client'', ''127.0.0.1'', ''65537''] ! 2) = Inr 65537"
    by (simp add: atoi_def isspace_def digit_val_def INT_MIN_def INT_MAX_def Let_def)
  have w: "(word_of_int 65537 :: u16) = 1" by simp
  have "client_setup demo_tcp [''client'', ''127.0.0.1''] = Inl NullPointer"
    using tcp_setup_arguments [of "[''client'', ''127.0.0.1'']" demo_tcp] by simp
  moreover have "\<exists>c. client_setup demo_tcp [''client'', ''127.0.0.1'', ''65537''] = Inr c \<and> tc_port c = htons (word_of_int 65537)"
    using conjunct2 [OF tcp_setup_arguments [of "[''client'', ''127.0.0.1'', ''65537'']" demo_tcp], rule_format, of 65537] n
    by auto
  ultimately show ?thesis unfolding w by blast
qed

section \<open>Client rounds\<close>

lemma client_rounds_sent:
  "tc_sent (client_rounds k rs c) = tc_sent c @ replicate (length rs) ''test''"
  by (induction rs arbitrary: c)
    (auto simp: client_rounds_def client_round_def Let_def replicate_append_same split: prod.splits)

lemma client_rounds_reports:
  "count_list (tc_out (client_rounds k rs c)) ''sent message'' = count_list (tc_out c) ''sent message'' + length rs"
proof (induction rs arbitrary: c)
  case (Cons r rs)
  have "count_list (tc_out (client_round k r c)) ''sent message'' = count_list (tc_out c) ''sent message'' + 1"
    by (auto simp: client_round_def Let_def count_list_append split: prod.splits)
  with Cons.IH [of "client_round k r c"] show ?case by (simp add: client_rounds_def)
qed (simp add: client_rounds_def)

section \<open>What the server prints\<close>

lemma print_cbuf_zeroed:
  "0 \<notin> set d \<Longrightarrow> print_cbuf (map Val d @ Val 0 # r) = Inr d"
  by (induction d) auto

lemma print_cbuf_stop:
  "0 \<in> set d \<Longrightarrow> print_cbuf (map Val d @ r) = Inr (takeWhile (\<lambda>x. x \<noteq> 0) d)"
  by (induction d) auto

lemma print_cbuf_unset:
  "0 \<notin> set d \<Longrightarrow> print_cbuf (map Val d @ Uninit # r) = Inl Uninitialised"
  "0 \<notin> set d \<Longrightarrow> print_cbuf (map Val d) = Inl OutOfBounds"
  by (induction d) auto

text \<open>On a zeroed buffer the server answers every message with one reply and prints it as it came, as long as
  no message has a zero byte or fills the buffer, and the buffer is zeroed again.
\<close>

theorem tcp_server_messages:
  assumes "ts_buf s = replicate SERVER_BUF (Val 0)" "list_all (\<lambda>d. 0 \<notin> set d \<and> length d < SERVER_BUF) ds"
  shows "\<exists>t. serve_client c ds s = Inr t \<and>
     ts_out t = ts_out s @ concat (map (\<lambda>d. [Reply c ''received'', GotMessage d]) ds) \<and>
     ts_buf t = replicate SERVER_BUF (Val 0) \<and> ts_open t = ts_open s"
  using assms
proof (induction ds arbitrary: s)
  case (Cons d ds)
  then have "length d < SERVER_BUF" by simp
  then obtain m where "SERVER_BUF - length d = Suc m" by (cases "SERVER_BUF - length d") auto
  then have "print_cbuf (store_read d (ts_buf s)) = Inr d"
    using Cons.prems print_cbuf_zeroed [of d "replicate m (Val 0)"] by (simp add: store_read_def)
  with Cons.IH [of "s\<lparr>ts_out := ts_out s @ [Reply c ''received'', GotMessage d], ts_buf := replicate SERVER_BUF (Val 0)\<rparr>"]
    Cons.prems show ?case by simp
qed simp

theorem tcp_server_messages_witness:
  "\<exists>t. serve_client 5 [[104, 105], [98]] \<lparr>ts_out = [], ts_open = [3, 5], ts_buf = replicate SERVER_BUF (Val 0)\<rparr> = Inr t \<and>
     ts_out t = [Reply 5 ''received'', GotMessage [104, 105], Reply 5 ''received'', GotMessage [98]]"
  using tcp_server_messages [of "\<lparr>ts_out = [], ts_open = [3, 5], ts_buf = replicate SERVER_BUF (Val 0)\<rparr>" "[[104, 105], [98]]" 5]
  by (auto simp: SERVER_BUF_def)

lemma print_cbuf_fresh:
  assumes "0 \<notin> set d" "length d \<le> n"
  shows "print_cbuf (store_read d (replicate n Uninit)) = Inl (if length d < n then Uninitialised else OutOfBounds)"
proof (cases "length d < n")
  case True
  then obtain m where "n - length d = Suc m" by (cases "n - length d") auto
  with True assms(1) show ?thesis by (simp add: store_read_def print_cbuf_unset)
next
  case False
  with assms show ?thesis by (simp add: store_read_def print_cbuf_unset)
qed

text \<open>The first message a started server receives is printed from a buffer that has never been written: unless
  the message itself has a zero byte the server reads past what it received, into unset bytes or, when
  the message fills the buffer, past its end.
\<close>

theorem tcp_server_first_message:
  assumes "server_setup k argv = Inr (p, s)" "0 \<notin> set d" "length d \<le> SERVER_BUF"
  shows "server_round (c, d # ds) s = Inl (if length d < SERVER_BUF then Uninitialised else OutOfBounds)"
proof -
  from assms(1) have "ts_buf s = replicate SERVER_BUF Uninit"
    by (auto simp: server_setup_def cbind_eq_Inr Let_def)
  with print_cbuf_fresh [OF assms(2,3)] show ?thesis by (simp add: server_round_def Let_def)
qed

theorem tcp_server_first_message_witness:
  "\<exists>p s. server_setup demo_tcp [''server'', ''127.0.0.1'', ''3000''] = Inr (p, s) \<and>
     server_round (5, [[116, 101, 115, 116]]) s = Inl Uninitialised"
proof -
  have "atoi ''3000'' = Inr 3000"
    by (simp add: atoi_def isspace_def digit_val_def INT_MIN_def INT_MAX_def Let_def)
  then have "\<exists>p s. server_setup demo_tcp [''server'', ''127.0.0.1'', ''3000''] = Inr (p, s)"
    by (simp add: server_setup_def getHostFromArg_ip_port_def argv_at_def deref_host_def Let_def)
  then obtain p s where s: "server_setup demo_tcp [''server'', ''127.0.0.1'', ''3000''] = Inr (p, s)" by blast
  have "server_round (5, [[116, 101, 115, 116]]) s = Inl Uninitialised"
    using tcp_server_first_message [OF s, of "[116, 101, 115, 116]" 5 "[]"] by (simp add: SERVER_BUF_def)
  with s show ?thesis by blast
qed

text \<open>No connection is closed: every accepted descriptor stays open.\<close>

lemma serve_client_open: "serve_client c ds s = Inr t \<Longrightarrow> ts_open t = ts_open s"
  by (induction ds arbitrary: s) (auto simp: cbind_eq_Inr Let_def)

lemma server_rounds_open:
  "server_rounds cs s = Inr t \<Longrightarrow> ts_open t = ts_open s @ filter (\<lambda>c. 0 \<le> c) (map fst cs)"
proof (induction cs arbitrary: s)
  case (Cons conn cs)
  then obtain u where u: "server_round conn s = Inr u" "server_rounds cs u = Inr t" by (auto simp: cbind_eq_Inr)
  from u(1) have "ts_open u = ts_open s @ filter (\<lambda>c. 0 \<le> c) [fst conn]"
    by (auto simp: server_round_def Let_def split: prod.splits dest: serve_client_open)
  with Cons.IH [OF u(2)] show ?case by simp
qed simp

end
