(* ===== verification/Asio_Echo.thy ===== *)
theory Asio_Echo
  imports Tcp_Sockets
begin

text \<open>
  The Boost.Asio echo server and client (\<open>sockets/asio/server.cc\<close>, \<open>client.cc\<close>). The coroutines of the
  server run on one executor: each suspends at its read and at its write, and a schedule is the sequence
  of the completions the executor delivers. What the sockets deliver is the content of the
  labels; address parsing and the acceptor are parameters.
\<close>

section \<open>Server\<close>

definition ECHO_BUF :: nat where "ECHO_BUF = 1024"

datatype co_pc = AwaitRead | AwaitWrite nat | CoDone

record echo_co =
  co_pc :: co_pc
  co_data :: "u8 slot list"
  co_written :: bytes

datatype asio_line = ALine string | EchoLine bytes nat | EchoException string

record asio_srv =
  as_listening :: bool
  as_conns :: "echo_co list"
  as_out :: "asio_line list"
  as_stopped :: bool

datatype asio_label =
    Accepted
  | ReadSome nat bytes
  | WriteDone nat
  | IoError nat string
  | StopSignal

definition default_host :: host where
  "default_host = \<lparr>ip = ''127.0.0.1'', port = 3000\<rparr>"

text \<open>
  \<open>main\<close> up to the first suspension of \<open>listener\<close>. An address that does not parse or an endpoint that cannot
  be bound makes the detached coroutine end, and the executor goes on waiting for a signal.
\<close>

definition listener_start :: "(string \<Rightarrow> 'a option) \<Rightarrow> ('a \<Rightarrow> u16 \<Rightarrow> bool) \<Rightarrow> host \<Rightarrow> string list \<Rightarrow> asio_srv" where
  "listener_start from_string can_bind h t =
     (let ok = (case from_string (ip h) of None \<Rightarrow> False | Some a \<Rightarrow> can_bind a (port h))
      in \<lparr>as_listening = ok, as_conns = [], as_out = map ALine (t @ (if ok then [''Listening...''] else [])),
          as_stopped = False\<rparr>)"

definition asio_start :: "(string \<Rightarrow> 'a option) \<Rightarrow> ('a \<Rightarrow> u16 \<Rightarrow> bool) \<Rightarrow> string list \<Rightarrow> asio_srv cexec" where
  "asio_start from_string can_bind argv =
     cbind (getHostFromArg_ip_port argv 2 3 []) (\<lambda>(h, t).
       Inr (case h of
              None \<Rightarrow> listener_start from_string can_bind default_host (t @ [''Defaulting to localhost:3000''])
            | Some x \<Rightarrow> listener_start from_string can_bind x t))"

definition echo_new :: echo_co where
  "echo_new = \<lparr>co_pc = AwaitRead, co_data = replicate ECHO_BUF Uninit, co_written = []\<rparr>"

fun slot_bytes :: "u8 slot list \<Rightarrow> bytes cexec" where
  "slot_bytes [] = Inr []"
| "slot_bytes (c # cs) = cbind (rd_slot c) (\<lambda>b. cbind (slot_bytes cs) (\<lambda>r. Inr (b # r)))"

text \<open>The two halves of a round of \<open>echo\<close>: a completed read and a completed write.\<close>

definition echo_read :: "bytes \<Rightarrow> echo_co \<Rightarrow> (asio_line \<times> echo_co) cexec" where
  "echo_read d c =
     (let buf = store_read d (co_data c) in
      cbind (print_cbuf buf) (\<lambda>m.
        Inr (EchoLine m (length d), c\<lparr>co_data := buf, co_pc := AwaitWrite (length d)\<rparr>)))"

definition echo_write :: "nat \<Rightarrow> echo_co \<Rightarrow> echo_co cexec" where
  "echo_write n c =
     cbind (slot_bytes (take n (co_data c))) (\<lambda>b.
       Inr (c\<lparr>co_written := co_written c @ b, co_pc := AwaitRead\<rparr>))"

definition set_conn :: "nat \<Rightarrow> echo_co \<Rightarrow> asio_srv \<Rightarrow> asio_srv" where
  "set_conn i c s = s\<lparr>as_conns := (as_conns s)[i := c]\<rparr>"

fun asio_step :: "asio_label \<Rightarrow> asio_srv \<Rightarrow> asio_srv cexec option" where
  "asio_step Accepted s =
     (if as_listening s \<and> \<not> as_stopped s then Some (Inr (s\<lparr>as_conns := as_conns s @ [echo_new]\<rparr>)) else None)"
| "asio_step (ReadSome i d) s =
     (if i < length (as_conns s) \<and> \<not> as_stopped s \<and> co_pc (as_conns s ! i) = AwaitRead
         \<and> 0 < length d \<and> length d \<le> ECHO_BUF
      then Some (cbind (echo_read d (as_conns s ! i)) (\<lambda>(l, c).
             Inr ((set_conn i c s)\<lparr>as_out := as_out s @ [l]\<rparr>)))
      else None)"
| "asio_step (WriteDone i) s =
     (if i < length (as_conns s) \<and> \<not> as_stopped s
      then (case co_pc (as_conns s ! i) of
              AwaitWrite n \<Rightarrow> Some (cbind (echo_write n (as_conns s ! i)) (\<lambda>c. Inr (set_conn i c s)))
            | _ \<Rightarrow> None)
      else None)"
| "asio_step (IoError i e) s =
     (if i < length (as_conns s) \<and> \<not> as_stopped s \<and> co_pc (as_conns s ! i) \<noteq> CoDone
      then Some (Inr ((set_conn i ((as_conns s ! i)\<lparr>co_pc := CoDone\<rparr>) s)\<lparr>as_out := as_out s @ [EchoException e]\<rparr>))
      else None)"
| "asio_step StopSignal s = (if as_stopped s then None else Some (Inr (s\<lparr>as_stopped := True\<rparr>)))"

section \<open>Client\<close>

record asio_net =
  an_connect :: "string option"
  an_write :: "string option"
  an_read :: bytes
  an_read_error :: "string option"
  an_eof :: bool

text \<open>
  \<open>Some\<close> is the message of an error code; \<open>an_eof\<close> tells that the read error is the end of file. The result is the exit code, what was written to the socket and
  what was printed; \<open>None\<close> is the uncaught exception of an address that does not parse.
\<close>

definition hello_msg :: string where
  "hello_msg = ''Hello from Client!'' @ [CHR 0x0A]"

definition asio_client ::
  "(string \<Rightarrow> 'a option) \<Rightarrow> (host \<Rightarrow> string) \<Rightarrow> asio_net \<Rightarrow> string list \<Rightarrow> ((int \<times> string list \<times> asio_line list) cexec) option" where
  "asio_client from_string show_endpoint net argv =
     (case getHostFromArg_ip_port argv 1 2 [] of
        Inl e \<Rightarrow> Some (Inl e)
      | Inr (ho, t) \<Rightarrow>
          (let (h, t1) = (case ho of None \<Rightarrow> (default_host, t @ [''Defaulting to localhost:3000'']) | Some x \<Rightarrow> (x, t))
           in if from_string (ip h) = None then None
              else case an_connect net of
                Some m \<Rightarrow> Some (Inr (- 1, [], map ALine (t1 @ [''connect failed: '' @ m @ '' on '' @ show_endpoint h])))
              | None \<Rightarrow>
                  (let t2 = t1 @ [case an_write net of None \<Rightarrow> ''Client sent hello message!'' | Some m \<Rightarrow> ''send failed: '' @ m];
                       buf = an_read net @ replicate (ECHO_BUF - length (an_read net)) 0;
                       t3 = t2 @ [''Revieved len : '' @ dec_string (length (an_read net))]
                   in Some (Inr (0, [hello_msg], map ALine t3 @
                        [case an_read_error net of
                           Some m \<Rightarrow> if an_eof net then EchoLine buf (length buf) else ALine (''receive failed: '' @ m)
                         | None \<Rightarrow> EchoLine buf (length buf)])))))"

section \<open>What a connection gets back\<close>

text \<open>The messages a schedule delivers on one connection.\<close>

definition reads_of :: "nat \<Rightarrow> asio_label list \<Rightarrow> bytes list" where
  "reads_of i ls = concat (map (\<lambda>l. case l of ReadSome j d \<Rightarrow> if j = i then [d] else [] | _ \<Rightarrow> []) ls)"

lemma reads_of_snoc [simp]:
  "reads_of i [] = []"
  "reads_of i (ls @ [l]) = reads_of i ls @ (case l of ReadSome j d \<Rightarrow> if j = i then [d] else [] | _ \<Rightarrow> [])"
  by (simp_all add: reads_of_def)

definition co_past :: "bytes list \<Rightarrow> echo_co \<Rightarrow> bool" where
  "co_past rs c \<longleftrightarrow> length (co_data c) = ECHO_BUF \<and>
     (case co_pc c of
        AwaitRead \<Rightarrow> co_written c = concat rs
      | AwaitWrite n \<Rightarrow> (\<exists>r d. rs = r @ [d] \<and> co_written c = concat r \<and> n = length d \<and> take n (co_data c) = map Val d)
      | CoDone \<Rightarrow> (\<exists>r d. (rs = r \<or> rs = r @ [d]) \<and> co_written c = concat r))"

definition asio_past :: "asio_label list \<Rightarrow> asio_srv \<Rightarrow> bool" where
  "asio_past ls s \<longleftrightarrow>
     (\<forall>i<length (as_conns s). co_past (reads_of i ls) (as_conns s ! i)) \<and>
     (\<forall>i\<ge>length (as_conns s). reads_of i ls = [])"

lemma slot_bytes_Val [simp]: "slot_bytes (map Val d) = Inr d"
  by (induction d) auto

lemma echo_read_past:
  assumes "co_past rs c" "co_pc c = AwaitRead" "length d \<le> ECHO_BUF" "echo_read d c = Inr (l, c')"
  shows "co_past (rs @ [d]) c'"
  using assms by (auto simp: co_past_def echo_read_def store_read_def cbind_eq_Inr Let_def)

lemma echo_write_past:
  assumes "co_past rs c" "co_pc c = AwaitWrite n"
  shows "\<exists>c'. echo_write n c = Inr c' \<and> co_past rs c'"
  using assms by (auto simp: co_past_def echo_write_def)

lemma echo_fail_past: "co_past rs c \<Longrightarrow> co_past rs (c\<lparr>co_pc := CoDone\<rparr>)"
  by (auto simp: co_past_def split: co_pc.splits)

lemma asio_past_set:
  assumes "asio_past ls s" "i < length (as_conns s)" "co_past (reads_of i (ls @ [l])) c"
    and "\<forall>j. j \<noteq> i \<longrightarrow> reads_of j (ls @ [l]) = reads_of j ls"
  shows "asio_past (ls @ [l]) ((set_conn i c s)\<lparr>as_out := t\<rparr>)" "asio_past (ls @ [l]) (set_conn i c s)"
  using assms by (auto simp: asio_past_def set_conn_def nth_list_update simp del: reads_of_snoc)

lemma asio_past_step:
  assumes "asio_past ls s" "asio_step l s = Some (Inr t)"
  shows "asio_past (ls @ [l]) t"
proof (cases l)
  case Accepted
  with assms have t: "t = s\<lparr>as_conns := as_conns s @ [echo_new]\<rparr>" by (auto split: if_splits)
  have "co_past [] echo_new" by (simp add: co_past_def echo_new_def)
  with assms(1) t Accepted show ?thesis by (auto simp: asio_past_def nth_append less_Suc_eq)
next
  case (ReadSome i d)
  with assms(2) obtain m c where i: "i < length (as_conns s)" "co_pc (as_conns s ! i) = AwaitRead" "length d \<le> ECHO_BUF"
    "echo_read d (as_conns s ! i) = Inr (m, c)" and t: "t = (set_conn i c s)\<lparr>as_out := as_out s @ [m]\<rparr>"
    by (auto simp: cbind_eq_Inr split: if_splits prod.splits)
  have "co_past (reads_of i ls @ [d]) c"
    using assms(1) i by (intro echo_read_past) (auto simp: asio_past_def)
  then show ?thesis unfolding t using assms(1) i(1) ReadSome by (intro asio_past_set(1)) auto
next
  case (WriteDone i)
  with assms(2) obtain n c where i: "i < length (as_conns s)" "co_pc (as_conns s ! i) = AwaitWrite n"
    "echo_write n (as_conns s ! i) = Inr c" and t: "t = set_conn i c s"
    by (auto simp: cbind_eq_Inr split: if_splits co_pc.splits)
  have "co_past (reads_of i ls) c"
    using assms(1) i echo_write_past [of "reads_of i ls" "as_conns s ! i" n] by (auto simp: asio_past_def)
  then show ?thesis unfolding t using assms(1) i(1) WriteDone by (intro asio_past_set(2)) auto
next
  case (IoError i e)
  with assms(2) have i: "i < length (as_conns s)"
    and t: "t = (set_conn i ((as_conns s ! i)\<lparr>co_pc := CoDone\<rparr>) s)\<lparr>as_out := as_out s @ [EchoException e]\<rparr>"
    by (auto split: if_splits)
  have "co_past (reads_of i ls) ((as_conns s ! i)\<lparr>co_pc := CoDone\<rparr>)"
    using assms(1) i by (intro echo_fail_past) (simp add: asio_past_def)
  then show ?thesis unfolding t using assms(1) i IoError by (intro asio_past_set(1)) auto
next
  case StopSignal
  with assms have "t = s\<lparr>as_stopped := True\<rparr>" by (auto split: if_splits)
  with assms(1) StopSignal show ?thesis by (simp add: asio_past_def)
qed

lemma co_past_split:
  assumes "co_past rs c"
  shows "\<exists>done rest. rs = done @ rest \<and> length rest \<le> 1 \<and> co_written c = concat done \<and>
    (co_pc c = AwaitRead \<longrightarrow> rest = [])"
proof (cases "co_pc c")
  case AwaitRead
  with assms show ?thesis by (intro exI [of _ rs] exI [of _ "[]"]) (simp add: co_past_def)
next
  case (AwaitWrite n)
  with assms obtain r d where "rs = r @ [d]" "co_written c = concat r" by (auto simp: co_past_def)
  with AwaitWrite show ?thesis by (intro exI [of _ r] exI [of _ "[d]"]) simp
next
  case CoDone
  with assms obtain r d where "rs = r \<or> rs = r @ [d]" "co_written c = concat r" by (auto simp: co_past_def)
  with CoDone show ?thesis by (intro exI [of _ r] exI [of _ "if rs = r then [] else [d]"]) auto
qed

lemma asio_start_fresh:
  assumes "asio_start from_string can_bind argv = Inr s"
  shows "as_conns s = []"
proof -
  have "as_conns (listener_start from_string can_bind h t) = []" for h t by (simp add: listener_start_def Let_def)
  with assms show ?thesis by (auto simp: asio_start_def cbind_eq_Inr split: option.splits)
qed

lemma asio_past_fresh: "as_conns s = [] \<Longrightarrow> asio_past [] s"
  by (simp add: asio_past_def)

interpretation asr: schedule asio_step "\<lambda>s. as_conns s = []" asio_past
  by unfold_locales (rule asio_past_fresh, assumption, rule asio_past_step)

lemma asio_step_undef:
  assumes "asio_past ls s" "asio_step l s = Some (Inl e)"
  shows "\<exists>i d. l = ReadSome i d \<and> 0 \<notin> set d"
proof (cases l)
  case (ReadSome i d)
  with assms(2) have "echo_read d (as_conns s ! i) = Inl e"
    by (auto simp: cbind_def split: if_splits sum.splits)
  then have "0 \<notin> set d"
    using print_cbuf_stop [of d "drop (length d) (co_data (as_conns s ! i))"]
    by (auto simp: echo_read_def store_read_def cbind_def Let_def split: sum.splits)
  with ReadSome show ?thesis by blast
next
  case (WriteDone i)
  with assms(2) obtain n where "i < length (as_conns s)" "co_pc (as_conns s ! i) = AwaitWrite n"
    "echo_write n (as_conns s ! i) = Inl e"
    by (auto simp: cbind_def split: if_splits sum.splits co_pc.splits)
  with assms(1) echo_write_past [of "reads_of i ls" "as_conns s ! i" n] show ?thesis by (auto simp: asio_past_def)
qed (use assms(2) in \<open>auto split: if_splits\<close>)

text \<open>C5. However the completions of the connections interleave, each connection is sent back exactly the bytes
  it sent, in order and untouched by the others: everything it has received while it waits for input,
  everything but the last message while that is being written or after a failure. The only undefined step is
  the printing of a message without a zero byte.
\<close>

theorem asio_echo_isolation:
  assumes "asio_start from_string can_bind argv = Inr s0" "sched asio_step ls s0 = Some r"
  shows "(\<forall>s i. r = Inr s \<and> i < length (as_conns s) \<longrightarrow>
           (\<exists>done rest. reads_of i ls = done @ rest \<and> length rest \<le> 1 \<and> co_written (as_conns s ! i) = concat done \<and>
              (co_pc (as_conns s ! i) = AwaitRead \<longrightarrow> rest = []))) \<and>
         (\<forall>e. r = Inl e \<longrightarrow> (\<exists>i d. last ls = ReadSome i d \<and> 0 \<notin> set d))"
proof (intro conjI allI impI)
  note ini = asio_start_fresh [OF assms(1)]
  fix s i assume s: "r = Inr s \<and> i < length (as_conns s)"
  then have "co_past (reads_of i ls) (as_conns s ! i)"
    using asr.sched_past [OF ini, of ls s] assms(2) by (simp add: asio_past_def)
  then show "\<exists>done rest. reads_of i ls = done @ rest \<and> length rest \<le> 1 \<and> co_written (as_conns s ! i) = concat done \<and>
      (co_pc (as_conns s ! i) = AwaitRead \<longrightarrow> rest = [])"
    by (rule co_past_split)
next
  fix e assume "r = Inl e"
  with assms(2) asr.sched_undef [OF asio_start_fresh [OF assms(1)], of ls e] obtain pre l u where
    "ls = pre @ [l]" "asio_past pre u" "asio_step l u = Some (Inl e)" by blast
  with asio_step_undef [of pre u l e] show "\<exists>i d. last ls = ReadSome i d \<and> 0 \<notin> set d" by simp
qed

definition demo_asio :: "asio_label list" where
  "demo_asio = [Accepted, Accepted, ReadSome 0 [104, 0], ReadSome 1 [105, 0], WriteDone 1, WriteDone 0]"

theorem asio_echo_isolation_witness:
  "\<exists>s0 s. asio_start (\<lambda>a. Some a) (\<lambda>a p. True) [''server''] = Inr s0 \<and> sched asio_step demo_asio s0 = Some (Inr s) \<and>
     length (as_conns s) = 2 \<and> co_written (as_conns s ! 0) = [104, 0]"
proof -
  have "\<exists>s0. asio_start (\<lambda>a. Some a) (\<lambda>a p. True) [''server''] = Inr s0 \<and> as_conns s0 = [] \<and> as_listening s0 \<and> \<not> as_stopped s0"
    by (simp add: asio_start_def getHostFromArg_ip_port_def listener_start_def)
  then obtain s0 where s0: "asio_start (\<lambda>a. Some a) (\<lambda>a p. True) [''server''] = Inr s0"
    "as_conns s0 = []" "as_listening s0" "\<not> as_stopped s0" by blast
  have "(2 :: nat) \<le> ECHO_BUF" by (simp add: ECHO_BUF_def)
  then have "\<exists>s. sched asio_step demo_asio s0 = Some (Inr s) \<and> length (as_conns s) = 2 \<and> co_pc (as_conns s ! 0) = AwaitRead"
    using s0(2-4) by (simp add: demo_asio_def echo_read_def echo_write_def echo_new_def store_read_def set_conn_def numeral_2_eq_2)
  then obtain s where s: "sched asio_step demo_asio s0 = Some (Inr s)" "length (as_conns s) = 2"
    "co_pc (as_conns s ! 0) = AwaitRead" by blast
  have "reads_of 0 demo_asio = [[104, 0]]" by (simp add: reads_of_def demo_asio_def)
  with asio_echo_isolation [OF s0(1) s(1)] s(2,3) have "co_written (as_conns s ! 0) = [104, 0]" by force
  with s0(1) s show ?thesis by blast
qed

section \<open>What is printed\<close>

text \<open>The first message of a connection is printed from a buffer nothing has been written to: without a zero byte in
  it the server reads unset bytes or past the buffer. The buffer is never cleared, so a later message that is
  shorter than an earlier one and has no zero byte is printed with the rest of the earlier one behind it.
\<close>

theorem asio_echo_prints:
  assumes "0 < length d" "length d \<le> ECHO_BUF" "0 \<notin> set d"
  shows "echo_read d echo_new = Inl (if length d < ECHO_BUF then Uninitialised else OutOfBounds) \<and>
    (\<forall>e. length d < length e \<and> length e \<le> ECHO_BUF \<and> 0 \<in> set (drop (length d) e) \<longrightarrow>
       (\<exists>l c c'. echo_read e echo_new = Inr (l, c) \<and>
          echo_read d c = Inr (EchoLine (d @ takeWhile (\<lambda>x. x \<noteq> 0) (drop (length d) e)) (length d), c')))"
proof (intro conjI allI impI)
  show "echo_read d echo_new = Inl (if length d < ECHO_BUF then Uninitialised else OutOfBounds)"
    using print_cbuf_fresh [OF assms(3,2)] by (simp add: echo_read_def echo_new_def)
next
  fix e :: bytes
  assume e: "length d < length e \<and> length e \<le> ECHO_BUF \<and> 0 \<in> set (drop (length d) e)"
  define rest where "rest = drop (length e) (replicate ECHO_BUF (Uninit :: u8 slot))"
  have "0 \<in> set e" using e in_set_dropD by metis
  then have "\<exists>l. echo_read e echo_new = Inr (l, \<lparr>co_pc = AwaitWrite (length e), co_data = map Val e @ rest, co_written = []\<rparr>)"
    by (simp add: echo_read_def echo_new_def store_read_def rest_def print_cbuf_stop)
  moreover have "store_read d (map Val e @ rest) = map Val (d @ drop (length d) e) @ rest"
    using e by (simp add: store_read_def drop_map)
  moreover have "print_cbuf (map Val (d @ drop (length d) e) @ rest) = Inr (takeWhile (\<lambda>x. x \<noteq> 0) (d @ drop (length d) e))"
    using e by (intro print_cbuf_stop) simp
  moreover have "takeWhile (\<lambda>x. x \<noteq> 0) (d @ drop (length d) e) = d @ takeWhile (\<lambda>x. x \<noteq> 0) (drop (length d) e)"
    using assms(3) by (intro takeWhile_append2) auto
  ultimately show "\<exists>l c c'. echo_read e echo_new = Inr (l, c) \<and>
      echo_read d c = Inr (EchoLine (d @ takeWhile (\<lambda>x. x \<noteq> 0) (drop (length d) e)) (length d), c')"
    by (fastforce simp: echo_read_def [of d])
qed

theorem asio_echo_prints_witness:
  "\<exists>l c c'. echo_read [104, 101, 108, 108, 111, 0] echo_new = Inr (l, c) \<and>
     echo_read [72, 105] c = Inr (EchoLine [72, 105, 108, 108, 111] (Suc (Suc 0)), c')"
proof -
  have "0 \<notin> set [72, 105 :: u8]" "(0 :: nat) < length [72, 105 :: u8]" "length [72, 105 :: u8] \<le> ECHO_BUF"
    "length [104, 101, 108, 108, 111, 0 :: u8] \<le> ECHO_BUF" by (simp_all add: ECHO_BUF_def)
  with conjunct2 [OF asio_echo_prints [of "[72, 105]"], rule_format, of "[104, 101, 108, 108, 111, 0]"]
  show ?thesis by simp
qed

section \<open>The client\<close>

text \<open>A client that connects leaves with 0 and prints all 1024 characters of its buffer whatever length it
  received, the message followed by zeros, unless the read failed other than by the end of the stream.
\<close>

theorem asio_client_output:
  assumes "from_string ''127.0.0.1'' = Some a" "an_connect net = None" "length (an_read net) \<le> ECHO_BUF"
    and "an_read_error net = None \<or> an_eof net"
  shows "\<exists>t. asio_client from_string show_endpoint net [prog] = Some (Inr (0, [hello_msg], t)) \<and>
     last t = EchoLine (an_read net @ replicate (ECHO_BUF - length (an_read net)) 0) ECHO_BUF"
  using assms
  by (auto simp: asio_client_def getHostFromArg_ip_port_def default_host_def Let_def split: option.splits)

theorem asio_client_output_witness:
  "\<exists>t. asio_client (\<lambda>a. Some a) ip \<lparr>an_connect = None, an_write = None, an_read = [104, 105], an_read_error = None, an_eof = False\<rparr>
         [''client''] = Some (Inr (0, [hello_msg], t)) \<and> last t = EchoLine ([104, 105] @ replicate 1022 0) 1024"
  using asio_client_output [of "\<lambda>a. Some a" "''127.0.0.1''"
      "\<lparr>an_connect = None, an_write = None, an_read = [104, 105], an_read_error = None, an_eof = False\<rparr>" ip "''client''"]
  by (simp add: ECHO_BUF_def)

section \<open>UDP coroutines\<close>

text \<open>
  \<open>udp_echo\<close> and \<open>udp_listener\<close>, which \<open>main\<close> does not start. The listener binds one socket after the other to the same endpoint
  without ever suspending; the answer to the \<open>n\<close>-th attempt is \<open>binds n\<close>. A failed attempt is an exception that ends the
  detached coroutine; \<open>None\<close> is an endless loop.
\<close>

definition udp_echo_round :: "bytes \<Rightarrow> echo_co \<Rightarrow> (asio_line \<times> echo_co) cexec" where
  "udp_echo_round d c = cbind (echo_read d c) (\<lambda>(l, c1). cbind (echo_write (length d) c1) (\<lambda>c2. Inr (l, c2)))"

definition udp_bind :: "(nat \<Rightarrow> bool) \<Rightarrow> nat \<Rightarrow> echo_co list \<Rightarrow> echo_co list + echo_co list" where
  "udp_bind binds n spawned = (if binds n then Inl (spawned @ [echo_new]) else Inr spawned)"

definition udp_listener ::
  "(string \<Rightarrow> 'a option) \<Rightarrow> ('a \<Rightarrow> u16 \<Rightarrow> nat \<Rightarrow> bool) \<Rightarrow> host \<Rightarrow> (string list \<times> echo_co list) option" where
  "udp_listener from_string binds h =
     (case from_string (ip h) of
        None \<Rightarrow> Some ([], [])
      | Some a \<Rightarrow> map_option (\<lambda>cs. ([''Listening...''], cs)) (loop_from (udp_bind (binds a (port h))) 0 []))"

text \<open>
  An endpoint with an open socket cannot be bound again: the listener starts one echo coroutine and ends with the second
  attempt, or ends with the first one.
\<close>

lemma udp_listener_ends:
  assumes "from_string (ip h) = Some a" "\<not> binds a (port h) 1"
  shows "udp_listener from_string binds h = Some ([''Listening...''], if binds a (port h) 0 then [echo_new] else [])"
  using assms loop_from_returns [of "udp_bind (binds a (port h))" 0 1 "[]"] loop_from_returns [of "udp_bind (binds a (port h))" 0 0 "[]"]
  by (simp add: udp_listener_def udp_bind_def)

end
