(* ===== verification/Epoll_Server.thy ===== *)
theory Epoll_Server
  imports Epoll_Kernel
begin

text \<open>
  The epoll echo server (\<open>sockets/epoll/epoll_server.cc\<close>): the setup of \<open>main\<close>, the handling of one
  event, the \<open>for\<close> loop over the events of a wait and the \<open>while (true)\<close> loop as a step relation.
\<close>

section \<open>Setup\<close>

record ep_env =
  e_socket :: int
  e_fcntl :: int
  e_listen :: int
  e_errno :: int
  e_epoll :: int
  e_ctl :: int

definition ep_setup :: "ep_env \<Rightarrow> srv ctl" where
  "ep_setup env =
     (let s0 = \<lparr>opened = [], interest = [], ep_open = False, listen_sock = e_socket env, epfd = e_epoll env,
                conn_sock = None, srv_out = []\<rparr>;
          s1 = open_fd (e_socket env) s0
      in if e_fcntl env = - 1 then Stop (- 1) (emit (Print ''failed to set listening socket to be non blocking'') s1)
         else if e_listen env < 0 then Stop (- 1) (emit (PrintInt ''Listed failed '' (e_errno env)) s1)
         else
           let s2 = (open_fd (e_epoll env) s1)\<lparr>ep_open := (0 \<le> e_epoll env)\<rparr> in
           if e_ctl env = - 1 then Stop (- 1) (emit (Print ''failed initial epoll_ctl'') s2)
           else Next (ctl_add (e_socket env) (or (or EPOLLIN EPOLLOUT) EPOLLET) (listen_sock s2) s2))"

section \<open>Events\<close>

definition ep_accept :: "conn_in \<Rightarrow> srv \<Rightarrow> srv ctl" where
  "ep_accept c s =
     (let s1 = (open_fd (a_fd c) s)\<lparr>conn_sock := Some (a_fd c)\<rparr>
      in if a_fcntl c = - 1 then Stop (- 1) (emit (Print ''failed to set connected socket to be non blocking'') s1)
         else
           let s2 = emit (Connected (a_addr c) (ntohs (a_port c))) s1 in
           if a_ctl c = - 1 then Stop (- 1) (emit (Print ''failed epoll_ctl'') s2)
           else Next (ctl_add (a_fd c) (or (or (or EPOLLIN EPOLLET) EPOLLRDHUP) EPOLLHUP) (epfd s2) s2))"

text \<open>
  The \<open>do\<close> loop on \<open>conn_sock\<close>. The buffer is zeroed before each read and printed as a C string. Where
  the answers end the \<open>read\<close> does not return.
\<close>

fun ep_echo :: "(int \<Rightarrow> string) \<Rightarrow> int \<Rightarrow> rw list \<Rightarrow> srv \<Rightarrow> srv ctl" where
  "ep_echo strerror conn [] s = Stuck s"
| "ep_echo strerror conn (RdErr e # rs) s = Next (emit (ReadError (printReadError strerror e)) s)"
| "ep_echo strerror conn (RdEof # rs) s = Next (emit (Print ''No bytes read'') s)"
| "ep_echo strerror conn (RdData d w # rs) s =
     (case print_buf (d @ replicate (BUF_SIZE - length d) 0) of
        Inl u \<Rightarrow> Undef u
      | Inr txt \<Rightarrow>
          let s1 = emit (Data txt) s in
          if w < 0 then Next (emit (Print ''write error'') s1)
          else ep_echo strerror conn rs (emit (Wrote conn (take (nat w) d)) s1))"

definition ep_hangup :: "ev_in \<Rightarrow> srv \<Rightarrow> srv ctl" where
  "ep_hangup e s =
     (if hangup (ev_mask e) then
        let s1 = emit (Print ''connection closed'') s
        in Next (close_fd (ev_data e) (ctl_del (ev_data e) s1))
      else Next s)"

definition ep_event :: "(int \<Rightarrow> string) \<Rightarrow> ev_in \<Rightarrow> srv \<Rightarrow> srv ctl" where
  "ep_event strerror e s =
     andthen
       (if ev_data e = listen_sock s then ep_accept (ev_accept e) s
        else if has_any (ev_mask e) EPOLLIN then
          (case conn_sock s of None \<Rightarrow> Undef Uninitialised | Some conn \<Rightarrow> ep_echo strerror conn (ev_reads e) s)
        else Next (emit (Print ''unexpected event'') s))
       (ep_hangup e)"

definition ep_events :: "(int \<Rightarrow> string) \<Rightarrow> ev_in list \<Rightarrow> srv \<Rightarrow> srv ctl" where
  "ep_events strerror = for_events (ep_event strerror)"

inductive ep_step :: "(int \<Rightarrow> string) \<Rightarrow> srv ctl \<Rightarrow> srv ctl \<Rightarrow> bool" for strerror where
  ep_iteration: "wait_ok s nfds evs \<Longrightarrow> ep_step strerror (Next s) (ep_events strerror evs s)"

inductive_cases ep_step_elim: "ep_step strerror m m'"

text \<open>
  The documented answers of the setup calls: \<open>fcntl\<close> and \<open>listen\<close> fail on a negative descriptor, and
  the new descriptors differ.
\<close>

definition ep_env_ok :: "ep_env \<Rightarrow> bool" where
  "ep_env_ok env \<longleftrightarrow>
     (e_socket env < 0 \<longrightarrow> e_fcntl env = - 1) \<and>
     (e_epoll env < 0 \<longrightarrow> e_ctl env = - 1) \<and>
     e_epoll env \<noteq> e_socket env"

definition ep_init :: "srv ctl \<Rightarrow> bool" where
  "ep_init m \<longleftrightarrow> (\<exists>env. ep_env_ok env \<and> m = ep_setup env)"

section \<open>The echo loop\<close>

text \<open>The bytes written to a descriptor so far.\<close>

definition written :: "int \<Rightarrow> srv_event list \<Rightarrow> bytes" where
  "written fd evs = concat (map (\<lambda>e. case e of Wrote f bs \<Rightarrow> if f = fd then bs else [] | _ \<Rightarrow> []) evs)"

lemma written_append [simp]: "written fd (xs @ ys) = written fd xs @ written fd ys"
  by (simp add: written_def)

lemma written_simps [simp]:
  "written fd [] = []" "written fd (Wrote f bs # es) = (if f = fd then bs @ written fd es else written fd es)"
  "written fd (Data d # es) = written fd es" "written fd (Print p # es) = written fd es"
  by (simp_all add: written_def)

lemma print_buf_Inl: "print_buf b = Inl u \<longleftrightarrow> u = OutOfBounds \<and> 0 \<notin> set b"
  by (auto simp: print_buf_def)

lemma print_buf_padded:
  assumes "length d \<le> BUF_SIZE"
  shows "(\<exists>t. print_buf (d @ replicate (BUF_SIZE - length d) 0) = Inr t) \<longleftrightarrow> length d < BUF_SIZE \<or> 0 \<in> set d"
  using assms by (auto simp: print_buf_def)

text \<open>Reads that are all written back, before whatever follows them.\<close>

lemma ep_echo_writes_then:
  assumes "\<forall>(d, w)\<in>set dw. length d \<le> BUF_SIZE \<and> (length d < BUF_SIZE \<or> 0 \<in> set d) \<and> w = int (length d)"
  shows "\<exists>t. ep_echo strerror conn (map (case_prod RdData) dw @ rs) s = ep_echo strerror conn rs t \<and>
    written conn (srv_out t) = written conn (srv_out s) @ concat (map fst dw)"
  using assms
proof (induction dw arbitrary: s)
  case (Cons x dw)
  obtain d w where x: "x = (d, w)" by (cases x)
  then have d: "length d \<le> BUF_SIZE" "length d < BUF_SIZE \<or> 0 \<in> set d" "w = int (length d)"
    using Cons.prems by auto
  then obtain t where "print_buf (d @ replicate (BUF_SIZE - length d) 0) = Inr t"
    using print_buf_padded by blast
  moreover have "\<forall>(d, w)\<in>set dw. length d \<le> BUF_SIZE \<and> (length d < BUF_SIZE \<or> 0 \<in> set d) \<and> w = int (length d)"
    using Cons.prems by simp
  note Cons.IH [OF this, of "emit (Wrote conn d) (emit (Data t) s)"]
  ultimately show ?case using d by (auto simp: x Let_def)
qed auto

lemma ep_echo_writes:
  assumes "\<forall>(d, w)\<in>set dw. length d \<le> BUF_SIZE \<and> (length d < BUF_SIZE \<or> 0 \<in> set d) \<and> w = int (length d)"
  shows "\<exists>t. ep_echo strerror conn (map (case_prod RdData) dw @ RdEof # rs) s = Next t \<and>
    written conn (srv_out t) = written conn (srv_out s) @ concat (map fst dw)"
  using ep_echo_writes_then [OF assms, of strerror conn "RdEof # rs" s] by auto

text \<open>The server echoes: when every write takes what it is given and no read fills the buffer without
  a zero byte, the bytes written to the connection are the bytes read from it, in order, up to the
  end of the stream.\<close>

theorem ep_echo_identity:
  assumes "\<forall>(d, w)\<in>set dw. length d \<le> BUF_SIZE \<and> (length d < BUF_SIZE \<or> 0 \<in> set d) \<and> w = int (length d)"
  shows "\<exists>t. ep_echo strerror conn (map (case_prod RdData) dw @ RdEof # rs) s = Next t \<and>
    written conn (srv_out t) = written conn (srv_out s) @ concat (map fst dw)"
  using assms by (rule ep_echo_writes)

definition demo_srv :: srv where
  "demo_srv = \<lparr>opened = [5, 4, 3], interest = [(5, 0x80002011, 4), (3, 0x80000005, 3)], ep_open = True,
     listen_sock = 3, epfd = 4, conn_sock = Some 5, srv_out = []\<rparr>"

theorem ep_echo_identity_witness:
  "\<exists>t. ep_echo (\<lambda>_. []) 5 [RdData [104, 105] 2, RdData [33] 1, RdEof] demo_srv = Next t \<and>
     written 5 (srv_out t) = [104, 105, 33]"
  using ep_echo_identity [of "[([104, 105], 2), ([33], 1)]" "\<lambda>_. []" 5 "[]" demo_srv]
  by (simp add: BUF_SIZE_def demo_srv_def)

text \<open>Printing the received bytes as a C string leaves the buffer exactly when a read fills all 256
  bytes of it without a zero byte.\<close>

theorem ep_echo_overread:
  assumes "rw_ok (RdData d w)"
  shows "ep_echo strerror conn [RdData d w] s = Undef OutOfBounds \<longleftrightarrow> length d = 256 \<and> 0 \<notin> set d"
  using assms by (auto simp: rw_ok_def print_buf_def BUF_SIZE_def Let_def)

theorem ep_echo_overread_witness:
  "ep_echo (\<lambda>_. []) 5 [RdData (replicate 256 65) 256] demo_srv = Undef OutOfBounds"
  using ep_echo_overread [of "replicate 256 65" 256 "\<lambda>_. []" 5 demo_srv]
  by (simp add: rw_ok_def BUF_SIZE_def)

section \<open>Invariant\<close>

text \<open>
  Every registration carries the listening descriptor, for itself, or \<open>epfd\<close>, for every connection; a
  connection is registered only after \<open>conn_sock\<close> was set; no connection is ever closed.
\<close>

definition ep_reg_ok :: "srv \<Rightarrow> int \<times> u32 \<times> int \<Rightarrow> bool" where
  "ep_reg_ok s r \<longleftrightarrow> (case r of (fd, ev, d) \<Rightarrow>
     d = listen_sock s \<or> (d = epfd s \<and> conn_sock s \<noteq> None))"

definition ep_inv :: "srv \<Rightarrow> bool" where
  "ep_inv s \<longleftrightarrow> listen_sock s \<noteq> epfd s \<and> list_all (ep_reg_ok s) (interest s) \<and>
     (\<forall>fd. CloseFd fd \<in> set (srv_out s) \<longrightarrow> fd = listen_sock s \<or> fd = epfd s)"

abbreviation ep_ctl_inv :: "srv ctl \<Rightarrow> bool" where
  "ep_ctl_inv \<equiv> ctl_inv ep_inv (\<lambda>u. u = OutOfBounds)"

definition ep_keeps :: "srv \<Rightarrow> srv \<Rightarrow> bool" where
  "ep_keeps s t \<longleftrightarrow> listen_sock t = listen_sock s \<and> epfd t = epfd s \<and> (ep_open t \<longrightarrow> ep_open s) \<and>
     (conn_sock s \<noteq> None \<longrightarrow> conn_sock t \<noteq> None) \<and> set (opened s) - {listen_sock s, epfd s} \<subseteq> set (opened t)"

lemma ep_keeps_refl [simp]: "ep_keeps s s"
  by (simp add: ep_keeps_def)

lemma ep_keeps_trans: "ep_keeps s t \<Longrightarrow> ep_keeps t u \<Longrightarrow> ep_keeps s u"
  unfolding ep_keeps_def by auto

lemma ep_keeps_emit [simp]: "ep_keeps s (emit e t) = ep_keeps s t"
  by (simp add: ep_keeps_def)

lemma ep_keeps_emit_left [simp]: "ep_keeps (emit e s) = ep_keeps s"
  by (simp add: ep_keeps_def fun_eq_iff)

lemma ep_inv_emit:
  "ep_inv s \<Longrightarrow> (\<And>fd. e \<noteq> CloseFd fd) \<Longrightarrow> ep_inv (emit e s)"
  by (auto simp: ep_inv_def ep_reg_ok_def [abs_def])

abbreviation ep_good :: "srv \<Rightarrow> srv ctl \<Rightarrow> bool" where
  "ep_good s \<equiv> ctl_inv (\<lambda>t. ep_inv t \<and> ep_keeps s t) (\<lambda>u. u = OutOfBounds)"

lemma ep_echo_inv: "ep_inv s \<Longrightarrow> ep_good s (ep_echo strerror conn rs s)"
proof (induction strerror conn rs s rule: ep_echo.induct)
  case (4 strerror conn d w rs s)
  then show ?case
    by (auto simp: Let_def print_buf_Inl intro!: ep_inv_emit split: sum.splits)
qed (auto intro!: ep_inv_emit)

lemma ep_accept_inv: "ep_inv s \<Longrightarrow> ep_good s (ep_accept c s)"
  by (auto simp: ep_accept_def ep_inv_def ep_reg_ok_def [abs_def] ep_keeps_def Let_def list_all_iff)

lemma ep_hangup_inv:
  assumes "ep_inv s" "ev_data e \<in> {listen_sock s, epfd s}"
  shows "ep_good s (ep_hangup e s)"
  using assms
  by (auto simp: ep_hangup_def ep_inv_def ep_reg_ok_def [abs_def] ep_keeps_def Let_def list_all_iff)

definition ep_ev_ok :: "srv \<Rightarrow> ev_in \<Rightarrow> bool" where
  "ep_ev_ok s e \<longleftrightarrow> ev_data e \<in> {listen_sock s, epfd s} \<and> (ev_data e = epfd s \<longrightarrow> conn_sock s \<noteq> None)"

lemma ep_event_inv:
  assumes "ep_inv s" "ep_ev_ok s e"
  shows "ep_good s (ep_event strerror e s)"
  unfolding ep_event_def
proof (rule ctl_inv_bind [where Q = "\<lambda>t. ep_inv t \<and> ep_keeps s t"])
  show "ctl_inv (\<lambda>t. (ep_inv t \<and> ep_keeps s t) \<and> ep_inv (id t) \<and> ep_keeps s (id t)) (\<lambda>u. u = OutOfBounds)
     (if ev_data e = listen_sock s then ep_accept (ev_accept e) s
      else if has_any (ev_mask e) EPOLLIN then
        (case conn_sock s of None \<Rightarrow> Undef Uninitialised | Some conn \<Rightarrow> ep_echo strerror conn (ev_reads e) s)
      else Next (emit (Print ''unexpected event'') s))"
    using assms ep_accept_inv [OF assms(1)] ep_echo_inv [OF assms(1)]
    by (auto simp: ep_ev_ok_def ep_inv_emit split: option.splits)
  show "ep_good s (ep_hangup e t)" if "ep_inv t \<and> ep_keeps s t" for t
  proof -
    have "ep_good t (ep_hangup e t)"
      using ep_hangup_inv [of t e] assms(2) that by (auto simp: ep_keeps_def ep_ev_ok_def)
    then show ?thesis using that by (auto elim!: ctl_inv_mono intro: ep_keeps_trans)
  qed
qed

interpretation epl: event_loop "ep_event strerror" ep_inv ep_keeps ep_ev_ok "\<lambda>u. u = OutOfBounds"
proof
  show "ep_ev_ok s e \<Longrightarrow> ep_keeps s t \<Longrightarrow> ep_ev_ok t e" for s e t
    by (auto simp: ep_ev_ok_def ep_keeps_def)
qed (auto intro: ep_event_inv ep_keeps_trans)

lemma ep_wait_data:
  assumes "ep_inv s" "wait_ok s nfds evs"
  shows "\<forall>e\<in>set evs. ep_ev_ok s e"
  using assms by (fastforce simp: ep_ev_ok_def ep_inv_def wait_ok_def ep_reg_ok_def [abs_def] list_all_iff)

lemma ep_events_inv:
  "ep_inv s \<Longrightarrow> \<forall>e\<in>set evs. ep_ev_ok s e \<Longrightarrow> ep_good s (ep_events strerror evs s)"
  unfolding ep_events_def by (rule epl.for_events_inv)

lemma ep_setup_inv: "ep_env_ok env \<Longrightarrow> ep_ctl_inv (ep_setup env)"
  by (auto simp: ep_setup_def ep_env_ok_def ep_inv_def ep_reg_ok_def Let_def)

interpretation ep: inductive_invariant ep_init "ep_step strerror" ep_ctl_inv
proof
  show "ep_ctl_inv m" if "ep_init m" for m
    using that by (auto simp: ep_init_def intro: ep_setup_inv)
  show "ep_ctl_inv m'" if "ep_ctl_inv m" "ep_step strerror m m'" for m m'
    using that(2)
  proof (cases rule: ep_step.cases)
    case (ep_iteration s nfds evs)
    then have "ep_inv s" using that(1) by simp
    then have "ep_good s (ep_events strerror evs s)" using ep_iteration ep_wait_data ep_events_inv by blast
    then show ?thesis using ep_iteration by (auto elim: ctl_inv_mono)
  qed
qed


lemma ep_event_hangup:
  assumes "ep_inv s" "ep_ev_ok s e" "ep_event strerror e s = Next t"
    and "hangup (ev_mask e)" "ev_data e \<noteq> listen_sock s"
  shows "\<not> ep_open t"
proof -
  have k: "ep_keeps s t" using ep_event_inv [OF assms(1,2), of strerror] assms(3) by simp
  have "ev_data e = epfd s" using assms(2,5) by (simp add: ep_ev_ok_def)
  moreover obtain s' where "ep_hangup e s' = Next t"
    using assms(3) by (auto simp: ep_event_def elim: ctl_bind.elims)
  ultimately show ?thesis using assms(4) k by (auto simp: ep_hangup_def Let_def ep_keeps_def)
qed

lemma ep_events_hangup:
  assumes "ep_inv s" "\<forall>e\<in>set evs. ep_ev_ok s e" "ep_events strerror evs s = Next t"
    and "e \<in> set evs" "hangup (ev_mask e)" "ev_data e \<noteq> listen_sock s"
  shows "\<not> ep_open t"
  using assms
proof (induction evs arbitrary: s)
  case (Cons x evs)
  obtain v where v: "ep_event strerror x s = Next v" "ep_events strerror evs v = Next t"
    using Cons.prems(3) by (cases "ep_event strerror x s") (auto simp: ep_events_def)
  have x: "ep_ev_ok s x" using Cons.prems(2) by simp
  have k: "ep_inv v" "ep_keeps s v" using ep_event_inv [OF Cons.prems(1) x, of strerror] v(1) by simp_all
  have d: "\<forall>e\<in>set evs. ep_ev_ok v e" using Cons.prems(2) k(2) epl.ev_ok_keeps by auto
  show ?case
  proof (cases "e = x")
    case True
    then have "\<not> ep_open v" using ep_event_hangup [OF Cons.prems(1) x v(1)] Cons.prems(5,6) by simp
    moreover have "ep_keeps v t" using ep_events_inv [OF k(1) d, of strerror] v(2) by simp
    ultimately show ?thesis by (simp add: ep_keeps_def)
  next
    case False
    then show ?thesis
      using Cons.IH [OF k(1) d v(2)] Cons.prems(4-6) k(2) by (simp add: ep_keeps_def)
  qed
qed simp

lemma ep_dead_stuck:
  assumes "\<not> ep_open s" "ep_step strerror (Next s) m"
  shows "m = Next s"
  using assms by (auto simp: wait_ok_def ep_events_def elim!: ep_step_elim)

lemma ep_dead_forever:
  assumes "reach (\<lambda>m. m = Next s) (ep_step strerror) m" "\<not> ep_open s"
  shows "m = Next s"
  using assms by (induction rule: reach.induct) (auto dest: ep_dead_stuck)

text \<open>C30. The first client that hangs up ends the service: the close event of a connection carries \<open>epfd\<close>,
  so the loop closes its own epoll object and leaves the connection open, and from then on no
  iteration handles an event or accepts a client.\<close>

theorem ep_hangup_ends_service:
  assumes "reach ep_init (ep_step strerror) (Next s)"
    and "wait_ok s nfds evs" "ep_events strerror evs s = Next t"
    and "e \<in> set evs" "hangup (ev_mask e)" "ev_data e \<noteq> listen_sock s"
  shows "\<not> ep_open t \<and> (\<forall>m. reach (\<lambda>x. x = Next t) (ep_step strerror) m \<longrightarrow> m = Next t) \<and>
    set (opened s) - {listen_sock s, epfd s} \<subseteq> set (opened t)"
proof -
  have i: "ep_inv s" using ep.reach_inv [OF assms(1)] by simp
  note d = ep_wait_data [OF i assms(2)]
  have "\<not> ep_open t" by (rule ep_events_hangup [OF i d assms(3-6)])
  moreover have "ep_keeps s t" using ep_events_inv [OF i d, of strerror] assms(3) by simp
  ultimately show ?thesis by (auto simp: ep_keeps_def dest: ep_dead_forever)
qed

section \<open>A run\<close>

definition demo_env :: ep_env where
  "demo_env = \<lparr>e_socket = 3, e_fcntl = 0, e_listen = 0, e_errno = 0, e_epoll = 4, e_ctl = 0\<rparr>"

definition demo_start :: srv where
  "demo_start = \<lparr>opened = [4, 3], interest = [(3, 0x80000005, 3)], ep_open = True,
     listen_sock = 3, epfd = 4, conn_sock = None, srv_out = []\<rparr>"

definition demo_conn :: ev_in where
  "demo_conn = \<lparr>ev_mask = 1, ev_data = 3,
     ev_accept = \<lparr>a_fd = 5, a_fcntl = 0, a_addr = ''10.0.0.9'', a_port = 0, a_ctl = 0\<rparr>, ev_reads = []\<rparr>"

definition demo_bye :: ev_in where
  "demo_bye = \<lparr>ev_mask = 0x2001, ev_data = 4,
     ev_accept = \<lparr>a_fd = - 1, a_fcntl = - 1, a_addr = [], a_port = 0, a_ctl = - 1\<rparr>, ev_reads = [RdEof]\<rparr>"

definition demo_connected :: srv where
  "demo_connected = \<lparr>opened = [5, 4, 3], interest = [(5, 0x80002011, 4), (3, 0x80000005, 3)], ep_open = True,
     listen_sock = 3, epfd = 4, conn_sock = Some 5, srv_out = [Connected ''10.0.0.9'' 0]\<rparr>"

lemmas ep_run_simps = EPOLLIN_def EPOLLOUT_def EPOLLHUP_def EPOLLRDHUP_def EPOLLET_def has_any_def Let_def
  emit_def ctl_add_def ctl_del_def close_fd_def open_fd_def

lemma demo_setup: "ep_setup demo_env = Next demo_start"
  by (simp add: ep_setup_def demo_env_def demo_start_def ep_run_simps)

lemma demo_accept: "ep_events strerror [demo_conn] demo_start = Next demo_connected"
  by (simp add: ep_events_def ep_event_def ep_accept_def ep_hangup_def demo_conn_def demo_start_def
      demo_connected_def ep_run_simps htons_def)

lemma demo_reach_start: "reach ep_init (ep_step strerror) (Next demo_start)"
proof (rule reach_init)
  have "ep_env_ok demo_env" by (simp add: ep_env_ok_def demo_env_def)
  then show "ep_init (Next demo_start)" unfolding ep_init_def using demo_setup by metis
qed

lemma demo_reach: "reach ep_init (ep_step strerror) (Next demo_connected)"
proof (rule reach_step [OF demo_reach_start])
  have "wait_ok demo_start 1 [demo_conn]"
    by (simp add: wait_ok_def demo_start_def demo_conn_def MAX_EVENTS_def)
  then show "ep_step strerror (Next demo_start) (Next demo_connected)"
    using ep_iteration [of demo_start 1 "[demo_conn]" strerror] demo_accept by simp
qed


theorem ep_hangup_ends_service_witness:
  "\<exists>t. ep_events (\<lambda>_. []) [demo_bye] demo_connected = Next t \<and> \<not> ep_open t \<and> 5 \<in> set (opened t)"
proof -
  let ?s = demo_connected
  have w: "wait_ok ?s 1 [demo_bye]"
    by (simp add: wait_ok_def demo_connected_def demo_bye_def MAX_EVENTS_def rw_ok_def)
  obtain t where t: "ep_events (\<lambda>_. []) [demo_bye] ?s = Next t"
    by (simp add: ep_events_def ep_event_def ep_hangup_def demo_bye_def demo_connected_def ep_run_simps)
  have "hangup (ev_mask demo_bye)" by (simp add: demo_bye_def ep_run_simps)
  then show ?thesis
    using ep_hangup_ends_service [OF demo_reach w t, of demo_bye] t
    by (auto simp: demo_bye_def demo_connected_def)
qed

end
