(* ===== verification/Nghttp2_Session.thy ===== *)
theory Nghttp2_Session
  imports Epoll_Kernel
begin

text \<open>
  The session and stream objects of the HTTP/2 server and its nghttp2 callbacks
  (\<open>http2/nghttp2_server/nghttp2.h\<close>). Objects live in an explicit heap whose slots can be
  uninitialised and whose cells can be freed, so that the C object lifetimes are part of the model.
  The nghttp2 library and the kernel are parameters: their results are arguments.
\<close>

section \<open>Heap\<close>

record http2_stream_data =
  uri :: "nat option slot"
  parsed_url :: "nat option slot"
  authority :: "nat option slot"
  path :: "nat option slot"
  authoritylen :: "u64 slot"
  pathlen :: "u64 slot"
  stream_id :: "int slot"

record http2_session_data =
  session :: "nat option slot"
  stream_data :: "nat option slot"

datatype obj = StreamObj http2_stream_data | SessionObj http2_session_data | StrObj bytes | FreedObj

type_synonym heap = "obj list"

definition malloc :: "obj \<Rightarrow> heap \<Rightarrow> nat \<times> heap" where
  "malloc x h = (length h, h @ [x])"

definition free :: "nat option \<Rightarrow> heap \<Rightarrow> heap cexec" where
  "free p h = (case p of
     None \<Rightarrow> Inr h
   | Some a \<Rightarrow> cbind (rd h a) (\<lambda>x. if x = FreedObj then Inl DoubleFree else Inr (h[a := FreedObj])))"

definition deref :: "nat option \<Rightarrow> heap \<Rightarrow> obj cexec" where
  "deref p h = (case p of
     None \<Rightarrow> Inl NullPointer
   | Some a \<Rightarrow> cbind (rd h a) (\<lambda>x. if x = FreedObj then Inl UseAfterFree else Inr x))"

text \<open>A pointer of the wrong type does not occur in the program; reading through one is refused.\<close>

definition deref_session :: "nat option \<Rightarrow> heap \<Rightarrow> http2_session_data cexec" where
  "deref_session p h = cbind (deref p h) (\<lambda>x. case x of SessionObj d \<Rightarrow> Inr d | _ \<Rightarrow> Inl OutOfBounds)"

definition deref_stream :: "nat option \<Rightarrow> heap \<Rightarrow> http2_stream_data cexec" where
  "deref_stream p h = cbind (deref p h) (\<lambda>x. case x of StreamObj d \<Rightarrow> Inr d | _ \<Rightarrow> Inl OutOfBounds)"

section \<open>Object lifetimes\<close>

definition create_http2_stream_data :: "heap \<Rightarrow> nat \<times> heap" where
  "create_http2_stream_data h =
     malloc (StreamObj \<lparr>uri = Uninit, parsed_url = Uninit, authority = Uninit, path = Uninit,
       authoritylen = Uninit, pathlen = Uninit, stream_id = Uninit\<rparr>) h"

definition delete_http2_stream_data :: "nat option \<Rightarrow> heap \<Rightarrow> heap cexec" where
  "delete_http2_stream_data p h =
     cbind (deref_stream p h) (\<lambda>d.
     cbind (rd_slot (path d)) (\<lambda>pa. cbind (free pa h) (\<lambda>h1.
     cbind (rd_slot (authority d)) (\<lambda>au. cbind (free au h1) (\<lambda>h2.
     free p h2)))))"

definition create_http2_session_data :: "heap \<Rightarrow> nat \<times> heap" where
  "create_http2_session_data h = malloc (SessionObj \<lparr>session = Val None, stream_data = Val None\<rparr>) h"

text \<open>
  \<open>nghttp2_session_del\<close> accepts a null session and does not touch the program's objects. The writes
  of null to the two fields before the object is freed are kept.
\<close>

definition set_session :: "nat option \<Rightarrow> (http2_session_data \<Rightarrow> http2_session_data) \<Rightarrow> heap \<Rightarrow> heap cexec" where
  "set_session p f h = cbind (deref_session p h) (\<lambda>d. Inr (h[the p := SessionObj (f d)]))"

definition delete_http2_session_data :: "nat option \<Rightarrow> heap \<Rightarrow> heap cexec" where
  "delete_http2_session_data p h =
     cbind (deref_session p h) (\<lambda>d.
     cbind (rd_slot (session d)) (\<lambda>_.
     cbind (set_session p (\<lambda>d. d\<lparr>session := Val None\<rparr>) h) (\<lambda>h1.
     cbind (rd_slot (stream_data d)) (\<lambda>st.
     cbind (if st \<noteq> None
            then cbind (delete_http2_stream_data st h1) (\<lambda>h2. set_session p (\<lambda>d. d\<lparr>stream_data := Val None\<rparr>) h2)
            else Inr h1) (\<lambda>h3.
     free p h3)))))"

text \<open>
  \<open>nghttp2_session_server_new\<close> stores a session through the pointer when it succeeds (\<open>Some\<close> handle)
  and leaves the field as it was when it does not; its result is not looked at.
\<close>

definition initialize_nghttp2_session :: "nat option \<Rightarrow> nat option \<Rightarrow> heap \<Rightarrow> heap cexec" where
  "initialize_nghttp2_session new p h =
     (case new of
        None \<Rightarrow> cbind (deref_session p h) (\<lambda>_. Inr h)
      | Some sess \<Rightarrow> set_session p (\<lambda>d. d\<lparr>session := Val (Some sess)\<rparr>) h)"

definition session_send :: "(nat option \<Rightarrow> int) \<Rightarrow> nat option \<Rightarrow> heap \<Rightarrow> int cexec" where
  "session_send nghttp2_session_send p h =
     cbind (deref_session p h) (\<lambda>d. cbind (rd_slot (session d)) (\<lambda>sess.
     Inr (if nghttp2_session_send sess \<noteq> 0 then - 1 else 0)))"

text \<open>The body of \<open>session_recv\<close> is commented out up to its result.\<close>

definition session_recv :: "nat option \<Rightarrow> int" where
  "session_recv p = 0"

definition send_server_connection_header ::
  "(nat option \<Rightarrow> (u16 \<times> u32) list \<Rightarrow> int) \<Rightarrow> nat option \<Rightarrow> heap \<Rightarrow> int cexec" where
  "send_server_connection_header nghttp2_submit_settings p h =
     cbind (deref_session p h) (\<lambda>d. cbind (rd_slot (session d)) (\<lambda>sess.
     let NGHTTP2_SETTINGS_MAX_CONCURRENT_STREAMS = 3;
         iv = [(NGHTTP2_SETTINGS_MAX_CONCURRENT_STREAMS, 100)];
         rv = nghttp2_submit_settings sess iv
     in Inr (if rv \<noteq> 0 then - 1 else 0)))"

section \<open>Callbacks\<close>

datatype frame_type = NGHTTP2_DATA | NGHTTP2_HEADERS | OtherFrame nat

record frame =
  frame_ty :: frame_type
  frame_stream :: int
  frame_flags :: u8
  headers_cat :: nat

definition NGHTTP2_HCAT_REQUEST :: nat where "NGHTTP2_HCAT_REQUEST = 0"
definition NGHTTP2_FLAG_END_STREAM :: u8 where "NGHTTP2_FLAG_END_STREAM = 1"
definition NGHTTP2_DATA_FLAG_EOF :: u32 where "NGHTTP2_DATA_FLAG_EOF = 1"
definition NGHTTP2_ERR_TEMPORAL_CALLBACK_FAILURE :: int where "NGHTTP2_ERR_TEMPORAL_CALLBACK_FAILURE = - 521"

text \<open>
  Each callback takes the lines it has printed so far and returns its result with them; a callback
  that frees takes and returns the heap too. \<open>user_data\<close> is the answer of
  \<open>nghttp2_session_get_stream_user_data\<close> for a stream.
\<close>

type_synonym lines = "string list"

definition send_callback :: "bytes \<Rightarrow> lines \<Rightarrow> int \<times> lines" where
  "send_callback data out = (0, out @ [''*** Hit send_callback''])"

definition on_header_callback :: "(int \<Rightarrow> nat option) \<Rightarrow> frame \<Rightarrow> bytes \<Rightarrow> bytes \<Rightarrow> lines \<Rightarrow> int \<times> lines" where
  "on_header_callback user_data fr name val out =
     (let out1 = out @ [''on_header_callback''] in
      case frame_ty fr of
        NGHTTP2_HEADERS \<Rightarrow> if headers_cat fr \<noteq> NGHTTP2_HCAT_REQUEST then (0, out1) else (0, out1)
      | _ \<Rightarrow> (0, out1))"

definition on_begin_headers_callback :: "frame \<Rightarrow> lines \<Rightarrow> int \<times> lines" where
  "on_begin_headers_callback fr out =
     (let out1 = out @ [''on_begin_headers_callback''] in
      if frame_ty fr \<noteq> NGHTTP2_HEADERS \<or> headers_cat fr \<noteq> NGHTTP2_HCAT_REQUEST then (0, out1) else (0, out1))"

definition on_request_recv :: "lines \<Rightarrow> int \<times> lines" where
  "on_request_recv out = (0, out @ [''on_request_recv''])"

definition on_frame_recv_callback :: "(int \<Rightarrow> nat option) \<Rightarrow> frame \<Rightarrow> lines \<Rightarrow> int \<times> lines" where
  "on_frame_recv_callback user_data fr out =
     (let out1 = out @ [''on_frame_recv_callback''] in
      if frame_ty fr = NGHTTP2_DATA \<or> frame_ty fr = NGHTTP2_HEADERS then
        if and (frame_flags fr) NGHTTP2_FLAG_END_STREAM \<noteq> 0 then
          (case user_data (frame_stream fr) of None \<Rightarrow> (0, out1) | Some st \<Rightarrow> on_request_recv out1)
        else (0, out1)
      else (0, out1))"

definition on_stream_close_callback :: "(int \<Rightarrow> nat option) \<Rightarrow> int \<Rightarrow> lines \<times> heap \<Rightarrow> (int \<times> lines \<times> heap) cexec" where
  "on_stream_close_callback user_data sid st =
     (case st of (out, h) \<Rightarrow>
      let out1 = out @ [''on_frame_recv_callback''] in
      case user_data sid of
        None \<Rightarrow> Inr (0, out1, h)
      | Some p \<Rightarrow> cbind (delete_http2_stream_data (Some p) h) (\<lambda>h'. Inr (0, out1, h')))"

section \<open>Responses\<close>

text \<open>
  \<open>file_read_callback\<close>: \<open>reads n\<close> is the \<open>n\<close>-th answer of \<open>read\<close> on the source's descriptor, the errno
  of a failure or the bytes. The loop repeats while a signal interrupts the call and may not end.
\<close>

definition EINTR :: int where "EINTR = 4"

partial_function (option) read_eintr :: "(nat \<Rightarrow> int + bytes) \<Rightarrow> nat \<Rightarrow> (int + bytes) option" where
  "read_eintr reads n = (if reads n = Inl EINTR then read_eintr reads (Suc n) else Some (reads n))"

definition file_read_callback :: "(nat \<Rightarrow> int + bytes) \<Rightarrow> u32 \<Rightarrow> (int \<times> bytes \<times> u32) option" where
  "file_read_callback reads data_flags =
     (case read_eintr reads 0 of
        None \<Rightarrow> None
      | Some (Inl e) \<Rightarrow> Some (NGHTTP2_ERR_TEMPORAL_CALLBACK_FAILURE, [], data_flags)
      | Some (Inr bs) \<Rightarrow>
          Some (int (length bs), bs, if bs = [] then or data_flags NGHTTP2_DATA_FLAG_EOF else data_flags))"

text \<open>
  \<open>send_response\<close> and \<open>error_reply\<close>: the descriptors the reply holds open, the bytes in the pipe and the
  submissions to nghttp2 are the state, with the lines on the standard output; warnings go to the standard error. The results of \<open>pipe\<close>, \<open>write\<close> and the nghttp2 calls are the environment.
\<close>

datatype submission =
    SubmitResponse int "(string \<times> string) list" int
  | SubmitRst int

record reply =
  r_out :: lines
  r_open :: "int list"
  r_pipe :: bytes
  r_sub :: "submission list"

record reply_env =
  pipe_rv :: "(int \<times> int) option"
  write_rv :: int
  submit_rv :: int
  rst_rv :: int

definition ERROR_HTML :: string where
  "ERROR_HTML = ''<html><head><title>404</title></head><body><h1>404 Not Found</h1></body></html>''"

definition send_response :: "reply_env \<Rightarrow> int \<Rightarrow> (string \<times> string) list \<Rightarrow> int \<Rightarrow> reply \<Rightarrow> int \<times> reply" where
  "send_response env sid nva fd r =
     (let r1 = r\<lparr>r_out := r_out r @ [''send_response''], r_sub := r_sub r @ [SubmitResponse sid nva fd]\<rparr>
      in if submit_rv env \<noteq> 0 then (- 1, r1) else (0, r1))"

definition error_reply :: "reply_env \<Rightarrow> int \<Rightarrow> reply \<Rightarrow> int \<times> reply" where
  "error_reply env sid r =
     (let hdrs = [('':status'', ''404'')] in
      case pipe_rv env of
        None \<Rightarrow>
          let r1 = r\<lparr>r_sub := r_sub r @ [SubmitRst sid]\<rparr>
          in if rst_rv env \<noteq> 0 then (- 1, r1) else (0, r1)
      | Some (p0, p1) \<Rightarrow>
          let r1 = r\<lparr>r_open := p1 # p0 # r_open r\<rparr>;
              r2 = r1\<lparr>r_pipe := take (nat (write_rv env)) (str_bytes ERROR_HTML)\<rparr>;
              r3 = r2\<lparr>r_open := removeAll p1 (r_open r2)\<rparr>
          in if write_rv env \<noteq> int (length ERROR_HTML) then (- 1, r3\<lparr>r_open := removeAll p0 (r_open r3)\<rparr>)
             else
               let (rv, r4) = send_response env sid hdrs p0 r3
               in if rv \<noteq> 0 then (- 1, r4\<lparr>r_open := removeAll p0 (r_open r4)\<rparr>) else (0, r4))"

section \<open>The allocator\<close>

definition live :: "heap \<Rightarrow> nat \<Rightarrow> bool" where
  "live h a \<longleftrightarrow> a < length h \<and> h ! a \<noteq> FreedObj"

interpretation al: allocator "\<lambda>a. free (Some a)" live
proof
  fix h p
  show "\<exists>h'. free (Some p) h = Inr h' \<and> (\<forall>q. live h' q \<longleftrightarrow> live h q \<and> q \<noteq> p)" if "live h p"
    using that by (auto simp: free_def live_def nth_list_update)
  show "\<exists>e. free (Some p) h = Inl e" if "\<not> live h p"
    using that by (cases "p < length h") (auto simp: free_def live_def)
qed

definition ptrs :: "nat option list \<Rightarrow> nat list" where
  "ptrs ps = concat (map (\<lambda>p. case p of None \<Rightarrow> [] | Some a \<Rightarrow> [a]) ps)"

lemma ptrs_simps [simp]: "ptrs [] = []" "ptrs (None # ps) = ptrs ps" "ptrs (Some a # ps) = a # ptrs ps"
  by (simp_all add: ptrs_def)

lemma free_None [simp]: "free None h = Inr h"
  by (simp add: free_def)

lemma cbind_Inr_right [simp]: "cbind m Inr = m"
  by (simp add: cbind_def split: sum.splits)

lemma delete_stream_eq:
  assumes "deref_stream (Some a) h = Inr d"
  shows "delete_http2_stream_data (Some a) h =
    cbind (rd_slot (path d)) (\<lambda>pa. cbind (free pa h) (\<lambda>h1. cbind (rd_slot (authority d)) (\<lambda>au.
      cbind (free au h1) (free (Some a)))))"
  by (simp add: delete_http2_stream_data_def assms)

lemma delete_stream_release:
  assumes "deref_stream (Some a) h = Inr d" "path d = Val pa" "authority d = Val au"
  shows "delete_http2_stream_data (Some a) h = release_all (\<lambda>a. free (Some a)) (ptrs [pa, au, Some a]) h"
  by (cases pa; cases au) (simp_all add: delete_stream_eq assms release_all_abs del: release_all.simps)

lemma delete_stream_unset:
  assumes "deref_stream (Some a) h = Inr d" "path d = Uninit \<or> authority d = Uninit"
  shows "delete_http2_stream_data (Some a) h \<noteq> Inr h'"
  using assms(2) by (cases "path d") (auto simp: delete_stream_eq [OF assms(1)] cbind_eq_Inr)

lemma delete_stream_iff:
  assumes "deref_stream (Some a) h = Inr d"
  shows "(\<exists>h'. delete_http2_stream_data (Some a) h = Inr h') \<longleftrightarrow>
    (\<exists>pa au. path d = Val pa \<and> authority d = Val au \<and>
       distinct (ptrs [pa, au, Some a]) \<and> (\<forall>q\<in>set (ptrs [pa, au, Some a]). live h q))"
proof (cases "path d = Uninit \<or> authority d = Uninit")
  case True
  then show ?thesis using delete_stream_unset [OF assms True] by auto
next
  case False
  then obtain pa au where v: "path d = Val pa" "authority d = Val au"
    by (cases "path d"; cases "authority d") auto
  show ?thesis
    unfolding delete_stream_release [OF assms v] al.release_all_iff v by simp
qed

text \<open>C9. Deleting a stream object succeeds exactly when its path and authority were set and are null or
  live objects, different from each other and from the stream; it then ends the life of these objects
  and of no other. A stream object fresh from \<open>create_http2_stream_data\<close>, whose fields are not set,
  cannot be deleted.\<close>

theorem delete_stream_lifetimes:
  assumes "deref_stream (Some a) h = Inr d"
  shows "((\<exists>h'. delete_http2_stream_data (Some a) h = Inr h') \<longleftrightarrow>
            (\<exists>pa au. path d = Val pa \<and> authority d = Val au \<and>
               distinct (ptrs [pa, au, Some a]) \<and> (\<forall>q\<in>set (ptrs [pa, au, Some a]). live h q))) \<and>
         (\<forall>h' pa au. delete_http2_stream_data (Some a) h = Inr h' \<and> path d = Val pa \<and> authority d = Val au \<longrightarrow>
            (\<forall>q. live h' q \<longleftrightarrow> live h q \<and> q \<notin> set (ptrs [pa, au, Some a]))) \<and>
         (case create_http2_stream_data h of (p, h1) \<Rightarrow> delete_http2_stream_data (Some p) h1 = Inl Uninitialised)"
proof (intro conjI allI impI)
  show "(\<exists>h'. delete_http2_stream_data (Some a) h = Inr h') \<longleftrightarrow>
      (\<exists>pa au. path d = Val pa \<and> authority d = Val au \<and>
         distinct (ptrs [pa, au, Some a]) \<and> (\<forall>q\<in>set (ptrs [pa, au, Some a]). live h q))"
    by (rule delete_stream_iff [OF assms])
  show "live h' q \<longleftrightarrow> live h q \<and> q \<notin> set (ptrs [pa, au, Some a])"
    if "delete_http2_stream_data (Some a) h = Inr h' \<and> path d = Val pa \<and> authority d = Val au" for h' pa au q
  proof -
    have "release_all (\<lambda>a. free (Some a)) (ptrs [pa, au, Some a]) h = Inr h'"
      using that delete_stream_release [OF assms, of pa au] by simp
    then show ?thesis by (rule al.release_all_live)
  qed
  show "case create_http2_stream_data h of (p, h1) \<Rightarrow> delete_http2_stream_data (Some p) h1 = Inl Uninitialised"
    by (simp add: create_http2_stream_data_def malloc_def delete_http2_stream_data_def deref_stream_def
        deref_def nth_append)
qed

theorem delete_stream_lifetimes_witness:
  "let h = [StrObj [47], StrObj [], StreamObj \<lparr>uri = Uninit, parsed_url = Uninit, authority = Val (Some 1), path = Val (Some 0),
      authoritylen = Val 0, pathlen = Val 1, stream_id = Val 1\<rparr>]
   in \<exists>h'. delete_http2_stream_data (Some 2) h = Inr h' \<and> \<not> live h' 0 \<and> \<not> live h' 1 \<and> \<not> live h' 2"
proof -
  let ?d = "\<lparr>uri = Uninit, parsed_url = Uninit, authority = Val (Some 1), path = Val (Some 0),
      authoritylen = Val 0, pathlen = Val 1, stream_id = Val 1\<rparr>"
  let ?h = "[StrObj [47], StrObj [], StreamObj ?d]"
  have d: "deref_stream (Some 2) ?h = Inr ?d" by (simp add: deref_stream_def deref_def)
  note del = delete_stream_lifetimes [OF d]
  obtain h' where h': "delete_http2_stream_data (Some 2) ?h = Inr h'"
    using conjunct1 [OF del] by (auto simp: live_def)
  then have "\<forall>q. live h' q \<longleftrightarrow> live ?h q \<and> q \<notin> {0, 1, 2}"
    using del by simp
  then show ?thesis using h' by simp
qed

section \<open>Sessions\<close>

lemma deref_session_nth:
  "h ! a = SessionObj d \<Longrightarrow> a < length h \<Longrightarrow> deref_session (Some a) h = Inr d"
  by (simp add: deref_session_def deref_def)

lemma delete_session_plain:
  assumes "h ! a = SessionObj d" "a < length h" "session d = Val x" "stream_data d = Val None"
  shows "delete_http2_session_data (Some a) h = Inr (h[a := FreedObj])"
  using assms by (simp add: delete_http2_session_data_def deref_session_nth set_session_def free_def)

lemma delete_session_uninit:
  assumes "h ! a = SessionObj d" "a < length h" "stream_data d = Uninit"
  shows "delete_http2_session_data (Some a) h = Inl Uninitialised"
  using assms by (cases "session d") (simp_all add: delete_http2_session_data_def deref_session_nth set_session_def)

lemma delete_session_freed:
  assumes "h ! a = FreedObj" "a < length h"
  shows "delete_http2_session_data (Some a) h = Inl UseAfterFree"
  using assms by (simp add: delete_http2_session_data_def deref_session_def deref_def)

text \<open>The life of a session object made by \<open>create_http2_session_data\<close>: initialising it, whether the
  library can make a session or not, and deleting it succeed, end its life and change no other object,
  and deleting it once more is a use after free.\<close>

theorem session_lifecycle:
  "case create_http2_session_data h of (p, h1) \<Rightarrow>
     \<exists>h2. initialize_nghttp2_session new (Some p) h1 = Inr h2 \<and>
          delete_http2_session_data (Some p) h2 = Inr (h @ [FreedObj]) \<and>
          delete_http2_session_data (Some p) (h @ [FreedObj]) = Inl UseAfterFree"
proof -
  let ?h1 = "h @ [SessionObj \<lparr>session = Val None, stream_data = Val None\<rparr>]"
  let ?h2 = "h @ [SessionObj \<lparr>session = Val new, stream_data = Val None\<rparr>]"
  have "initialize_nghttp2_session new (Some (length h)) ?h1 = Inr ?h2"
    by (cases new) (simp_all add: initialize_nghttp2_session_def deref_session_def deref_def set_session_def)
  moreover have "delete_http2_session_data (Some (length h)) ?h2 = Inr (h @ [FreedObj])"
    by (subst delete_session_plain) auto
  ultimately show ?thesis
    by (simp add: create_http2_session_data_def malloc_def delete_session_freed)
qed

section \<open>Replies\<close>

text \<open>\<open>error_reply\<close> returns 0 or -1. It leaves no descriptor open behind, except the read end of the pipe
  when the 404 response was submitted on it, and then the pipe holds the whole page; where no pipe can
  be made it resets the stream.\<close>

theorem error_reply_descriptors:
  assumes "\<forall>p0 p1. pipe_rv env = Some (p0, p1) \<longrightarrow> p0 \<noteq> p1 \<and> p0 \<notin> set (r_open r) \<and> p1 \<notin> set (r_open r)"
  shows "case error_reply env sid r of (rv, r') \<Rightarrow>
    (case pipe_rv env of
       None \<Rightarrow> rv = (if rst_rv env = 0 then 0 else - 1) \<and> r_open r' = r_open r \<and> r_sub r' = r_sub r @ [SubmitRst sid]
     | Some (p0, p1) \<Rightarrow>
         if write_rv env = int (length ERROR_HTML) \<and> submit_rv env = 0
         then rv = 0 \<and> r_open r' = p0 # r_open r \<and> r_pipe r' = str_bytes ERROR_HTML \<and>
              last (r_sub r') = SubmitResponse sid [('':status'', ''404'')] p0
         else rv = - 1 \<and> r_open r' = r_open r)"
  using assms
  by (auto simp: error_reply_def send_response_def Let_def str_bytes_def split: option.splits)

theorem error_reply_descriptors_witness:
  "r_open (snd (error_reply \<lparr>pipe_rv = Some (7, 8), write_rv = int (length ERROR_HTML), submit_rv = 0, rst_rv = 0\<rparr> 1
     \<lparr>r_out = [], r_open = [3], r_pipe = [], r_sub = []\<rparr>)) = [7, 3]"
  using error_reply_descriptors [of "\<lparr>pipe_rv = Some (7, 8), write_rv = int (length ERROR_HTML), submit_rv = 0, rst_rv = 0\<rparr>"
      "\<lparr>r_out = [], r_open = [3], r_pipe = [], r_sub = []\<rparr>" 1]
  by (simp split: prod.splits)

lemma read_eintr_step:
  "reads n = Inl EINTR \<Longrightarrow> read_eintr reads n = read_eintr reads (Suc n)"
  "reads n \<noteq> Inl EINTR \<Longrightarrow> read_eintr reads n = Some (reads n)"
  by (subst read_eintr.simps, simp)+

lemma read_eintr_first:
  "\<forall>i<k. reads (n + i) = Inl EINTR \<Longrightarrow> reads (n + k) \<noteq> Inl EINTR \<Longrightarrow> read_eintr reads n = Some (reads (n + k))"
proof (induction k arbitrary: n)
  case (Suc k)
  have "reads n = Inl EINTR" using Suc.prems(1) [rule_format, of 0] by simp
  moreover have "\<forall>i<k. reads (Suc n + i) = Inl EINTR"
    using Suc.prems(1) by (metis Suc_mono add_Suc_shift)
  then have "read_eintr reads (Suc n) = Some (reads (Suc n + k))"
    using Suc.IH [of "Suc n"] Suc.prems(2) by simp
  ultimately show ?case by (simp add: read_eintr_step(1))
qed (simp add: read_eintr_step(2))

text \<open>\<open>file_read_callback\<close> returns as soon as a read is not interrupted: with the number of bytes read and
  those bytes, setting the end-of-data flag exactly for an empty read, or with the temporal failure
  code and unchanged flags for an error.\<close>

theorem file_read_callback_first:
  assumes "\<forall>i<k. reads i = Inl EINTR" "reads k \<noteq> Inl EINTR"
  shows "\<exists>r bs fl. file_read_callback reads flags = Some (r, bs, fl) \<and>
    (case reads k of
       Inl e \<Rightarrow> r = NGHTTP2_ERR_TEMPORAL_CALLBACK_FAILURE \<and> fl = flags
     | Inr d \<Rightarrow> r = int (length d) \<and> bs = d \<and> (bit fl 0 \<longleftrightarrow> bit flags 0 \<or> d = []) \<and>
                (\<forall>i>0. bit fl i = bit flags i))"
proof -
  have "read_eintr reads 0 = Some (reads k)" using read_eintr_first [of k reads 0] assms by simp
  moreover have "bit (or flags NGHTTP2_DATA_FLAG_EOF) i \<longleftrightarrow> bit flags i \<or> i = 0" for i
    by (auto simp: NGHTTP2_DATA_FLAG_EOF_def bit_or_iff bit_1_iff)
  ultimately show ?thesis
    by (auto simp: file_read_callback_def split: sum.splits)
qed

theorem file_read_callback_first_witness:
  "\<exists>r bs fl. file_read_callback (\<lambda>n. if n < 2 then Inl EINTR else Inr []) 0 = Some (r, bs, fl) \<and> r = 0 \<and> bit fl 0"
  using file_read_callback_first [of 2 "\<lambda>n. if n < 2 then Inl EINTR else Inr []" 0] by auto

end
