(* ===== verification/Nghttp2_Server.thy ===== *)
theory Nghttp2_Server
  imports Nghttp2_Session
begin

text \<open>
  The main loop of the HTTP/2 server (\<open>http2/nghttp2_server/main.cc\<close>): the state of the epoll loop
  extended with the heap and the one session pointer of \<open>main\<close>. The answers of the nghttp2 calls an
  event makes are inputs.
\<close>

section \<open>State and inputs\<close>

record ng_srv = srv +
  heap_of :: heap
  sess_ptr :: "nat option"

record ng_in = ev_in +
  n_new :: "nat option"
  n_recv :: int
  n_send :: int
  n_want_read :: int
  n_want_write :: int

record ng_env =
  ng_socket :: int
  ng_fcntl :: int
  ng_listen :: int
  ng_epoll :: int
  ng_ctl :: int

definition ng_retError :: "string \<Rightarrow> ng_srv \<Rightarrow> ng_srv ctl" where
  "ng_retError msg s = Stop (- 1) (emit (Print msg) s)"

definition ng_setup :: "string list \<Rightarrow> ng_env \<Rightarrow> ng_srv ctl" where
  "ng_setup argv env =
     (let s0 = \<lparr>opened = [], interest = [], ep_open = False, listen_sock = ng_socket env, epfd = ng_epoll env,
                conn_sock = None, srv_out = [], heap_of = [], sess_ptr = None\<rparr>
      in if length argv < 3 then ng_retError ''required options [ip] [port]'' s0
         else
           let s1 = open_fd (ng_socket env)
                      (emit (Print (''Starting server for '' @ argv ! 1 @ '':'' @ argv ! 2)) s0) in
           if ng_fcntl env = - 1 then ng_retError ''failed to set listening socket to be non blocking'' s1
           else if ng_listen env < 0 then ng_retError (''failed to listen'' @ [CHR 0x0A]) s1
           else
             let s2 = (open_fd (ng_epoll env) s1)\<lparr>ep_open := (0 \<le> ng_epoll env)\<rparr> in
             if ng_ctl env = - 1 then ng_retError ''failed initial epoll_ctl'' s2
             else Next (ctl_add (ng_socket env) (or (or EPOLLIN EPOLLOUT) EPOLLET) (listen_sock s2) s2))"

section \<open>Events\<close>

text \<open>Runs a heap operation on the state; undefined behaviour of the operation is that of the loop.\<close>

definition with_heap :: "(heap \<Rightarrow> heap cexec) \<Rightarrow> ng_srv \<Rightarrow> ng_srv ctl" where
  "with_heap f s = (case f (heap_of s) of Inl u \<Rightarrow> Undef u | Inr h \<Rightarrow> Next (s\<lparr>heap_of := h\<rparr>))"

text \<open>Reads \<open>session_data->session\<close>.\<close>

definition get_session :: "ng_srv \<Rightarrow> nat option cexec" where
  "get_session s = cbind (deref_session (sess_ptr s) (heap_of s)) (\<lambda>d. rd_slot (session d))"

text \<open>A new connection allocates the session object with \<open>malloc\<close>, so that its fields are not set.\<close>

definition ng_accept :: "ng_in \<Rightarrow> ng_srv \<Rightarrow> ng_srv ctl" where
  "ng_accept e s =
     (let c = ev_accept e;
          s1 = (open_fd (a_fd c) s)\<lparr>conn_sock := Some (a_fd c)\<rparr>
      in if a_fcntl c = - 1 then ng_retError ''failed to set client socket to be non blocking'' s1
         else
           let s2 = emit (Connected (a_addr c) (ntohs (a_port c))) s1 in
           if a_ctl c = - 1 then ng_retError ''failed epoll_ctl'' s2
           else
             let s3 = ctl_add (a_fd c) (or (or (or EPOLLIN EPOLLET) EPOLLRDHUP) EPOLLHUP) (epfd s2) s2;
                 (p, h) = malloc (SessionObj \<lparr>session = Uninit, stream_data = Uninit\<rparr>) (heap_of s3);
                 s4 = s3\<lparr>heap_of := h, sess_ptr := Some p\<rparr>
             in with_heap (initialize_nghttp2_session (n_new e) (sess_ptr s4))
                  (emit (Print ''initialize_nghttp2_session'') s4))"

text \<open>The read loop keeps only the result of the last read.\<close>

fun ng_read :: "(int \<Rightarrow> string) \<Rightarrow> rw list \<Rightarrow> ng_srv \<Rightarrow> (int \<times> ng_srv) ctl" where
  "ng_read strerror [] s = Stuck (0, s)"
| "ng_read strerror (RdErr e # rs) s = Next (- 1, emit (ReadError (printReadError strerror e)) s)"
| "ng_read strerror (RdEof # rs) s = Next (0, s)"
| "ng_read strerror (RdData d w # rs) s = ng_read strerror rs s"

text \<open>
  \<open>nghttp2_session_mem_recv2\<close> takes the length as a \<open>size_t\<close> and reads that many bytes of the buffer.
\<close>

definition ng_recv_send :: "(int \<Rightarrow> string) \<Rightarrow> ng_in \<Rightarrow> int \<times> ng_srv \<Rightarrow> ng_srv ctl" where
  "ng_recv_send nghttp2_strerror e rs =
     (case rs of (read_sz, s) \<Rightarrow>
      let s1 = emit (PrintInt ''read '' read_sz) s in
      case get_session s1 of Inl u \<Rightarrow> Undef u
      | Inr sess \<Rightarrow>
          let len = (of_int read_sz :: u64) in
          if unat len > BUF_SIZE then Undef OutOfBounds
          else
            let s2 = emit (MemRecv len) s1 in
            if n_recv e < 0 then ng_retError (''Fatal error: '' @ nghttp2_strerror (n_recv e)) s2
            else
              let s3 = emit SessionSend s2 in
              if n_send e \<noteq> 0 then ng_retError (''Fatal error: '' @ nghttp2_strerror (n_send e)) s3
              else Next s3)"

definition ng_out :: "(int \<Rightarrow> string) \<Rightarrow> ng_in \<Rightarrow> ng_srv \<Rightarrow> ng_srv ctl" where
  "ng_out nghttp2_strerror e s =
     (case get_session s of Inl u \<Rightarrow> Undef u
      | Inr sess \<Rightarrow>
          if n_want_read e = 0 \<and> n_want_write e = 0 then with_heap (delete_http2_session_data (sess_ptr s)) s
          else
            let s1 = emit SessionSend s in
            if n_send e \<noteq> 0 then ng_retError (''Fatal error: '' @ nghttp2_strerror (n_send e)) s1
            else Next s1)"

definition ng_hangup :: "ng_in \<Rightarrow> ng_srv \<Rightarrow> ng_srv ctl" where
  "ng_hangup e s =
     (if hangup (ev_mask e) then
        let s1 = emit (Print ''connection closed'') s;
            s2 = close_fd (ev_data e) (ctl_del (ev_data e) s1)
        in with_heap (delete_http2_session_data (sess_ptr s2)) s2
      else Next s)"

definition ng_event :: "(int \<Rightarrow> string) \<Rightarrow> (int \<Rightarrow> string) \<Rightarrow> ng_in \<Rightarrow> ng_srv \<Rightarrow> ng_srv ctl" where
  "ng_event strerror nghttp2_strerror e s =
     andthen
       (if ev_data e = listen_sock s then ng_accept e s
        else if has_any (ev_mask e) EPOLLIN then
          (case conn_sock s of
             None \<Rightarrow> Undef Uninitialised
           | Some conn \<Rightarrow> ctl_bind (ng_read strerror (ev_reads e) s) (ng_recv_send nghttp2_strerror e) snd)
        else if has_any (ev_mask e) EPOLLOUT then ng_out nghttp2_strerror e s
        else Next (emit (Print ''unexpected event'') s))
       (ng_hangup e)"

definition ng_events :: "(int \<Rightarrow> string) \<Rightarrow> (int \<Rightarrow> string) \<Rightarrow> ng_in list \<Rightarrow> ng_srv \<Rightarrow> ng_srv ctl" where
  "ng_events se ne = for_events (ng_event se ne)"

inductive ng_step :: "(int \<Rightarrow> string) \<Rightarrow> (int \<Rightarrow> string) \<Rightarrow> ng_srv ctl \<Rightarrow> ng_srv ctl \<Rightarrow> bool" for se ne where
  ng_iteration: "wait_ok s nfds (map ev_in.truncate evs) \<Longrightarrow> ng_step se ne (Next s) (ng_events se ne evs s)"

inductive_cases ng_step_elim: "ng_step se ne m m'"

definition ng_init :: "ng_srv ctl \<Rightarrow> bool" where
  "ng_init m \<longleftrightarrow> (\<exists>argv env. ng_epoll env \<noteq> ng_socket env \<and> m = ng_setup argv env)"

section \<open>Invariant\<close>

text \<open>
  A session object that the loop made keeps its uninitialised \<open>stream_data\<close> field as long as it lives,
  since nothing sets it and deleting the object reads it.
\<close>

definition raw_session :: "ng_srv \<Rightarrow> bool" where
  "raw_session s \<longleftrightarrow> (case sess_ptr s of None \<Rightarrow> True
     | Some a \<Rightarrow> a < length (heap_of s) \<and> (\<exists>d. heap_of s ! a = SessionObj d \<and> stream_data d = Uninit))"

definition ng_inv :: "ng_srv \<Rightarrow> bool" where
  "ng_inv s \<longleftrightarrow> listen_sock s \<noteq> epfd s \<and> raw_session s \<and>
     (\<forall>(fd, ev, d)\<in>set (interest s). d = listen_sock s \<or> (d = epfd s \<and> conn_sock s \<noteq> None \<and> sess_ptr s \<noteq> None)) \<and>
     (\<forall>n. MemRecv n \<in> set (srv_out s) \<longrightarrow> n = 0)"

definition ng_keeps :: "ng_srv \<Rightarrow> ng_srv \<Rightarrow> bool" where
  "ng_keeps s t \<longleftrightarrow> listen_sock t = listen_sock s \<and> epfd t = epfd s \<and>
     (conn_sock s \<noteq> None \<longrightarrow> conn_sock t \<noteq> None) \<and> (sess_ptr s \<noteq> None \<longrightarrow> sess_ptr t \<noteq> None)"

definition ng_ev_ok :: "ng_srv \<Rightarrow> ng_in \<Rightarrow> bool" where
  "ng_ev_ok s e \<longleftrightarrow> ev_data e = listen_sock s \<or>
     (ev_data e = epfd s \<and> conn_sock s \<noteq> None \<and> sess_ptr s \<noteq> None)"

lemma ng_keeps_refl [simp]: "ng_keeps s s"
  by (simp add: ng_keeps_def)

lemma ng_keeps_trans: "ng_keeps s t \<Longrightarrow> ng_keeps t v \<Longrightarrow> ng_keeps s v"
  unfolding ng_keeps_def by auto

lemma emit_more [simp]:
  "heap_of (emit e s) = heap_of s" "sess_ptr (emit e s) = sess_ptr s"
  "heap_of (ctl_add fd ev d s) = heap_of s" "sess_ptr (ctl_add fd ev d s) = sess_ptr s"
  "heap_of (ctl_del fd s) = heap_of s" "sess_ptr (ctl_del fd s) = sess_ptr s"
  "heap_of (close_fd fd s) = heap_of s" "sess_ptr (close_fd fd s) = sess_ptr s"
  "heap_of (open_fd fd s) = heap_of s" "sess_ptr (open_fd fd s) = sess_ptr s"
  by (simp_all add: emit_def ctl_add_def ctl_del_def close_fd_def open_fd_def)

lemma ng_keeps_emit [simp]: "ng_keeps s (emit e t) = ng_keeps s t" "ng_keeps (emit e s) t = ng_keeps s t"
  by (simp_all add: ng_keeps_def)

lemma raw_session_cong:
  "heap_of t = heap_of s \<Longrightarrow> sess_ptr t = sess_ptr s \<Longrightarrow> raw_session t = raw_session s"
  by (simp add: raw_session_def split: option.splits)

lemma raw_session_emit [simp]: "raw_session (emit e s) = raw_session s"
  by (rule raw_session_cong) simp_all

lemma ng_inv_emit: "ng_inv s \<Longrightarrow> (\<And>n. e = MemRecv n \<Longrightarrow> n = 0) \<Longrightarrow> ng_inv (emit e s)"
  by (auto simp: ng_inv_def)

abbreviation ng_good :: "ng_srv \<Rightarrow> ng_srv ctl \<Rightarrow> bool" where
  "ng_good s \<equiv> ctl_inv (\<lambda>t. ng_inv t \<and> ng_keeps s t) (\<lambda>u. u = OutOfBounds \<or> u = Uninitialised)"

lemma ng_delete_undefined:
  assumes "raw_session s" "sess_ptr s \<noteq> None"
  shows "with_heap (delete_http2_session_data (sess_ptr s)) s = Undef Uninitialised"
  using assms by (auto simp: raw_session_def with_heap_def delete_session_uninit)

lemma get_session_cases:
  assumes "raw_session s" "sess_ptr s \<noteq> None"
  shows "(\<exists>x. get_session s = Inr x) \<or> get_session s = Inl Uninitialised"
proof -
  obtain a d where a: "sess_ptr s = Some a" "heap_of s ! a = SessionObj d" "a < length (heap_of s)"
    using assms by (auto simp: raw_session_def)
  then have "deref_session (Some a) (heap_of s) = Inr d" by (simp add: deref_session_nth)
  then show ?thesis using a(1) by (cases "session d") (auto simp: get_session_def)
qed

lemma ng_read_result:
  "ctl_inv (\<lambda>(r, t). r \<in> {0, - 1} \<and> (ng_inv s \<longrightarrow> ng_inv t) \<and> ng_keeps s t \<and> sess_ptr t = sess_ptr s) (\<lambda>_. False) (ng_read strerror rs s)"
  by (induction strerror rs s rule: ng_read.induct) (auto intro: ng_inv_emit)

lemma ng_recv_send_inv:
  assumes "ng_inv s" "sess_ptr s \<noteq> None" "r \<in> {0, - 1}"
  shows "ng_good s (ng_recv_send ne e (r, s))"
proof (cases "r = 0")
  case True
  then show ?thesis
    using assms get_session_cases [of "emit (PrintInt ''read '' r) s"]
    by (auto simp: ng_recv_send_def Let_def ng_retError_def ng_inv_def BUF_SIZE_def)
next
  case False
  then show ?thesis
    using assms get_session_cases [of "emit (PrintInt ''read '' r) s"]
    by (auto simp: ng_recv_send_def Let_def ng_inv_def BUF_SIZE_def unsigned_minus_1_eq_mask mask_eq_exp_minus_1)
qed

lemma raw_session_fields [simp]:
  "raw_session (ctl_add fd ev d s) = raw_session s" "raw_session (ctl_del fd s) = raw_session s"
  "raw_session (close_fd fd s) = raw_session s" "raw_session (open_fd fd s) = raw_session s"
  by (rule raw_session_cong; simp)+

lemma initialize_raw:
  assumes "h ! a = SessionObj d" "a < length h" "stream_data d = Uninit"
  shows "\<exists>h' d'. initialize_nghttp2_session new (Some a) h = Inr h' \<and> length h' = length h \<and>
    h' ! a = SessionObj d' \<and> stream_data d' = Uninit"
  using assms by (cases new) (simp_all add: initialize_nghttp2_session_def deref_session_nth set_session_def)

lemma ng_accept_inv:
  assumes "ng_inv s"
  shows "ng_good s (ng_accept e s)"
proof -
  let ?c = "ev_accept e"
  let ?s1 = "(open_fd (a_fd ?c) s)\<lparr>conn_sock := Some (a_fd ?c)\<rparr>"
  let ?s2 = "emit (Connected (a_addr ?c) (ntohs (a_port ?c))) ?s1"
  let ?s3 = "ctl_add (a_fd ?c) (or (or (or EPOLLIN EPOLLET) EPOLLRDHUP) EPOLLHUP) (epfd ?s2) ?s2"
  let ?h = "heap_of s @ [SessionObj \<lparr>session = Uninit, stream_data = Uninit\<rparr>]"
  let ?s4 = "emit (Print ''initialize_nghttp2_session'') (?s3\<lparr>heap_of := ?h, sess_ptr := Some (length (heap_of s))\<rparr>)"
  have raw1: "raw_session ?s1"
    using assms by (auto simp: ng_inv_def raw_session_def open_fd_def split: option.splits)
  have i1: "ng_inv ?s1" using assms raw1 by (auto simp: ng_inv_def)
  have k1: "ng_keeps s ?s1" by (simp add: ng_keeps_def)
  obtain h' d' where h': "initialize_nghttp2_session (n_new e) (Some (length (heap_of s))) ?h = Inr h'"
    "length h' = Suc (length (heap_of s))" "h' ! length (heap_of s) = SessionObj d'" "stream_data d' = Uninit"
    using initialize_raw [of ?h "length (heap_of s)" _ "n_new e"] by auto
  have "ng_inv (?s4\<lparr>heap_of := h'\<rparr>)" "ng_keeps s (?s4\<lparr>heap_of := h'\<rparr>)"
    using assms h' by (auto simp: ng_inv_def raw_session_def ng_keeps_def)
  then show ?thesis
    using i1 k1 h'
    by (auto simp: ng_accept_def Let_def ng_retError_def malloc_def with_heap_def intro!: ng_inv_emit)
qed

lemma ng_out_inv:
  assumes "ng_inv s" "sess_ptr s \<noteq> None"
  shows "ng_good s (ng_out ne e s)"
  using get_session_cases [of s] ng_delete_undefined [of s] assms
  by (auto simp: ng_out_def Let_def ng_retError_def ng_inv_def)

lemma ng_hangup_inv:
  assumes "ng_inv s" "sess_ptr s \<noteq> None"
  shows "ng_good s (ng_hangup e s)" "hangup (ev_mask e) \<Longrightarrow> ng_hangup e s = Undef Uninitialised"
proof -
  let ?s2 = "close_fd (ev_data e) (ctl_del (ev_data e) (emit (Print ''connection closed'') s))"
  have "raw_session ?s2" "sess_ptr ?s2 \<noteq> None" using assms by (simp_all add: ng_inv_def)
  then show "hangup (ev_mask e) \<Longrightarrow> ng_hangup e s = Undef Uninitialised" "ng_good s (ng_hangup e s)"
    using assms ng_delete_undefined [of ?s2] by (auto simp: ng_hangup_def Let_def)
qed

lemma ng_input_inv:
  assumes "ng_inv s" "sess_ptr s \<noteq> None"
  shows "ng_good s (ctl_bind (ng_read se rs s) (ng_recv_send ne e) snd)"
proof (rule ctl_inv_bind [where Q = "\<lambda>(r, t). r \<in> {0, - 1} \<and> ng_inv t \<and> ng_keeps s t \<and> sess_ptr t = sess_ptr s"])
  show "ctl_inv (\<lambda>x. (case x of (r, t) \<Rightarrow> r \<in> {0, - 1} \<and> ng_inv t \<and> ng_keeps s t \<and> sess_ptr t = sess_ptr s) \<and>
      ng_inv (snd x) \<and> ng_keeps s (snd x)) (\<lambda>u. u = OutOfBounds \<or> u = Uninitialised) (ng_read se rs s)"
    using ng_read_result [of s se rs] assms by (cases "ng_read se rs s") auto
  fix x :: "int \<times> ng_srv" assume "case x of (r, t) \<Rightarrow> r \<in> {0, - 1} \<and> ng_inv t \<and> ng_keeps s t \<and> sess_ptr t = sess_ptr s"
  then obtain r t where x: "x = (r, t)" "r \<in> {0, - 1}" "ng_inv t" "ng_keeps s t" "sess_ptr t = sess_ptr s" by auto
  then have "ng_good t (ng_recv_send ne e x)" using assms ng_recv_send_inv by auto
  then show "ng_good s (ng_recv_send ne e x)" using x(4) by (auto elim!: ctl_inv_mono intro: ng_keeps_trans)
qed

lemma ng_sess_known:
  assumes "ng_accept e s = Next t" shows "sess_ptr t \<noteq> None"
  using assms
  by (auto simp: ng_accept_def Let_def ng_retError_def malloc_def with_heap_def split: if_splits sum.splits)

abbreviation ng_dispatch :: "(int \<Rightarrow> string) \<Rightarrow> (int \<Rightarrow> string) \<Rightarrow> ng_in \<Rightarrow> ng_srv \<Rightarrow> ng_srv ctl" where
  "ng_dispatch se ne e s \<equiv>
     (if ev_data e = listen_sock s then ng_accept e s
      else if has_any (ev_mask e) EPOLLIN then
        (case conn_sock s of
           None \<Rightarrow> Undef Uninitialised
         | Some conn \<Rightarrow> ctl_bind (ng_read se (ev_reads e) s) (ng_recv_send ne e) snd)
      else if has_any (ev_mask e) EPOLLOUT then ng_out ne e s
      else Next (emit (Print ''unexpected event'') s))"

lemma ng_dispatch_inv:
  assumes "ng_inv s" "ng_ev_ok s e"
  shows "ng_good s (ng_dispatch se ne e s)"
    and "ng_dispatch se ne e s = Next t \<Longrightarrow> ng_inv t \<and> ng_keeps s t \<and> sess_ptr t \<noteq> None"
proof -
  show g: "ng_good s (ng_dispatch se ne e s)"
    using assms ng_accept_inv [OF assms(1)] ng_out_inv [OF assms(1)] ng_input_inv [OF assms(1)]
    by (auto simp: ng_ev_ok_def intro: ng_inv_emit split: option.splits)
  assume t: "ng_dispatch se ne e s = Next t"
  then have "ng_inv t \<and> ng_keeps s t" using g by simp
  moreover have "sess_ptr t \<noteq> None"
  proof (cases "ev_data e = listen_sock s")
    case True
    then show ?thesis using t ng_sess_known [of e s t] by simp
  next
    case False
    then show ?thesis using assms(2) calculation by (simp add: ng_ev_ok_def ng_keeps_def)
  qed
  ultimately show "ng_inv t \<and> ng_keeps s t \<and> sess_ptr t \<noteq> None" by simp
qed

lemma ng_event_inv:
  assumes "ng_inv s" "ng_ev_ok s e"
  shows "ng_good s (ng_event se ne e s)"
  unfolding ng_event_def
proof (rule ctl_inv_bind [where Q = "\<lambda>t. ng_inv t \<and> ng_keeps s t"])
  show "ctl_inv (\<lambda>t. (ng_inv t \<and> ng_keeps s t) \<and> ng_inv (id t) \<and> ng_keeps s (id t))
      (\<lambda>u. u = OutOfBounds \<or> u = Uninitialised) (ng_dispatch se ne e s)"
    using ng_dispatch_inv(1) [OF assms, of se ne] by (auto elim: ctl_inv_mono)
  fix t assume "ng_dispatch se ne e s = Next t"
  then have t: "ng_inv t" "ng_keeps s t" "sess_ptr t \<noteq> None" using ng_dispatch_inv(2) [OF assms] by auto
  show "ng_good s (ng_hangup e t)"
    using ng_hangup_inv(1) [OF t(1,3), of e] t(2) by (auto elim!: ctl_inv_mono intro: ng_keeps_trans)
qed

lemma ng_event_hangup:
  assumes "ng_inv s" "ng_ev_ok s e" "hangup (ev_mask e)"
  shows "ng_event se ne e s \<noteq> Next t"
proof (cases "ng_dispatch se ne e s")
  case (Next v)
  then have "ng_inv v" "sess_ptr v \<noteq> None" using ng_dispatch_inv(2) [OF assms(1,2)] by auto
  then show ?thesis using ng_hangup_inv(2) assms(3) Next by (auto simp: ng_event_def)
qed (auto simp: ng_event_def)

interpretation ngl: event_loop "ng_event se ne" ng_inv ng_keeps ng_ev_ok "\<lambda>u. u = OutOfBounds \<or> u = Uninitialised"
proof
  show "ng_ev_ok s e \<Longrightarrow> ng_keeps s t \<Longrightarrow> ng_ev_ok t e" for s e t
    by (auto simp: ng_ev_ok_def ng_keeps_def)
qed (auto intro: ng_event_inv ng_keeps_trans)

lemma ng_wait_data:
  assumes "ng_inv s" "wait_ok s nfds (map ev_in.truncate evs)"
  shows "\<forall>e\<in>set evs. ng_ev_ok s e"
proof
  fix e assume "e \<in> set evs"
  then have "ev_data (ev_in.truncate e) \<in> (\<lambda>r. snd (snd r)) ` set (interest s)"
    using assms(2) by (auto simp: wait_ok_def)
  then show "ng_ev_ok s e"
    using assms(1) by (auto simp: ev_in.truncate_def ng_inv_def ng_ev_ok_def)
qed

lemma ng_setup_inv: "ng_epoll env \<noteq> ng_socket env \<Longrightarrow> ctl_inv ng_inv U (ng_setup argv env)"
  by (auto simp: ng_setup_def ng_retError_def Let_def ng_inv_def raw_session_def)

interpretation ngr: inductive_invariant ng_init "ng_step se ne" "ctl_inv ng_inv (\<lambda>u. u = OutOfBounds \<or> u = Uninitialised)"
proof
  show "ctl_inv ng_inv (\<lambda>u. u = OutOfBounds \<or> u = Uninitialised) m" if "ng_init m" for m
    using that by (auto simp: ng_init_def intro: ng_setup_inv)
  show "ctl_inv ng_inv (\<lambda>u. u = OutOfBounds \<or> u = Uninitialised) m'"
    if "ctl_inv ng_inv (\<lambda>u. u = OutOfBounds \<or> u = Uninitialised) m" "ng_step se ne m m'" for m m'
    using that(2)
  proof (cases rule: ng_step.cases)
    case (ng_iteration s nfds evs)
    then have i: "ng_inv s" using that(1) by simp
    then have "ng_good s (ng_events se ne evs s)"
      unfolding ng_events_def using ng_iteration ng_wait_data ngl.for_events_inv by blast
    then show ?thesis using ng_iteration by (auto elim: ctl_inv_mono)
  qed
qed


text \<open>C32. A client that hangs up never ends in a state of the loop: the close event deletes a session object
  whose \<open>stream_data\<close> was never set, so the program has left the defined part of the language, or it has
  returned or blocked before, whatever the event carries.\<close>

theorem ng_hangup_undefined:
  assumes "reach ng_init (ng_step se ne) (Next s)" "wait_ok s nfds (map ev_in.truncate evs)"
    and "e \<in> set evs" "hangup (ev_mask e)"
  shows "ng_events se ne evs s \<noteq> Next t"
proof -
  have i: "ng_inv s" using ngr.reach_inv [OF assms(1)] by simp
  note ok = ng_wait_data [OF i assms(2)]
  show ?thesis using i ok assms(3)
  proof (induction evs arbitrary: s)
    case (Cons x evs)
    note x = ng_event_inv [OF Cons.prems(1), of x se ne]
    show ?case
    proof (cases "ng_event se ne x s")
      case (Next v)
      then have "e \<noteq> x" using ng_event_hangup [OF Cons.prems(1), of x] Cons.prems(2) assms(4) by auto
      moreover have "ng_inv v" "ng_keeps s v" using x Next Cons.prems(2) by auto
      ultimately show ?thesis
        using Cons.IH [of v] Cons.prems Next ngl.ev_ok_keeps by (auto simp: ng_events_def)
    qed (simp_all add: ng_events_def)
  qed simp
qed

lemma ng_read_error:
  "ng_read se (map (case_prod RdData) dw @ [RdErr err]) s = Next (- 1, emit (ReadError (printReadError se err)) s)"
  by (induction dw) auto

text \<open>A read error on a connection makes the loop pass the length \<open>(size_t)-1\<close> to the library, far beyond
  the 256 bytes of the buffer: such an event always leaves the defined part of the language.\<close>

theorem ng_read_error_undefined:
  assumes "reach ng_init (ng_step se ne) (Next s)" "wait_ok s nfds (map ev_in.truncate evs)" "e \<in> set evs"
    and "ev_data e \<noteq> listen_sock s" "has_any (ev_mask e) EPOLLIN"
    and "ev_reads e = map (case_prod RdData) dw @ [RdErr err]"
  shows "\<exists>u. ng_event se ne e s = Undef u"
proof -
  have i: "ng_inv s" using ngr.reach_inv [OF assms(1)] by simp
  then have "ng_ev_ok s e" using ng_wait_data [OF i assms(2)] assms(3) by blast
  then have c: "conn_sock s \<noteq> None" "sess_ptr s \<noteq> None" using assms(4) by (auto simp: ng_ev_ok_def)
  let ?s = "emit (PrintInt ''read '' (- 1)) (emit (ReadError (printReadError se err)) s)"
  have "(\<exists>x. get_session ?s = Inr x) \<or> get_session ?s = Inl Uninitialised"
    using i c by (intro get_session_cases) (auto simp: ng_inv_def)
  then show ?thesis
    using c assms(4-6)
    by (auto simp: ng_event_def ng_read_error ng_recv_send_def Let_def BUF_SIZE_def
        unsigned_minus_1_eq_mask mask_eq_exp_minus_1)
qed

section \<open>A run\<close>

definition ng_demo_env :: ng_env where
  "ng_demo_env = \<lparr>ng_socket = 3, ng_fcntl = 0, ng_listen = 0, ng_epoll = 4, ng_ctl = 0\<rparr>"

definition ng_demo_start :: ng_srv where
  "ng_demo_start = \<lparr>opened = [4, 3], interest = [(3, 0x80000005, 3)], ep_open = True,
     listen_sock = 3, epfd = 4, conn_sock = None, srv_out = [Print ''Starting server for 0.0.0.0:80''],
     heap_of = [], sess_ptr = None\<rparr>"

definition ng_demo_event :: "u32 \<Rightarrow> int \<Rightarrow> rw list \<Rightarrow> ng_in" where
  "ng_demo_event msk data rs = \<lparr>ev_mask = msk, ev_data = data,
     ev_accept = \<lparr>a_fd = 5, a_fcntl = 0, a_addr = ''10.0.0.9'', a_port = 0, a_ctl = 0\<rparr>, ev_reads = rs,
     n_new = Some 0, n_recv = 0, n_send = 0, n_want_read = 1, n_want_write = 1\<rparr>"

definition ng_demo_connected :: ng_srv where
  "ng_demo_connected = \<lparr>opened = [5, 4, 3], interest = [(5, 0x80002011, 4), (3, 0x80000005, 3)], ep_open = True,
     listen_sock = 3, epfd = 4, conn_sock = Some 5,
     srv_out = [Print ''Starting server for 0.0.0.0:80'', Connected ''10.0.0.9'' 0, Print ''initialize_nghttp2_session''],
     heap_of = [SessionObj \<lparr>session = Val (Some 0), stream_data = Uninit\<rparr>], sess_ptr = Some 0\<rparr>"

lemmas ng_run_simps = EPOLLIN_def EPOLLOUT_def EPOLLHUP_def EPOLLRDHUP_def EPOLLET_def has_any_def Let_def
  emit_def ctl_add_def open_fd_def

lemma ng_demo_setup: "ng_setup [''server'', ''0.0.0.0'', ''80''] ng_demo_env = Next ng_demo_start"
  by (simp add: ng_setup_def ng_demo_env_def ng_demo_start_def ng_run_simps)

lemma ng_demo_accept: "ng_events se ne [ng_demo_event 1 3 []] ng_demo_start = Next ng_demo_connected"
  by (simp add: ng_events_def ng_event_def ng_accept_def ng_hangup_def ng_demo_event_def ng_demo_start_def
      ng_demo_connected_def ng_run_simps htons_def malloc_def with_heap_def initialize_nghttp2_session_def
      set_session_def deref_session_def deref_def)

lemma ng_demo_reach: "reach ng_init (ng_step se ne) (Next ng_demo_connected)"
proof (rule reach_step)
  show "reach ng_init (ng_step se ne) (Next ng_demo_start)"
  proof (rule reach_init)
    have "ng_epoll ng_demo_env \<noteq> ng_socket ng_demo_env" by (simp add: ng_demo_env_def)
    then show "ng_init (Next ng_demo_start)" unfolding ng_init_def using ng_demo_setup by metis
  qed
  have "wait_ok ng_demo_start 1 (map ev_in.truncate [ng_demo_event 1 3 []])"
    by (simp add: wait_ok_def ng_demo_start_def ng_demo_event_def ev_in.truncate_def MAX_EVENTS_def)
  then show "ng_step se ne (Next ng_demo_start) (Next ng_demo_connected)"
    using ng_iteration [of ng_demo_start 1 "[ng_demo_event 1 3 []]" se ne] ng_demo_accept by simp
qed

lemma ng_demo_wait:
  "list_all rw_ok rs \<Longrightarrow> wait_ok ng_demo_connected 1 (map ev_in.truncate [ng_demo_event msk 4 rs])"
  by (simp add: wait_ok_def ng_demo_connected_def ng_demo_event_def ev_in.truncate_def MAX_EVENTS_def)


theorem ng_hangup_undefined_witness:
  "\<forall>t. ng_events (\<lambda>_. []) (\<lambda>_. []) [ng_demo_event 0x2001 4 [RdEof]] ng_demo_connected \<noteq> Next t"
proof -
  have "hangup (ev_mask (ng_demo_event 0x2001 4 [RdEof]))"
    by (simp add: ng_demo_event_def ng_run_simps)
  moreover have "list_all rw_ok [RdEof]" by (simp add: rw_ok_def)
  ultimately show ?thesis
    using ng_hangup_undefined [OF ng_demo_reach ng_demo_wait] by simp
qed

theorem ng_read_error_undefined_witness:
  "\<exists>u. ng_event (\<lambda>_. []) (\<lambda>_. []) (ng_demo_event 1 4 [RdErr 104]) ng_demo_connected = Undef u"
proof -
  let ?e = "ng_demo_event 1 4 [RdErr 104]"
  have "ev_data ?e \<noteq> listen_sock ng_demo_connected" "has_any (ev_mask ?e) EPOLLIN"
    "ev_reads ?e = map (case_prod RdData) [] @ [RdErr 104]" "list_all rw_ok [RdErr 104]"
    by (simp_all add: ng_demo_event_def ng_demo_connected_def ng_run_simps rw_ok_def)
  then show ?thesis
    using ng_read_error_undefined [OF ng_demo_reach ng_demo_wait [of "[RdErr 104]" 1], of ?e "[]" 104] by simp
qed

end
