(* ===== verification/Nghttp2_Client.thy ===== *)
theory Nghttp2_Client
  imports Nghttp2_Session
begin

text \<open>
  The HTTP/2 client (\<open>http2/nghttp2_client/nghttp2.h\<close>, \<open>main.cc\<close>): the request object, the nghttp2
  callbacks, the submission of a request and the event loop of \<open>main\<close>. The results of the system calls
  and of the library are inputs; what the client prints and submits is its state.
\<close>

section \<open>The request\<close>

record Request =
  host :: string
  hostport :: string
  req_stream_id :: int
  req_port :: u16

text \<open>
  The members are initialised in the order of their declaration, so that \<open>hostport\<close> is built from
  \<open>port\<close> before \<open>port\<close> has its value: \<open>junk\<close> is what the uninitialised member holds.
\<close>

definition make_Request :: "u16 \<Rightarrow> string \<Rightarrow> u16 \<Rightarrow> Request" where
  "make_Request junk h p =
     \<lparr>host = h, hostport = h @ '':'' @ dec_string (unat junk), req_stream_id = - 1, req_port = p\<rparr>"

text \<open>
  \<open>main\<close> builds the connection before the library has created the session, so that its second member is a copy of
  an unset pointer. The callbacks read the first one only.
\<close>

record 'p Connection =
  con_fd :: int
  con_session :: "'p slot"

definition make_Connection :: "int \<Rightarrow> 'p slot \<Rightarrow> 'p Connection" where
  "make_Connection sock ngs = \<lparr>con_fd = sock, con_session = ngs\<rparr>"

text \<open>The table of callbacks that is given to the library: hooks and the functions registered for them.\<close>

datatype cl_hook = SendHook | RecvHook | FrameSendHook | FrameRecvHook | StreamCloseHook | DataChunkHook | HeaderHook

datatype cl_function =
    Fun_send_callback | Fun_recv_callback | Fun_on_frame_send_callback | Fun_on_frame_recv_callback
  | Fun_on_stream_close_callback | Fun_on_data_chunk_recv_callback

definition setup_nghttp2_callbacks :: "(cl_hook \<rightharpoonup> cl_function) \<Rightarrow> (cl_hook \<rightharpoonup> cl_function)" where
  "setup_nghttp2_callbacks callbacks =
     callbacks(SendHook \<mapsto> Fun_send_callback, RecvHook \<mapsto> Fun_recv_callback, FrameSendHook \<mapsto> Fun_on_frame_send_callback,
       FrameRecvHook \<mapsto> Fun_on_frame_recv_callback, StreamCloseHook \<mapsto> Fun_on_stream_close_callback,
       DataChunkHook \<mapsto> Fun_on_data_chunk_recv_callback)"

section \<open>Callbacks for the network\<close>

definition NGHTTP2_ERR_WOULDBLOCK :: int where "NGHTTP2_ERR_WOULDBLOCK = - 504"
definition NGHTTP2_ERR_EOF :: int where "NGHTTP2_ERR_EOF = - 507"
definition NGHTTP2_ERR_CALLBACK_FAILURE :: int where "NGHTTP2_ERR_CALLBACK_FAILURE = - 902"
definition EAGAIN :: int where "EAGAIN = 11"

datatype cl_out = Line string | HeaderField bytes bytes | Body bytes | Errno string int

text \<open>
  \<open>write\<close> and \<open>read\<close> return -1 with an errno, or a count; \<open>want\<close> is whether the session wants to read or write. What follows
  the two returns of \<open>send_callback\<close> for a failed write is never reached.
\<close>

definition cl_send_callback :: "bool \<Rightarrow> nat \<Rightarrow> int \<Rightarrow> cl_out list \<Rightarrow> int \<times> cl_out list" where
  "cl_send_callback want len rv ls =
     (let hit = ''Hit send_callback, data length '' @ dec_string len @ '' '' in
      if rv \<le> 0 then
        if want then (NGHTTP2_ERR_WOULDBLOCK, ls @ [Line (hit @ '' EAGAIN, want read/write'')])
        else (NGHTTP2_ERR_CALLBACK_FAILURE, ls @ [Line (hit @ '' ERR_CALLBACK_FAILURE'')])
      else (rv, ls @ [Line (hit @ ''written bytes '' @ show_int rv)]))"

definition cl_recv_callback :: "(int \<Rightarrow> string) \<Rightarrow> bool \<Rightarrow> int \<Rightarrow> int \<Rightarrow> int \<Rightarrow> cl_out list \<Rightarrow> int \<times> cl_out list" where
  "cl_recv_callback strerror want fd errno rv ls =
     (let hit = ''Hit recv_callback, fd '' @ show_int fd in
      if rv < 0 then
        if errno = EAGAIN then
          if want then (NGHTTP2_ERR_WOULDBLOCK, ls @ [Line (hit @ '' EAGAIN, want read/write'')])
          else (NGHTTP2_ERR_CALLBACK_FAILURE, ls @ [Line (hit @ '' ERR_CALLBACK_FAILURE'')])
        else (- 1, ls @ [Line (hit @ '' recv_callback, failed to read, error '' @ show_int errno @ '' ,'' @ strerror errno)])
      else if rv = 0 then (NGHTTP2_ERR_EOF, ls @ [Line (hit @ '' NGHTTP2_ERR_EOF'')])
      else (rv, ls @ [Line (hit @ '' read bytes: '' @ show_int rv)]))"

section \<open>Callbacks for frames\<close>

datatype cl_frame_type =
    F_DATA | F_HEADERS | F_PRIORITY | F_RST_STREAM | F_SETTINGS | F_PUSH_PROMISE | F_PING | F_GOAWAY
  | F_WINDOW_UPDATE | F_OTHER nat

record cl_frame =
  cl_type :: cl_frame_type
  cl_stream :: int
  cl_cat :: nat
  cl_nva :: "(bytes \<times> bytes) list"

definition NGHTTP2_HCAT_RESPONSE :: nat where "NGHTTP2_HCAT_RESPONSE = 1"

definition frame_name :: "cl_frame_type \<Rightarrow> string option" where
  "frame_name t = (case t of
     F_DATA \<Rightarrow> Some ''DATA'' | F_HEADERS \<Rightarrow> Some ''HEADERS'' | F_RST_STREAM \<Rightarrow> Some ''RST_STREAM''
   | F_GOAWAY \<Rightarrow> Some ''GOAWAY'' | F_PRIORITY \<Rightarrow> Some ''PRIORITY'' | F_SETTINGS \<Rightarrow> Some ''SETTINGS''
   | F_PUSH_PROMISE \<Rightarrow> Some ''PUSH PROMISE'' | F_WINDOW_UPDATE \<Rightarrow> Some ''WINDOW UPDATE'' | _ \<Rightarrow> None)"

definition frame_line :: "string \<Rightarrow> cl_frame_type \<Rightarrow> cl_out list" where
  "frame_line arrow t = (case frame_name t of
     None \<Rightarrow> [] | Some n \<Rightarrow> [Line (''[INFO] C '' @ arrow @ '' S ('' @ n @ '')'')])"

definition to_server :: string where "to_server = ''---------------------------->''"
definition from_server :: string where "from_server = ''<----------------------------''"

text \<open>\<open>user_data\<close> is whether the stream has the request as its user data.\<close>

definition cl_on_frame_send_callback :: "(int \<Rightarrow> bool) \<Rightarrow> cl_frame \<Rightarrow> cl_out list \<Rightarrow> int \<times> cl_out list" where
  "cl_on_frame_send_callback user_data fr ls =
     (let ls1 = ls @ [Line ''Hit on_frame_send_callback''] in
      case cl_type fr of
        F_HEADERS \<Rightarrow>
          if user_data (cl_stream fr)
          then (0, ls1 @ frame_line to_server F_HEADERS @ map (case_prod HeaderField) (cl_nva fr))
          else (0, ls1)
      | t \<Rightarrow> (0, ls1 @ frame_line to_server t))"

definition cl_on_frame_recv_callback :: "(int \<Rightarrow> bool) \<Rightarrow> cl_frame \<Rightarrow> cl_out list \<Rightarrow> int \<times> cl_out list" where
  "cl_on_frame_recv_callback user_data fr ls =
     (let ls1 = ls @ [Line ''Hit on_frame_recv_callback''] in
      case cl_type fr of
        F_HEADERS \<Rightarrow>
          if cl_cat fr = NGHTTP2_HCAT_RESPONSE \<and> user_data (cl_stream fr)
          then (0, ls1 @ frame_line from_server F_HEADERS @ map (case_prod HeaderField) (cl_nva fr))
          else (0, ls1)
      | t \<Rightarrow> (0, ls1 @ frame_line from_server t))"

definition cl_on_data_chunk_recv_callback :: "(int \<Rightarrow> bool) \<Rightarrow> int \<Rightarrow> bytes \<Rightarrow> cl_out list \<Rightarrow> int \<times> cl_out list" where
  "cl_on_data_chunk_recv_callback user_data sid data ls =
     (let ls1 = ls @ [Line ''Hit on_data_chunk_recv_callback''] in
      if user_data sid
      then (0, ls1 @ [Line (''[INFO] C '' @ from_server @ '' S (DATA chunk)''),
                      Line (dec_string (length data) @ '' bytes''), Body data])
      else (0, ls1))"

section \<open>The client\<close>

type_synonym nv = "string \<times> string"

record client =
  cl_req :: Request
  cl_fds :: "int list"
  cl_settings :: "(u16 \<times> u32) list"
  submitted :: "nv list list"
  poll_events :: u16
  cl_log :: "cl_out list"

definition cl_say :: "cl_out \<Rightarrow> client \<Rightarrow> client" where
  "cl_say l s = s\<lparr>cl_log := cl_log s @ [l]\<rparr>"

text \<open>\<open>diec\<close> prints and exits with \<open>EXIT_FAILURE\<close>.\<close>

definition diec :: "string \<Rightarrow> int \<Rightarrow> client \<Rightarrow> client ctl" where
  "diec func code s = Stop 1 (cl_say (Errno (''FATAL: '' @ func) code) s)"

definition cl_on_stream_close_callback :: "(int \<Rightarrow> bool) \<Rightarrow> int \<Rightarrow> int \<Rightarrow> client \<Rightarrow> client ctl" where
  "cl_on_stream_close_callback user_data terminate_rv sid s =
     (let s1 = cl_say (Line ''Hit on_stream_close_callback'') s in
      if user_data sid \<and> terminate_rv \<noteq> 0 then diec ''nghttp2_session_terminate_session'' terminate_rv s1
      else Next s1)"

definition request_headers :: "string \<Rightarrow> Request \<Rightarrow> nv list" where
  "request_headers version req =
     [('':method'', ''GET''), ('':path'', ''/test''), ('':scheme'', ''https''), ('':authority'', hostport req),
      (''accept'', ''*/*''), (''user-agent'', ''nghttp2/'' @ version)]"

definition submit_request :: "string \<Rightarrow> int \<Rightarrow> client \<Rightarrow> client ctl" where
  "submit_request version rv s =
     (let s1 = cl_say (Line ''submit_request'') s;
          s2 = s1\<lparr>submitted := submitted s1 @ [request_headers version (cl_req s1)]\<rparr>
      in if rv < 0 then diec ''nghttp2_submit_request'' rv s1
         else Next (cl_say (Errno ''[INFO] Stream ID = '' rv) (s2\<lparr>cl_req := (cl_req s2)\<lparr>req_stream_id := rv\<rparr>\<rparr>)))"

definition exec_io :: "int \<Rightarrow> int \<Rightarrow> client \<Rightarrow> client ctl" where
  "exec_io recv_rv send_rv s =
     (if recv_rv \<noteq> 0 then diec ''nghttp2_session_recv'' recv_rv s
      else if send_rv \<noteq> 0 then diec ''nghttp2_session_send'' send_rv s
      else Next s)"

definition POLLIN :: u16 where "POLLIN = 1"
definition POLLOUT :: u16 where "POLLOUT = 4"
definition POLLERR :: u16 where "POLLERR = 8"
definition POLLHUP :: u16 where "POLLHUP = 16"

definition ctl_poll :: "bool \<Rightarrow> bool \<Rightarrow> client \<Rightarrow> client" where
  "ctl_poll want_read want_write s =
     (let e0 = 0;
          e1 = (if want_read then or e0 POLLIN else e0);
          e2 = (if want_write then or e1 POLLOUT else e1)
      in s\<lparr>poll_events := e2\<rparr>)"

section \<open>Main\<close>

record cl_env =
  c_socket :: int
  c_tos :: int
  c_ioctl :: int
  c_nodelay :: int
  c_connect :: int
  c_errno :: int
  c_callbacks :: int
  c_session :: int
  c_settings :: int
  c_submit :: int
  c_want_read :: bool
  c_want_write :: bool

definition EINPROGRESS :: int where "EINPROGRESS = 115"

definition cl_retError :: "string \<Rightarrow> client \<Rightarrow> client ctl" where
  "cl_retError msg s = Stop (- 1) (cl_say (Line msg) s)"

definition cl_dscp :: u8 where
  "cl_dscp = push_bit 2 46"

text \<open>The identifiers of \<open>NGHTTP2_SETTINGS_MAX_CONCURRENT_STREAMS\<close> and \<open>NGHTTP2_SETTINGS_INITIAL_WINDOW_SIZE\<close> are 3 and 4.\<close>

definition client_settings :: "(u16 \<times> u32) list" where
  "client_settings = [(3, 1), (4, 10000)]"

definition cl_connect :: "(int \<Rightarrow> string) \<Rightarrow> u16 \<Rightarrow> string list \<Rightarrow> cl_env \<Rightarrow> client ctl" where
  "cl_connect strerror junk argv env =
     (let s0 = \<lparr>cl_req = make_Request junk [] 0, cl_fds = [], cl_settings = [], submitted = [], poll_events = 0, cl_log = []\<rparr> in
      if length argv < 3 then cl_retError ''required options [ip] [port]'' s0
      else
        let s1 = cl_say (Line (''Starting client for '' @ argv ! 1 @ '':'' @ argv ! 2)) s0 in
        case atoi (argv ! 2) of
          Inl u \<Rightarrow> Undef u
        | Inr p \<Rightarrow>
            let iPort = (of_int p :: u16) in
            if c_socket env < 0 then cl_retError ''failed to create socket'' s1
            else
              let s1 = s1\<lparr>cl_fds := [c_socket env]\<rparr> in
              if c_tos env < 0 then cl_retError (''failed to setsockopt dscp'' @ strerror (c_errno env)) s1
              else
              let s2 = cl_say (Line (''set dscp : '' @ [char_of (unat cl_dscp)])) s1 in
              if c_ioctl env \<noteq> 0 then cl_retError ''ioctl FIONBIO call failed'' s2
              else
                let s3 = cl_say (Line ''socket made non-blocking'') s2 in
                if c_nodelay env < 0 then cl_retError (''failed to setsockopt tcp nodelay'' @ strerror (c_errno env)) s3
                else if c_connect env < 0 \<and> c_errno env \<noteq> EINPROGRESS then
                  cl_retError (''failed to connect socket error '' @ dec_string (nat (c_errno env)) @ '', '' @ strerror (c_errno env)) s3
                else
                  let s4 = cl_say (Line (''connected to '' @ argv ! 1 @ '':'' @ dec_string (unat iPort) @ '' on fd ''
                                         @ dec_string (nat (c_socket env)))) s3 in
                  if c_callbacks env \<noteq> 0 then cl_retError ''nghttp2_session_callbacks_new failed'' s4
                  else if c_session env \<noteq> 0 then cl_retError ''nghttp2_session_client_new failed'' s4
                  else if c_settings env \<noteq> 0 then cl_retError ''nghttp2_submit_settings failed'' s4
                  else Next (s4\<lparr>cl_settings := client_settings, cl_req := make_Request junk (argv ! 1) iPort\<rparr>))"

definition cl_setup :: "(int \<Rightarrow> string) \<Rightarrow> u16 \<Rightarrow> string \<Rightarrow> string list \<Rightarrow> cl_env \<Rightarrow> client ctl" where
  "cl_setup strerror junk version argv env =
     andthen (cl_connect strerror junk argv env) (\<lambda>s.
     andthen (submit_request version (c_submit env) s)
       (\<lambda>s1. Next (ctl_poll (c_want_read env) (c_want_write env) s1)))"

text \<open>One round of the event loop: the answers at its head, of \<open>poll\<close>, of the transfer and at its end.\<close>

record cl_in =
  i_want :: bool
  i_poll :: int
  i_errno :: int
  i_revents :: u16
  i_recv :: int
  i_send :: int
  i_want_read :: bool
  i_want_write :: bool
  i_submit :: int

definition cl_round :: "(int \<Rightarrow> string) \<Rightarrow> string \<Rightarrow> cl_in \<Rightarrow> client \<Rightarrow> client ctl" where
  "cl_round strerror version i s =
     (if i_poll i = - 1 then cl_retError (''poll'' @ strerror (i_errno i)) s
      else
        andthen (if and (i_revents i) (or POLLIN POLLOUT) \<noteq> 0 then exec_io (i_recv i) (i_send i) s else Next s)
          (\<lambda>s1. if and (i_revents i) POLLHUP \<noteq> 0 \<or> and (i_revents i) POLLERR \<noteq> 0
                then cl_retError ''Connection error'' s1
                else submit_request version (i_submit i) (ctl_poll (i_want_read i) (i_want_write i) s1)))"

fun cl_loop :: "(int \<Rightarrow> string) \<Rightarrow> string \<Rightarrow> cl_in list \<Rightarrow> client \<Rightarrow> client ctl" where
  "cl_loop strerror version [] s = Stuck s"
| "cl_loop strerror version (i # is) s =
     (if i_want i then andthen (cl_round strerror version i s) (cl_loop strerror version is) else Next s)"

definition cl_main :: "(int \<Rightarrow> string) \<Rightarrow> u16 \<Rightarrow> string \<Rightarrow> string list \<Rightarrow> cl_env \<Rightarrow> cl_in list \<Rightarrow> client ctl" where
  "cl_main strerror junk version argv env is =
     andthen (cl_setup strerror junk version argv env) (\<lambda>s0.
     andthen (cl_loop strerror version is s0) (\<lambda>s.
       let s1 = cl_say (Line ''Exiting...'') s in Stop 0 (s1\<lparr>cl_fds := removeAll (c_socket env) (cl_fds s1)\<rparr>)))"

section \<open>Properties\<close>

text \<open>The library requires the first two; no callback for single header fields is registered.\<close>

lemma setup_callbacks_dom: "dom (setup_nghttp2_callbacks Map.empty) = UNIV - {HeaderHook}"
proof -
  have "h \<in> dom (setup_nghttp2_callbacks Map.empty) \<longleftrightarrow> h \<noteq> HeaderHook" for h
    by (cases h) (simp_all add: setup_nghttp2_callbacks_def)
  then show ?thesis by blast
qed

text \<open>The authority of the client's requests names the port it connects to only when the uninitialised
  member happened to hold it.\<close>

theorem Request_authority:
  "hostport (make_Request junk h p) = h @ '':'' @ dec_string (unat (req_port (make_Request junk h p))) \<longleftrightarrow> junk = p"
  by (simp add: make_Request_def dec_string_inj word_unat_eq_iff)

text \<open>The network callbacks against the contract of nghttp2: \<open>send_callback\<close> returns the positive count
  of a write, or one of the two documented error codes; \<open>recv_callback\<close> returns the positive count of a
  read or one of the three documented codes, except for a read error other than \<open>EAGAIN\<close>, for which it
  returns -1.\<close>

theorem network_callbacks_contract:
  "let snd_rv = fst (cl_send_callback want len rv ls); rcv_rv = fst (cl_recv_callback strerror want fd errno rv ls) in
   (snd_rv = rv \<and> 0 < rv \<or> rv \<le> 0 \<and> snd_rv \<in> {NGHTTP2_ERR_WOULDBLOCK, NGHTTP2_ERR_CALLBACK_FAILURE}) \<and>
   (if rv < 0 \<and> errno \<noteq> EAGAIN then rcv_rv = - 1
    else rcv_rv = rv \<and> 0 < rv \<or> rv \<le> 0 \<and> rcv_rv \<in> {NGHTTP2_ERR_WOULDBLOCK, NGHTTP2_ERR_CALLBACK_FAILURE, NGHTTP2_ERR_EOF})"
  by (auto simp: cl_send_callback_def cl_recv_callback_def Let_def)

lemma submit_request_Next:
  "submit_request version rv s = Next t \<Longrightarrow>
   submitted t = submitted s @ [request_headers version (cl_req s)] \<and>
   request_headers version (cl_req t) = request_headers version (cl_req s)"
  by (auto simp: submit_request_def Let_def diec_def cl_say_def request_headers_def split: if_splits)

lemma cl_round_Next:
  assumes "cl_round strerror version i s = Next t"
  shows "submitted t = submitted s @ [request_headers version (cl_req s)] \<and>
    request_headers version (cl_req t) = request_headers version (cl_req s)"
proof -
  have "submit_request version (i_submit i) (ctl_poll (i_want_read i) (i_want_write i) s) = Next t"
    using assms by (auto simp: cl_round_def cl_retError_def exec_io_def diec_def split: if_splits)
  then show ?thesis using submit_request_Next by (fastforce simp: ctl_poll_def Let_def)
qed

lemma cl_loop_submits:
  "cl_loop strerror version is s = Next t \<Longrightarrow>
   submitted t = submitted s @ replicate (length (takeWhile i_want is)) (request_headers version (cl_req s))"
proof (induction "is" arbitrary: s)
  case (Cons i "is")
  show ?case
  proof (cases "i_want i")
    case True
    then obtain v where v: "cl_round strerror version i s = Next v" "cl_loop strerror version is v = Next t"
      using Cons.prems by (cases "cl_round strerror version i s") auto
    then show ?thesis using True Cons.IH [OF v(2)] cl_round_Next [OF v(1)] by simp
  next
    case False
    then show ?thesis using Cons.prems by simp
  qed
qed simp

lemma cl_connect_Next:
  "cl_connect strerror junk argv env = Next s \<Longrightarrow>
   submitted s = [] \<and> (\<exists>p. cl_req s = make_Request junk (argv ! 1) p)"
  by (auto simp: cl_connect_def Let_def cl_retError_def cl_say_def split: if_splits sum.splits)

lemma andthen_Next:
  "andthen m f = Next t \<Longrightarrow> \<exists>s. m = Next s \<and> f s = Next t"
  by (cases m) auto

lemma andthen_Stop:
  "andthen m f = Stop r t \<Longrightarrow> m = Stop r t \<or> (\<exists>s. m = Next s \<and> f s = Stop r t)"
  by (cases m) auto

lemma cl_setup_submits:
  assumes "cl_setup strerror junk version argv env = Next s"
  shows "\<exists>p. submitted s = [request_headers version (make_Request junk (argv ! 1) p)] \<and>
    request_headers version (cl_req s) = request_headers version (make_Request junk (argv ! 1) p)"
proof -
  obtain v w where v: "cl_connect strerror junk argv env = Next v"
    and w: "submit_request version (c_submit env) v = Next w" "s = ctl_poll (c_want_read env) (c_want_write env) w"
    using assms unfolding cl_setup_def by (auto dest!: andthen_Next)
  then show ?thesis
    using cl_connect_Next [OF v] submit_request_Next [OF w(1)] by (auto simp: ctl_poll_def Let_def)
qed

text \<open>Before the loop ends normally the client stops only with an error status.\<close>

lemma cl_stops_nonzero:
  "cl_connect strerror junk argv env \<noteq> Stop 0 t"
  "submit_request version rv s \<noteq> Stop 0 t"
  "cl_round strerror version i s \<noteq> Stop 0 t"
proof -
  show sub: "submit_request version rv s \<noteq> Stop 0 t" for rv s
    by (simp add: submit_request_def Let_def diec_def)
  show "cl_connect strerror junk argv env \<noteq> Stop 0 t"
    by (simp add: cl_connect_def Let_def cl_retError_def split: sum.splits)
  show "cl_round strerror version i s \<noteq> Stop 0 t"
    using sub by (auto simp: cl_round_def cl_retError_def exec_io_def diec_def)
qed

lemma cl_setup_nonzero: "cl_setup strerror junk version argv env \<noteq> Stop 0 t"
  unfolding cl_setup_def using cl_stops_nonzero by (auto dest!: andthen_Stop)

lemma cl_loop_nonzero: "cl_loop strerror version is s \<noteq> Stop 0 t"
proof (induction "is" arbitrary: s)
  case (Cons i "is")
  then show ?case using cl_stops_nonzero(3) by (auto dest!: andthen_Stop)
qed simp

text \<open>A run of the client that ends normally has submitted the same GET request once before the event
  loop and once more in every round of it, so that the one resource it means to fetch is requested once
  only when the loop ends before its first round.\<close>

theorem cl_main_requests:
  assumes "cl_main strerror junk version argv env is = Stop 0 t"
  shows "\<exists>p. submitted t =
    replicate (Suc (length (takeWhile i_want is))) (request_headers version (make_Request junk (argv ! 1) p))"
proof -
  obtain s0 s where s0: "cl_setup strerror junk version argv env = Next s0"
    and s: "cl_loop strerror version is s0 = Next s" "submitted t = submitted s"
    using assms unfolding cl_main_def by (auto dest!: andthen_Stop simp: cl_setup_nonzero cl_loop_nonzero cl_say_def)
  obtain p where p: "submitted s0 = [request_headers version (make_Request junk (argv ! 1) p)]"
    "request_headers version (cl_req s0) = request_headers version (make_Request junk (argv ! 1) p)"
    using cl_setup_submits [OF s0] by blast
  then have "submitted t = replicate (Suc (length (takeWhile i_want is))) (request_headers version (make_Request junk (argv ! 1) p))"
    using cl_loop_submits [OF s(1)] s(2) by simp
  then show ?thesis by blast
qed

definition demo_cl_env :: cl_env where
  "demo_cl_env = \<lparr>c_socket = 3, c_tos = 0, c_ioctl = 0, c_nodelay = 0, c_connect = - 1, c_errno = 115,
     c_callbacks = 0, c_session = 0, c_settings = 0, c_submit = 1, c_want_read = True, c_want_write = True\<rparr>"

definition demo_round :: "bool \<Rightarrow> cl_in" where
  "demo_round w = \<lparr>i_want = w, i_poll = 1, i_errno = 0, i_revents = 4, i_recv = 0, i_send = 0,
     i_want_read = True, i_want_write = False, i_submit = 3\<rparr>"

theorem cl_main_requests_witness:
  "\<exists>t. cl_main (\<lambda>_. []) 0 ''1'' [''client'', ''10.0.0.1'', ''80''] demo_cl_env [demo_round True, demo_round False] = Stop 0 t \<and>
     length (submitted t) = 2"
proof -
  have "atoi ''80'' = Inr 80" by code_simp
  then obtain t where t: "cl_main (\<lambda>_. []) 0 ''1'' [''client'', ''10.0.0.1'', ''80''] demo_cl_env [demo_round True, demo_round False] = Stop 0 t"
    by (simp add: cl_main_def cl_setup_def cl_connect_def demo_cl_env_def demo_round_def cl_round_def exec_io_def
        submit_request_def Let_def POLLIN_def POLLOUT_def POLLHUP_def POLLERR_def EINPROGRESS_def)
  then show ?thesis using cl_main_requests [OF t] by (auto simp: demo_round_def)
qed

end
