(* ===== verification/Curl_Client.thy ===== *)
theory Curl_Client
  imports Epoll_Kernel
begin

text \<open>
  The libcurl clients (\<open>http2/libcurl_client\<close>): the trace dump and the callbacks of \<open>util.h\<close>, and the
  timers of \<open>timer.h\<close> with the singleton of \<open>CurlMultiInterface.h\<close>. A timer's thread keeps a pointer to
  the \<open>Timer\<close> object that started it, so that the model has object lifetimes and interleaves the
  creating thread with the timer threads.
\<close>

section \<open>The dump\<close>

definition hex_digit :: "nat \<Rightarrow> char" where
  "hex_digit n = (if n < 10 then char_of (48 + n) else char_of (87 + n))"

fun hex_string :: "nat \<Rightarrow> string" where
  "hex_string n = (if n < 16 then [hex_digit n] else hex_string (n div 16) @ [hex_digit (n mod 16)])"

declare hex_string.simps [simp del]

definition zero_pad :: "nat \<Rightarrow> string \<Rightarrow> string" where
  "zero_pad w s = replicate (w - length s) CHR ''0'' @ s"

definition printable :: "u8 \<Rightarrow> char" where
  "printable b = (if 0x20 \<le> b \<and> b < 0x80 then char_of (unat b) else CHR ''.'')"

definition dump_cell :: "bytes \<Rightarrow> nat \<Rightarrow> string" where
  "dump_cell data j = (if j < length data then zero_pad 2 (hex_string (unat (data ! j))) @ '' '' else ''   '')"

definition dump_row :: "bytes \<Rightarrow> nat \<Rightarrow> string" where
  "dump_row data i =
     zero_pad 4 (hex_string i) @ '': '' @
     concat (map (\<lambda>c. dump_cell data (i + c)) [0..<16]) @
     map printable (take 16 (drop i data)) @ [CHR 0x0A]"

function dump_rows :: "bytes \<Rightarrow> nat \<Rightarrow> string list" where
  "dump_rows data i = (if i < length data then dump_row data i # dump_rows data (i + 16) else [])"
  by pat_completeness auto
termination by (relation "measure (\<lambda>(data, i). length data - i)") auto

declare dump_rows.simps [simp del]

definition dump :: "string \<Rightarrow> bytes \<Rightarrow> string list" where
  "dump txt data =
     (txt @ '', '' @ zero_pad 10 (dec_string (length data)) @ '' bytes (0x'' @
        zero_pad 8 (hex_string (length data)) @ '')'' @ [CHR 0x0A]) # dump_rows data 0"

section \<open>Callbacks\<close>

datatype curl_infotype =
    CURLINFO_TEXT | CURLINFO_HEADER_IN | CURLINFO_HEADER_OUT | CURLINFO_DATA_IN | CURLINFO_DATA_OUT
  | CURLINFO_SSL_DATA_IN | CURLINFO_SSL_DATA_OUT | CURLINFO_END

text \<open>The text case falls through to the default, which returns.\<close>

definition my_trace :: "curl_infotype \<Rightarrow> bytes \<Rightarrow> int \<times> string list" where
  "my_trace ty data = (case ty of
     CURLINFO_TEXT \<Rightarrow> (0, [''== Info: '' @ map (\<lambda>b. char_of (unat b)) (takeWhile (\<lambda>b. b \<noteq> 0) data)])
   | CURLINFO_HEADER_OUT \<Rightarrow> (0, dump ''=> Send header'' data)
   | CURLINFO_DATA_OUT \<Rightarrow> (0, dump ''=> Send data'' data)
   | CURLINFO_SSL_DATA_OUT \<Rightarrow> (0, dump ''=> Send SSL data'' data)
   | CURLINFO_HEADER_IN \<Rightarrow> (0, dump ''<= Recv header'' data)
   | CURLINFO_DATA_IN \<Rightarrow> (0, dump ''<= Recv data'' data)
   | CURLINFO_SSL_DATA_IN \<Rightarrow> (0, dump ''<= Recv SSL data'' data)
   | CURLINFO_END \<Rightarrow> (0, []))"

definition write_callback :: "bytes \<Rightarrow> u64 \<Rightarrow> u64 \<Rightarrow> (u64 \<times> string) cexec" where
  "write_callback data sz nmemb =
     cbind (rd data 0) (\<lambda>b. Inr (sz, ''write_callback : '' @ [char_of (unat b)]))"

section \<open>Timers\<close>

definition CURL_TIMER_MS :: int where "CURL_TIMER_MS = 2000"

record Timer =
  m_id :: int
  m_clear :: bool

datatype pc = CheckFirst | Sleeping | CheckAgain | Fire | Finished

record timer_thread =
  th_this :: nat
  th_delay :: int
  th_pc :: pc

text \<open>
  \<open>m_Timers\<close> is kept in the order of its keys. \<open>timer_objs\<close> are the live \<open>Timer\<close> objects outside the
  map, \<open>creating\<close> the local object of the \<open>CreateTimer\<close> call that is running, and \<open>fired\<close> the ids
  the timer threads printed before they called back.
\<close>

record TimerManager =
  m_Timers :: "(int \<times> Timer) list"
  timer_objs :: "(nat \<times> Timer) list"
  next_timer :: nat
  creating :: "nat option"
  threads :: "timer_thread list"
  fired :: "int list"

definition tm_empty :: TimerManager where
  "tm_empty = \<lparr>m_Timers = [], timer_objs = [], next_timer = 0, creating = None, threads = [], fired = []\<rparr>"

definition last_id :: "TimerManager \<Rightarrow> int" where
  "last_id s = (if length (m_Timers s) > 0 then fst (last (m_Timers s)) else 0)"

fun ordered_insert :: "int \<Rightarrow> Timer \<Rightarrow> (int \<times> Timer) list \<Rightarrow> (int \<times> Timer) list" where
  "ordered_insert k t [] = [(k, t)]"
| "ordered_insert k t ((j, u) # es) =
     (if k < j then (k, t) # (j, u) # es else if k = j then (j, u) # es else (j, u) # ordered_insert k t es)"

text \<open>
  \<open>CreateTimer\<close> up to and including \<open>setTimeout\<close>, which starts the thread, and its end, where the map
  gets a copy of the local object and the object dies. \<open>int\<close> arithmetic is checked.
\<close>

definition create_begin :: "TimerManager \<Rightarrow> TimerManager ctl" where
  "create_begin s =
     (let id = last_id s; delay = CURL_TIMER_MS + id * 1000 in
      if INT_MIN \<le> id + 1 \<and> id + 1 \<le> INT_MAX \<and> INT_MIN \<le> id * 1000 \<and> id * 1000 \<le> INT_MAX \<and> delay \<le> INT_MAX then
        let obj = next_timer s;
            t = \<lparr>m_id = id + 1, m_clear = False\<rparr>
        in Next (s\<lparr>next_timer := Suc obj, timer_objs := (obj, t) # timer_objs s, creating := Some obj,
                   threads := threads s @ [\<lparr>th_this = obj, th_delay = delay, th_pc = CheckFirst\<rparr>]\<rparr>)
      else Undef SignedOverflow)"

definition create_end :: "TimerManager \<Rightarrow> TimerManager ctl" where
  "create_end s = (case creating s of
     None \<Rightarrow> Next s
   | Some obj \<Rightarrow>
       (case map_of (timer_objs s) obj of
          None \<Rightarrow> Undef UseAfterFree
        | Some t \<Rightarrow>
            Next (s\<lparr>m_Timers := ordered_insert (m_id t) t (m_Timers s), creating := None,
                    timer_objs := filter (\<lambda>x. fst x \<noteq> obj) (timer_objs s)\<rparr>)))"

definition CreateTimer :: "TimerManager \<Rightarrow> TimerManager ctl" where
  "CreateTimer s = andthen (create_begin s) create_end"

text \<open>One step of the thread \<open>setTimeout\<close> starts: the checks and the firing read the object \<open>this\<close>.\<close>

definition thread_step :: "nat \<Rightarrow> TimerManager \<Rightarrow> TimerManager ctl" where
  "thread_step i s =
     (if length (threads s) \<le> i then Next s
      else
        let th = threads s ! i;
            goto = (\<lambda>p. s\<lparr>threads := (threads s)[i := th\<lparr>th_pc := p\<rparr>]\<rparr>);
            obj = map_of (timer_objs s) (th_this th)
        in case th_pc th of
          CheckFirst \<Rightarrow>
            (case obj of None \<Rightarrow> Undef UseAfterFree
             | Some t \<Rightarrow> Next (goto (if m_clear t then Finished else Sleeping)))
        | Sleeping \<Rightarrow> Next (goto CheckAgain)
        | CheckAgain \<Rightarrow>
            (case obj of None \<Rightarrow> Undef UseAfterFree
             | Some t \<Rightarrow> Next (goto (if m_clear t then Finished else Fire)))
        | Fire \<Rightarrow>
            (case obj of None \<Rightarrow> Undef UseAfterFree
             | Some t \<Rightarrow> Next ((goto Finished)\<lparr>fired := fired s @ [m_id t]\<rparr>))
        | Finished \<Rightarrow> Next s)"

text \<open>One step of the thread \<open>setInterval\<close> starts: as above, but after it has fired it begins again.\<close>

definition interval_step :: "nat \<Rightarrow> TimerManager \<Rightarrow> TimerManager ctl" where
  "interval_step i s =
     (if length (threads s) \<le> i then Next s
      else
        let th = threads s ! i;
            goto = (\<lambda>p. s\<lparr>threads := (threads s)[i := th\<lparr>th_pc := p\<rparr>]\<rparr>);
            obj = map_of (timer_objs s) (th_this th)
        in case th_pc th of
          CheckFirst \<Rightarrow>
            (case obj of None \<Rightarrow> Undef UseAfterFree
             | Some t \<Rightarrow> Next (goto (if m_clear t then Finished else Sleeping)))
        | Sleeping \<Rightarrow> Next (goto CheckAgain)
        | CheckAgain \<Rightarrow>
            (case obj of None \<Rightarrow> Undef UseAfterFree
             | Some t \<Rightarrow> Next (goto (if m_clear t then Finished else Fire)))
        | Fire \<Rightarrow>
            (case obj of None \<Rightarrow> Undef UseAfterFree
             | Some t \<Rightarrow> Next ((goto CheckFirst)\<lparr>fired := fired s @ [m_id t]\<rparr>))
        | Finished \<Rightarrow> Next s)"

text \<open>A schedule interleaves the steps of the creating thread and of the timer threads.\<close>

datatype tm_op = CreateBegin | CreateEnd | ThreadStep nat

definition tm_exec :: "tm_op \<Rightarrow> TimerManager \<Rightarrow> TimerManager ctl" where
  "tm_exec e s = (case e of
     CreateBegin \<Rightarrow> if creating s = None then create_begin s else Next s
   | CreateEnd \<Rightarrow> create_end s
   | ThreadStep i \<Rightarrow> thread_step i s)"

definition tm_run :: "tm_op list \<Rightarrow> TimerManager \<Rightarrow> TimerManager ctl" where
  "tm_run = for_events tm_exec"

section \<open>The singleton\<close>

record curl_multi =
  cm_instance :: bool
  cm_handle :: "nat option"
  cm_timers :: "TimerManager option"

text \<open>The instance and the timer manager are created at the first call.\<close>

definition GetInstance :: "curl_multi \<Rightarrow> curl_multi" where
  "GetInstance c = (if cm_instance c then c else c\<lparr>cm_instance := True, cm_timers := Some tm_empty\<rparr>)"

definition CurlTimerCallback :: "curl_multi \<Rightarrow> (int \<times> curl_multi) ctl" where
  "CurlTimerCallback c =
     (let c1 = GetInstance c in
      case cm_timers c1 of
        None \<Rightarrow> Undef NullPointer
      | Some tm \<Rightarrow> ctl_bind (CreateTimer tm) (\<lambda>tm1. Next (0, c1\<lparr>cm_timers := Some tm1\<rparr>)) (\<lambda>tm1. (0, c1\<lparr>cm_timers := Some tm1\<rparr>)))"

section \<open>Timer threads\<close>

text \<open>The only live object is the local one of a running \<open>CreateTimer\<close>.\<close>

definition tm_inv :: "TimerManager \<Rightarrow> bool" where
  "tm_inv s \<longleftrightarrow> (case creating s of
     None \<Rightarrow> timer_objs s = []
   | Some obj \<Rightarrow> \<exists>t. timer_objs s = [(obj, t)])"

interpretation tml: event_loop tm_exec tm_inv "\<lambda>_ _. True" "\<lambda>_ _. True" "\<lambda>_. True"
proof
  fix s e
  assume i: "tm_inv s"
  show "ctl_inv (\<lambda>t. tm_inv t \<and> True) (\<lambda>_. True) (tm_exec e s)"
  proof (cases e)
    case CreateBegin
    then show ?thesis using i by (auto simp: tm_exec_def create_begin_def Let_def tm_inv_def)
  next
    case CreateEnd
    then show ?thesis using i by (auto simp: tm_exec_def create_end_def tm_inv_def split: option.splits)
  next
    case (ThreadStep j)
    then show ?thesis
      using i by (auto simp: tm_exec_def thread_step_def Let_def tm_inv_def split: option.splits pc.splits)
  qed
qed auto

lemma tm_run_inv: "tm_run ops tm_empty = Next s \<Longrightarrow> tm_inv s"
  using tml.for_events_inv [of tm_empty ops] by (simp add: tm_run_def tm_inv_def tm_empty_def)

text \<open>C33. A timer thread uses the \<open>Timer\<close> object of the \<open>CreateTimer\<close> call that started it, and that object
  lives only as long as the call: in every schedule, a check or the firing of a thread whose call has
  returned is a use after free.\<close>

theorem timer_thread_dangling:
  assumes "tm_run ops tm_empty = Next s" "i < length (threads s)"
    and "creating s \<noteq> Some (th_this (threads s ! i))"
    and "th_pc (threads s ! i) \<in> {CheckFirst, CheckAgain, Fire}"
  shows "tm_run (ops @ [ThreadStep i]) tm_empty = Undef UseAfterFree"
proof -
  have "map_of (timer_objs s) (th_this (threads s ! i)) = None"
    using tm_run_inv [OF assms(1)] assms(3) by (auto simp: tm_inv_def split: option.splits)
  then have "thread_step i s = Undef UseAfterFree"
    using assms(2,4) by (auto simp: thread_step_def Let_def)
  moreover have "tm_run (ops @ es) s0 = andthen (tm_run ops s0) (tm_run es)" for es s0
    by (simp add: tm_run_def for_events_append)
  ultimately show ?thesis using assms(1) by (simp add: tm_run_def tm_exec_def)
qed

theorem timer_thread_dangling_witness:
  "tm_run [CreateBegin, ThreadStep 0, CreateEnd, ThreadStep 0, ThreadStep 0] tm_empty = Undef UseAfterFree"
proof -
  obtain s where s: "tm_run [CreateBegin, ThreadStep 0, CreateEnd, ThreadStep 0] tm_empty = Next s"
    "threads s = [\<lparr>th_this = 0, th_delay = 2000, th_pc = CheckAgain\<rparr>]" "creating s = None"
    by (simp add: tm_run_def tm_exec_def create_begin_def create_end_def thread_step_def tm_empty_def last_id_def
        Let_def CURL_TIMER_MS_def INT_MIN_def INT_MAX_def)
  then show ?thesis using timer_thread_dangling [OF s(1), of 0] by simp
qed

section \<open>Timer ids\<close>

lemma ordered_insert_last:
  "(\<forall>e\<in>set es. fst e < k) \<Longrightarrow> ordered_insert k t es = es @ [(k, t)]"
  by (induction es) auto

definition create_n :: "nat \<Rightarrow> TimerManager ctl" where
  "create_n n = for_events (\<lambda>_. CreateTimer) (replicate n ()) tm_empty"

definition created :: "nat \<Rightarrow> TimerManager \<Rightarrow> bool" where
  "created n s \<longleftrightarrow> map fst (m_Timers s) = map int [1..<Suc n] \<and> creating s = None \<and> timer_objs s = [] \<and>
     map th_delay (threads s) = map (\<lambda>k. 2000 + 1000 * int k) [0..<n]"

lemma created_last_id: "created n s \<Longrightarrow> last_id s = int n"
proof (cases n)
  case 0
  then show "created n s \<Longrightarrow> ?thesis" by (simp add: created_def last_id_def)
next
  case (Suc m)
  assume c: "created n s"
  then have "m_Timers s \<noteq> []" using Suc by (auto simp: created_def)
  then have "fst (last (m_Timers s)) = last (map fst (m_Timers s))" by (simp add: last_map)
  then show ?thesis using c \<open>m_Timers s \<noteq> []\<close> Suc by (simp add: created_def last_id_def)
qed

lemma CreateTimer_step:
  assumes "created n s"
  shows "n \<le> 2147481 \<Longrightarrow> \<exists>t. CreateTimer s = Next t \<and> created (Suc n) t"
    and "n = 2147482 \<Longrightarrow> CreateTimer s = Undef SignedOverflow"
proof -
  note id = created_last_id [OF assms]
  have lt: "\<forall>e\<in>set (m_Timers s). fst e < int n + 1"
  proof
    fix e assume "e \<in> set (m_Timers s)"
    then have "fst e \<in> set (map fst (m_Timers s))" by simp
    then have "fst e \<in> set (map int [1..<Suc n])" using assms by (simp only: created_def)
    then show "fst e < int n + 1" by auto
  qed
  show "\<exists>t. CreateTimer s = Next t \<and> created (Suc n) t" if "n \<le> 2147481"
    using that assms
    by (simp add: CreateTimer_def create_begin_def create_end_def id Let_def CURL_TIMER_MS_def INT_MIN_def INT_MAX_def
        ordered_insert_last [OF lt] created_def mult.commute)
  show "CreateTimer s = Undef SignedOverflow" if "n = 2147482"
    using that by (simp add: CreateTimer_def create_begin_def id Let_def CURL_TIMER_MS_def INT_MAX_def)
qed

lemma create_n_Suc: "create_n (Suc n) = andthen (create_n n) CreateTimer"
proof -
  have r: "replicate (Suc n) () = replicate n () @ [()]" by (simp add: replicate_append_same)
  have id: "andthen m (for_events (\<lambda>_. CreateTimer) []) = m" for m by (cases m) auto
  show ?thesis
    unfolding create_n_def r for_events_append
    by (cases "for_events (\<lambda>_. CreateTimer) (replicate n ()) tm_empty") (auto simp: id)
qed

lemma create_n_created: "n \<le> 2147482 \<Longrightarrow> \<exists>s. create_n n = Next s \<and> created n s"
proof (induction n)
  case 0
  then show ?case by (simp add: create_n_def created_def tm_empty_def)
next
  case (Suc n)
  then obtain s where "create_n n = Next s" "created n s" by auto
  then show ?case using CreateTimer_step(1) [of n s] Suc.prems by (simp add: create_n_Suc)
qed

text \<open>Consecutive timers get the ids 1, 2, 3 and so on, and each waits a second longer than the one
  before, starting with two seconds. The ids are never reused, and the call that would make timer
  2147483 overflows \<open>int\<close>.\<close>

theorem timer_ids_and_delays:
  "(n \<le> 2147482 \<longrightarrow> (\<exists>s. create_n n = Next s \<and> map fst (m_Timers s) = map int [1..<Suc n] \<and>
      map th_delay (threads s) = map (\<lambda>k. 2000 + 1000 * int k) [0..<n])) \<and>
   create_n 2147483 = Undef SignedOverflow"
proof -
  have over: "create_n (Suc N) = Undef SignedOverflow" if "N = 2147482" for N
  proof -
    have "N \<le> 2147482" using that by simp
    then obtain s where "create_n N = Next s" "created N s" using create_n_created by blast
    then show ?thesis using CreateTimer_step(2) [OF _ that] by (simp add: create_n_Suc)
  qed
  have "Suc 2147482 = 2147483" by simp
  then have "create_n 2147483 = Undef SignedOverflow" using over [OF refl] by (simp only:)
  then show ?thesis using create_n_created [of n] unfolding created_def by blast
qed

theorem timer_ids_and_delays_witness:
  "\<exists>s. create_n 3 = Next s \<and> map fst (m_Timers s) = [1, 2, 3] \<and> map th_delay (threads s) = [2000, 3000, 4000]"
  using timer_ids_and_delays [of 3] by (simp add: upt_rec)

section \<open>Reading a dump back\<close>

definition hex_val :: "char \<Rightarrow> nat" where
  "hex_val c = (let n = of_char c in if n < 58 then n - 48 else n - 87)"

text \<open>A reader of a row: the offset column has four digits and a colon, each byte two digits and a blank.\<close>

definition decode_row :: "string \<Rightarrow> bytes" where
  "decode_row row = map (\<lambda>c. of_nat (16 * hex_val (row ! (6 + 3 * c)) + hex_val (row ! (7 + 3 * c)))) [0..<length row - 55]"

lemma hex_val_digit: "d < 16 \<Longrightarrow> hex_val (hex_digit d) = d"
  by (auto simp: hex_val_def hex_digit_def Let_def take_bit_eq_mod)

lemma length_hex_string: "n < 16 ^ Suc k \<Longrightarrow> length (hex_string n) \<le> Suc k"
proof (induction k arbitrary: n)
  case 0
  then show ?case by (subst hex_string.simps) simp
next
  case (Suc k)
  then have "n div 16 < 16 ^ Suc k" by (simp add: less_mult_imp_div_less mult.commute)
  then show ?case using Suc.IH [of "n div 16"] by (subst hex_string.simps) auto
qed

lemma length_zero_pad: "length (zero_pad w s) = max w (length s)"
  by (simp add: zero_pad_def)

lemma hex_byte: "b < 256 \<Longrightarrow> zero_pad 2 (hex_string b) = [hex_digit (b div 16), hex_digit (b mod 16)]"
proof -
  assume b: "b < 256"
  have one: "d < 16 \<Longrightarrow> hex_string d = [hex_digit d]" for d by (simp add: hex_string.simps)
  have "hex_digit 0 = CHR ''0''" by code_simp
  then show ?thesis using b one by (cases "b < 16") (simp_all add: zero_pad_def hex_string.simps [of b])
qed

lemma length_dump_cell: "length (dump_cell data j) = 3"
  using unat_less_u8 [of "data ! j"] by (simp add: dump_cell_def hex_byte)

lemma concat_cells:
  assumes "\<And>c. length (f c) = 3"
  shows "length (concat (map f [0..<n])) = 3 * n"
    and "c < n \<Longrightarrow> j < 3 \<Longrightarrow> concat (map f [0..<n]) ! (3 * c + j) = f c ! j"
proof -
  show l: "length (concat (map f [0..<n])) = 3 * n" for n by (induction n) (simp_all add: assms)
  show "c < n \<Longrightarrow> j < 3 \<Longrightarrow> concat (map f [0..<n]) ! (3 * c + j) = f c ! j"
  proof (induction n)
    case (Suc n)
    show ?case
    proof (cases "c < n")
      case True
      then have "3 * c + j < length (concat (map f [0..<n]))" using Suc.prems l [of n] by linarith
      then show ?thesis using Suc True by (simp add: nth_append)
    next
      case False
      then have "c = n" using Suc.prems by simp
      then show ?thesis using l [of n] by (simp add: nth_append)
    qed
  qed simp
qed

lemma decode_dump_row:
  assumes "i < 65536"
  shows "decode_row (dump_row data i) = take 16 (drop i data)"
proof (rule nth_equalityI)
  let ?off = "zero_pad 4 (hex_string i) @ '': ''"
  let ?cells = "concat (map (\<lambda>c. dump_cell data (i + c)) [0..<16])"
  let ?txt = "map printable (take 16 (drop i data)) @ [CHR 0x0A]"
  have off: "length ?off = 6"
    using length_hex_string [of i 3] assms by (simp add: length_zero_pad max_def)
  note cells = concat_cells [of "\<lambda>c. dump_cell data (i + c)", OF length_dump_cell]
  have row: "dump_row data i = ?off @ ?cells @ ?txt" by (simp add: dump_row_def)
  have len: "length (dump_row data i) = 55 + length (take 16 (drop i data))"
    unfolding row using off cells(1) [of 16] by simp
  then show l: "length (decode_row (dump_row data i)) = length (take 16 (drop i data))"
    by (simp add: decode_row_def)
  fix c assume c: "c < length (decode_row (dump_row data i))"
  then have c16: "c < 16" and ic: "i + c < length data" using l by auto
  have nth: "dump_row data i ! (6 + 3 * c + j) = dump_cell data (i + c) ! j" if "j < 3" for j
  proof -
    have "3 * c + j < length ?cells" using c16 that cells(1) [of 16] by linarith
    then show ?thesis
      unfolding row using off cells(2) [of c 16 j] c16 that by (simp add: nth_append)
  qed
  let ?b = "unat (data ! (i + c))"
  have b: "?b < 256" by (rule unat_less_u8)
  have "dump_cell data (i + c) = [hex_digit (?b div 16), hex_digit (?b mod 16), CHR '' '']"
    using ic by (simp add: dump_cell_def hex_byte [OF b])
  then have "dump_row data i ! (6 + 3 * c) = hex_digit (?b div 16)" "dump_row data i ! (7 + 3 * c) = hex_digit (?b mod 16)"
    using nth [of 0] nth [of 1] by (simp_all add: add.commute)
  then have v: "16 * hex_val (dump_row data i ! (6 + 3 * c)) + hex_val (dump_row data i ! (7 + 3 * c)) = ?b"
    using b by (simp add: hex_val_digit less_mult_imp_div_less)
  have "decode_row (dump_row data i) ! c =
      of_nat (16 * hex_val (dump_row data i ! (6 + 3 * c)) + hex_val (dump_row data i ! (7 + 3 * c)))"
    using c by (simp add: decode_row_def)
  also have "\<dots> = data ! (i + c)" unfolding v by simp
  finally show "decode_row (dump_row data i) ! c = take 16 (drop i data) ! c" using c16 ic by simp
qed

text \<open>C20. The hexadecimal columns of a dump hold exactly the data: reading the rows back gives the bytes that
  were dumped, in order, for any data of at most 64 KiB, where the offset column has four digits.\<close>

theorem dump_roundtrip:
  assumes "length data \<le> 65536"
  shows "concat (map decode_row (tl (dump txt data))) = data"
proof -
  have "concat (map decode_row (dump_rows data i)) = drop i data" for i
    using assms
  proof (induction data i rule: dump_rows.induct)
    case (1 data i)
    show ?case
    proof (cases "i < length data")
      case True
      have "take 16 (drop i data) @ drop (i + 16) data = drop i data"
        by (metis add.commute append_take_drop_id drop_drop)
      then show ?thesis
        using 1 True by (subst dump_rows.simps) (simp add: decode_dump_row)
    next
      case False
      then show ?thesis by (subst dump_rows.simps) simp
    qed
  qed
  then show ?thesis by (simp add: dump_def)
qed

theorem dump_roundtrip_witness:
  "concat (map decode_row (tl (dump ''=> Send data'' (replicate 20 0xAB)))) = replicate 20 0xAB"
  by (rule dump_roundtrip) simp

section \<open>Intervals\<close>

text \<open>An interval thread whose object lives and is not stopped fires once in four steps and is back where it was.\<close>

lemma interval_round:
  assumes "i < length (threads s)" "th_pc (threads s ! i) = CheckFirst"
    and "map_of (timer_objs s) (th_this (threads s ! i)) = Some t" "\<not> m_clear t"
  shows "for_events (\<lambda>_. interval_step i) (replicate 4 ()) s = Next (s\<lparr>fired := fired s @ [m_id t]\<rparr>)"
proof -
  define th where "th = threads s ! i"
  have th: "(threads s)[i := th\<lparr>th_pc := CheckFirst\<rparr>] = threads s"
    using assms(1,2) by (metis list_update_id th_def timer_thread.surjective timer_thread.update_convs(3))
  show ?thesis
    using assms th by (simp add: interval_step_def Let_def numeral_eq_Suc th_def)
qed

lemma interval_fires:
  assumes "i < length (threads s)" "th_pc (threads s ! i) = CheckFirst"
    and "map_of (timer_objs s) (th_this (threads s ! i)) = Some t" "\<not> m_clear t"
  shows "for_events (\<lambda>_. interval_step i) (replicate (4 * n) ()) s = Next (s\<lparr>fired := fired s @ replicate n (m_id t)\<rparr>)"
  using assms
proof (induction n arbitrary: s)
  case (Suc n)
  let ?s = "s\<lparr>fired := fired s @ [m_id t]\<rparr>"
  have "replicate (4 * Suc n) () = replicate 4 () @ replicate (4 * n) ()" by (simp add: replicate_add [symmetric])
  then have "for_events (\<lambda>_. interval_step i) (replicate (4 * Suc n) ()) s =
      for_events (\<lambda>_. interval_step i) (replicate (4 * n) ()) ?s"
    using interval_round [OF Suc.prems] by (simp add: for_events_append)
  with Suc.IH [of ?s] Suc.prems show ?case by simp
qed simp

end
