(* ===== verification/Curl_Requests.thy ===== *)
theory Curl_Requests
  imports Curl_Client
begin

text \<open>
  The two libcurl programs: the easy client (\<open>http2/libcurl_client/http2_easy_client.cc\<close>), which hands
  every request a heap object with the code point for its socket, and the multi client
  (\<open>http2_multi_client.cc\<close>), which adds its requests to a multi handle. libcurl is a parameter: how
  many sockets a transfer opens, what it returns and how often adding a handle calls the
  timer callback are arguments. Both programs are models of object lifetimes: of the code points,
  and of the strings \<open>CURLOPT_POSTFIELDS\<close> points to.
\<close>

section \<open>The easy client\<close>

text \<open>The heap of \<open>new int\<close>; \<open>None\<close> is a deleted object.\<close>

type_synonym int_heap = "int option list"

definition new_int :: "int \<Rightarrow> int_heap \<Rightarrow> nat \<times> int_heap" where
  "new_int v h = (length h, h @ [Some v])"

definition read_int :: "nat \<Rightarrow> int_heap \<Rightarrow> int cexec" where
  "read_int p h = cbind (rd h p) (\<lambda>c. case c of None \<Rightarrow> Inl UseAfterFree | Some v \<Rightarrow> Inr v)"

definition delete_int :: "nat \<Rightarrow> int_heap \<Rightarrow> int_heap cexec" where
  "delete_int p h = cbind (rd h p) (\<lambda>c. case c of None \<Rightarrow> Inl DoubleFree | Some v \<Rightarrow> Inr (h[p := None]))"

definition live_int :: "int_heap \<Rightarrow> nat \<Rightarrow> bool" where
  "live_int h p \<longleftrightarrow> p < length h \<and> h ! p \<noteq> None"

interpretation ial: allocator delete_int live_int
proof
  fix h p
  show "\<exists>h'. delete_int p h = Inr h' \<and> (\<forall>q. live_int h' q \<longleftrightarrow> live_int h q \<and> q \<noteq> p)" if "live_int h p"
    using that by (auto simp: delete_int_def live_int_def nth_list_update)
  show "\<exists>e. delete_int p h = Inl e" if "\<not> live_int h p"
    using that by (cases "p < length h") (auto simp: delete_int_def live_int_def)
qed

text \<open>
  The callback gets the result of \<open>setsockopt\<close>; it returns its own result, the value the kernel read
  and the heap.
\<close>

definition sockopt_callback :: "nat \<Rightarrow> int \<Rightarrow> int_heap \<Rightarrow> (int \<times> int \<times> int_heap) cexec" where
  "sockopt_callback dscp setsockopt h =
     cbind (read_int dscp h) (\<lambda>v.
     let ret = (if setsockopt = - 1 then - 1 else 0) in
     cbind (delete_int dscp h) (\<lambda>h1. Inr (ret, v, h1)))"

datatype easy_opt = EUrl string | EHttp2PriorKnowledge | EVerifyPeer int | EVerifyHost int
  | EDebugFunction | ESockoptFunction | ESockoptData nat | EPostFields string

definition easy_options :: "string \<Rightarrow> string \<Rightarrow> string \<Rightarrow> nat \<Rightarrow> easy_opt list" where
  "easy_options ip api json dscp =
     [EUrl ''http://localhost:8344'', EHttp2PriorKnowledge, EVerifyPeer 0, EVerifyHost 0, EDebugFunction,
      ESockoptFunction, ESockoptData dscp, EUrl (ip @ api), EPostFields json]"

text \<open>
  What libcurl does with a request: whether it gives a handle, the answers of \<open>setsockopt\<close> on the sockets the
  transfer opens, one per call of the callback, and the result of the transfer.
\<close>

record easy_lib =
  el_handle :: bool
  el_sockets :: "int list"
  el_result :: int

fun open_sockets :: "nat \<Rightarrow> int list \<Rightarrow> int_heap \<Rightarrow> int list \<Rightarrow> (int list \<times> int_heap) cexec" where
  "open_sockets dscp [] h tos = Inr (tos, h)"
| "open_sockets dscp (r # rs) h tos =
     cbind (sockopt_callback dscp r h) (\<lambda>(ret, v, h1). open_sockets dscp rs h1 (tos @ [v]))"

definition http2POST ::
  "easy_lib \<Rightarrow> string \<Rightarrow> string \<Rightarrow> string \<Rightarrow> nat \<Rightarrow> int_heap \<Rightarrow> (bool \<times> easy_opt list \<times> int list \<times> int_heap) cexec" where
  "http2POST lib ip api json dscp h =
     (if \<not> el_handle lib then Inr (False, [], [], h)
      else cbind (open_sockets dscp (el_sockets lib) h []) (\<lambda>(tos, h1).
        Inr (el_result lib = 0, easy_options ip api json dscp, tos, h1)))"

definition easy_server_ip :: "string list \<Rightarrow> string" where
  "easy_server_ip argv = (if length argv > 2 then argv ! 2 else ''http://localhost:3000/'')"

definition easy_json :: "string \<Rightarrow> string" where
  "easy_json name = ''{'' @ [CHR 0x0A] @ ''ame'' @ [CHR 0x22] @ '' : '' @ [CHR 0x22] @ name @ [CHR 0x22] @ ''}''"

record easy_state =
  es_heap :: int_heap
  es_out :: "string list"
  es_tos :: "(string \<times> int list) list"

definition easy_post :: "easy_lib \<Rightarrow> string \<Rightarrow> string \<Rightarrow> nat \<Rightarrow> easy_state \<Rightarrow> easy_state cexec" where
  "easy_post lib ip name dscp s =
     cbind (http2POST lib ip name (easy_json name) dscp (es_heap s)) (\<lambda>(ok, opts, tos, h).
       Inr (s\<lparr>es_heap := h, es_tos := es_tos s @ [(name, tos)],
              es_out := es_out s @ (if ok then [] else [''Failed '' @ name])\<rparr>))"

text \<open>One round of the endless loop of \<open>main\<close>, for what libcurl does with its three requests.\<close>

definition easy_round :: "string \<Rightarrow> easy_lib \<times> easy_lib \<times> easy_lib \<Rightarrow> easy_state \<Rightarrow> easy_state cexec" where
  "easy_round ip libs s =
     (let (l1, l2, l3) = libs;
          (dscp1, h1) = new_int 46 (es_heap s);
          (dscp2, h2) = new_int 12 h1;
          (dscp3, h3) = new_int 0 h2
      in cbind (easy_post l1 ip ''test1'' dscp1 (s\<lparr>es_heap := h3\<rparr>)) (\<lambda>s1.
         cbind (easy_post l2 ip ''test2'' dscp2 s1) (\<lambda>s2.
         cbind (easy_post l3 ip ''test3'' dscp3 s2) (\<lambda>s3.
         Inr (s3\<lparr>es_out := es_out s3 @ [''***********************'', ''sent to localhost:3000'', ''***********************'']\<rparr>)))))"

fun easy_rounds :: "string \<Rightarrow> (easy_lib \<times> easy_lib \<times> easy_lib) list \<Rightarrow> easy_state \<Rightarrow> easy_state cexec" where
  "easy_rounds ip [] s = Inr s"
| "easy_rounds ip (l # ls) s = cbind (easy_round ip l s) (easy_rounds ip ls)"

section \<open>The multi client\<close>

text \<open>
  The strings of the program are numbered; a dead one is no longer readable. A handle keeps its URL and the number
  of the string behind \<open>CURLOPT_POSTFIELDS\<close>, which libcurl does not copy.
\<close>

record multi_handle =
  mh_url :: string
  mh_post :: nat

record multi_state =
  ms_curl :: curl_multi
  ms_handles :: "multi_handle list"
  ms_strings :: "(string option) list"

definition http2POST_multi :: "nat \<Rightarrow> multi_state \<Rightarrow> multi_state" where
  "http2POST_multi json s =
     s\<lparr>ms_handles := ms_handles s @ [\<lparr>mh_url = ''http://localhost:3000/test1'', mh_post = json\<rparr>]\<rparr>"

text \<open>The calls of the timer callback made while a handle is added.\<close>

fun timer_calls :: "nat \<Rightarrow> multi_state \<Rightarrow> multi_state ctl" where
  "timer_calls 0 s = Next s"
| "timer_calls (Suc n) s =
     ctl_bind (CurlTimerCallback (ms_curl s)) (\<lambda>(rv, c). timer_calls n (s\<lparr>ms_curl := c\<rparr>)) (\<lambda>(rv, c). s\<lparr>ms_curl := c\<rparr>)"

text \<open>One round of the loop: the temporary string lives until \<open>http2POST\<close> has returned.\<close>

definition multi_round :: "nat \<Rightarrow> multi_state \<Rightarrow> multi_state ctl" where
  "multi_round calls s =
     (let json = length (ms_strings s);
          s1 = s\<lparr>ms_strings := ms_strings s @ [Some (easy_json ''test1'')]\<rparr>
      in andthen (timer_calls calls (http2POST_multi json s1)) (\<lambda>s2.
           Next (s2\<lparr>ms_strings := (ms_strings s2)[json := None]\<rparr>)))"

definition CNT :: nat where "CNT = 4"

fun multi_rounds :: "nat list \<Rightarrow> multi_state \<Rightarrow> multi_state ctl" where
  "multi_rounds [] s = Next s"
| "multi_rounds (c # cs) s = andthen (multi_round c s) (multi_rounds cs)"

definition multi_start :: "nat \<Rightarrow> multi_state" where
  "multi_start cm =
     \<lparr>ms_curl = (GetInstance \<lparr>cm_instance = False, cm_handle = None, cm_timers = None\<rparr>)\<lparr>cm_handle := Some cm\<rparr>,
      ms_handles = [], ms_strings = []\<rparr>"

text \<open>\<open>calls i\<close> is the number of calls of the timer callback while handle \<open>i\<close> is added.\<close>

definition multi_main :: "nat \<Rightarrow> (nat \<Rightarrow> nat) \<Rightarrow> multi_state ctl" where
  "multi_main cm calls = ctl_bind (multi_rounds (map calls [0..<CNT]) (multi_start cm)) (\<lambda>s. Stop 0 s) (\<lambda>s. s)"

text \<open>What libcurl reads when it sends the body of a request.\<close>

definition post_body :: "multi_state \<Rightarrow> multi_handle \<Rightarrow> string cexec" where
  "post_body s h = cbind (rd (ms_strings s) (mh_post h)) (\<lambda>x. case x of None \<Rightarrow> Inl UseAfterFree | Some t \<Rightarrow> Inr t)"

definition timerTriggered :: "int \<Rightarrow> curl_multi \<Rightarrow> string list \<Rightarrow> curl_multi \<times> string list" where
  "timerTriggered rc c t =
     (GetInstance c, t @ [''Hit timerTriggered''] @
        (if rc \<noteq> 0 then [''curl_multi_socket_action error : '' @ show_int rc] else []))"

definition CurlSocketCallback :: int where "CurlSocketCallback = 0"

section \<open>The code points\<close>

definition n_sockets :: "easy_lib \<Rightarrow> nat" where
  "n_sockets lib = (if el_handle lib then length (el_sockets lib) else 0)"

lemma sockopt_live:
  "live_int h p \<Longrightarrow> sockopt_callback p r h = Inr (if r = - 1 then - 1 else 0, the (h ! p), h[p := None])"
  by (auto simp: sockopt_callback_def read_int_def delete_int_def live_int_def)

lemma sockopt_dead:
  "p < length h \<Longrightarrow> h ! p = None \<Longrightarrow> sockopt_callback p r h = Inl UseAfterFree"
  by (simp add: sockopt_callback_def read_int_def)

lemma open_sockets_live:
  assumes "live_int h p"
  shows "open_sockets p rs h [] =
    (case rs of [] \<Rightarrow> Inr ([], h) | [r] \<Rightarrow> Inr ([the (h ! p)], h[p := None]) | _ \<Rightarrow> Inl UseAfterFree)"
  using assms by (auto simp: sockopt_live sockopt_dead live_int_def split: list.splits)

text \<open>The object with the code point is deleted by the callback, so a request is sound only when libcurl calls the
  callback once: it then reads the value on the socket and the object is gone. A request that
  opens no socket leaves the object allocated, and the second socket of a request is given the
  deleted object.
\<close>

theorem http2POST_dscp:
  assumes "live_int h p"
  shows "http2POST lib ip api json p h =
    (if n_sockets lib = 0 then Inr (el_handle lib \<and> el_result lib = 0, if el_handle lib then easy_options ip api json p else [], [], h)
     else if n_sockets lib = 1
     then Inr (el_result lib = 0, easy_options ip api json p, [the (h ! p)], h[p := None])
     else Inl UseAfterFree)"
  using assms by (auto simp: http2POST_def n_sockets_def open_sockets_live split: list.splits)

theorem http2POST_dscp_witness:
  "http2POST \<lparr>el_handle = True, el_sockets = [0], el_result = 0\<rparr> ''h/'' ''test1'' ''j'' 0 [Some 46] =
     Inr (True, easy_options ''h/'' ''test1'' ''j'' 0, [46], [None]) \<and>
   http2POST \<lparr>el_handle = True, el_sockets = [- 1, 0], el_result = 0\<rparr> ''h/'' ''test1'' ''j'' 0 [Some 46] = Inl UseAfterFree"
  using http2POST_dscp [of "[Some 46]" 0 "\<lparr>el_handle = True, el_sockets = [0], el_result = 0\<rparr>" "''h/''" "''test1''" "''j''"]
    http2POST_dscp [of "[Some 46]" 0 "\<lparr>el_handle = True, el_sockets = [- 1, 0], el_result = 0\<rparr>" "''h/''" "''test1''" "''j''"]
  by (simp add: live_int_def n_sockets_def)

lemma http2POST_heap:
  assumes "live_int h p"
  shows "n_sockets lib \<le> 1 \<Longrightarrow> \<exists>ok opts tos. http2POST lib ip api json p h = Inr (ok, opts, tos, if n_sockets lib = 1 then h[p := None] else h)"
    and "1 < n_sockets lib \<Longrightarrow> http2POST lib ip api json p h = Inl UseAfterFree"
  using assms by (auto simp: http2POST_def n_sockets_def open_sockets_live split: list.splits if_splits)

lemma easy_post_heap:
  assumes "live_int (es_heap s) p"
  shows "n_sockets lib \<le> 1 \<Longrightarrow> \<exists>t. easy_post lib ip name p s = Inr t \<and>
            es_heap t = (if n_sockets lib = 1 then (es_heap s)[p := None] else es_heap s)"
    and "1 < n_sockets lib \<Longrightarrow> easy_post lib ip name p s = Inl UseAfterFree"
proof -
  show "\<exists>t. easy_post lib ip name p s = Inr t \<and> es_heap t = (if n_sockets lib = 1 then (es_heap s)[p := None] else es_heap s)"
    if l: "n_sockets lib \<le> 1"
  proof -
    obtain ok opts tos where "http2POST lib ip name (easy_json name) p (es_heap s) =
        Inr (ok, opts, tos, if n_sockets lib = 1 then (es_heap s)[p := None] else es_heap s)"
      using http2POST_heap(1) [OF assms l] by blast
    then show ?thesis by (simp add: easy_post_def)
  qed
  show "easy_post lib ip name p s = Inl UseAfterFree" if "1 < n_sockets lib"
    using http2POST_heap(2) [OF assms that] by (simp add: easy_post_def)
qed

definition left :: "easy_lib \<Rightarrow> int \<Rightarrow> int option" where
  "left lib v = (if n_sockets lib = 1 then None else Some v)"

lemma easy_round_heap:
  assumes "n_sockets l1 \<le> 1" "n_sockets l2 \<le> 1" "n_sockets l3 \<le> 1"
  shows "\<exists>t. easy_round ip (l1, l2, l3) s = Inr t \<and> es_heap t = es_heap s @ [left l1 46, left l2 12, left l3 0]"
proof -
  let ?n = "length (es_heap s)"
  let ?s0 = "s\<lparr>es_heap := es_heap s @ [Some 46, Some 12, Some 0]\<rparr>"
  obtain s1 where s1: "easy_post l1 ip ''test1'' ?n ?s0 = Inr s1"
    "es_heap s1 = es_heap s @ [left l1 46, Some 12, Some 0]"
    using easy_post_heap(1) [of ?s0 ?n l1 ip "''test1''"] assms(1)
    by (auto simp: live_int_def left_def list_update_append)
  obtain s2 where s2: "easy_post l2 ip ''test2'' (Suc ?n) s1 = Inr s2"
    "es_heap s2 = es_heap s @ [left l1 46, left l2 12, Some 0]"
    using easy_post_heap(1) [of s1 "Suc ?n" l2 ip "''test2''"] assms(2) s1(2)
    by (auto simp: live_int_def left_def list_update_append nth_append)
  obtain s3 where s3: "easy_post l3 ip ''test3'' (Suc (Suc ?n)) s2 = Inr s3"
    "es_heap s3 = es_heap s @ [left l1 46, left l2 12, left l3 0]"
    using easy_post_heap(1) [of s2 "Suc (Suc ?n)" l3 ip "''test3''"] assms(3) s2(2)
    by (auto simp: live_int_def left_def list_update_append nth_append)
  from s1(1) s2(1) s3 show ?thesis by (simp add: easy_round_def new_int_def)
qed

lemma easy_round_undef:
  assumes "1 < n_sockets l1 \<or> 1 < n_sockets l2 \<or> 1 < n_sockets l3"
  shows "easy_round ip (l1, l2, l3) s = Inl UseAfterFree"
proof -
  let ?n = "length (es_heap s)"
  let ?s0 = "s\<lparr>es_heap := es_heap s @ [Some 46, Some 12, Some 0]\<rparr>"
  note post = easy_post_heap(2) easy_post_heap(1)
  have 1: "easy_post l1 ip ''test1'' ?n ?s0 = Inl UseAfterFree \<or>
      (\<exists>s1 x. easy_post l1 ip ''test1'' ?n ?s0 = Inr s1 \<and> es_heap s1 = es_heap s @ [x, Some 12, Some 0] \<and> n_sockets l1 \<le> 1)"
    using post [of ?s0 ?n l1 ip "''test1''"]
    by (cases "n_sockets l1 \<le> 1") (auto simp: live_int_def list_update_append)
  have 2: "easy_post l2 ip ''test2'' (Suc ?n) s1 = Inl UseAfterFree \<or>
      (\<exists>s2 y. easy_post l2 ip ''test2'' (Suc ?n) s1 = Inr s2 \<and> es_heap s2 = es_heap s @ [x, y, Some 0] \<and> n_sockets l2 \<le> 1)"
    if "es_heap s1 = es_heap s @ [x, Some 12, Some 0]" for s1 x
    using post [of s1 "Suc ?n" l2 ip "''test2''"] that
    by (cases "n_sockets l2 \<le> 1") (auto simp: live_int_def list_update_append nth_append)
  have 3: "easy_post l3 ip ''test3'' (Suc (Suc ?n)) s2 = Inl UseAfterFree"
    if "es_heap s2 = es_heap s @ [x, y, Some 0]" "1 < n_sockets l3" for s2 x y
    using post(1) [of s2 "Suc (Suc ?n)" l3 ip "''test3''"] that by (auto simp: live_int_def nth_append)
  from 1 show ?thesis
  proof (elim disjE exE conjE)
    assume "easy_post l1 ip ''test1'' ?n ?s0 = Inl UseAfterFree"
    then show ?thesis by (simp add: easy_round_def new_int_def)
  next
    fix s1 x
    assume p1: "easy_post l1 ip ''test1'' ?n ?s0 = Inr s1" "es_heap s1 = es_heap s @ [x, Some 12, Some 0]" "n_sockets l1 \<le> 1"
    from 2 [OF p1(2)] show ?thesis
    proof (elim disjE exE conjE)
      assume "easy_post l2 ip ''test2'' (Suc ?n) s1 = Inl UseAfterFree"
      with p1(1) show ?thesis by (simp add: easy_round_def new_int_def)
    next
      fix s2 y
      assume p2: "easy_post l2 ip ''test2'' (Suc ?n) s1 = Inr s2" "es_heap s2 = es_heap s @ [x, y, Some 0]" "n_sockets l2 \<le> 1"
      with 3 [OF p2(2)] p1(1,3) assms show ?thesis by (auto simp: easy_round_def new_int_def)
    qed
  qed
qed

definition live_ints :: "int_heap \<Rightarrow> nat" where
  "live_ints h = length (filter (\<lambda>c. c \<noteq> None) h)"

definition round_sound :: "easy_lib \<times> easy_lib \<times> easy_lib \<Rightarrow> bool" where
  "round_sound l = (case l of (l1, l2, l3) \<Rightarrow> n_sockets l1 \<le> 1 \<and> n_sockets l2 \<le> 1 \<and> n_sockets l3 \<le> 1)"

definition round_leak :: "easy_lib \<times> easy_lib \<times> easy_lib \<Rightarrow> nat" where
  "round_leak l = (case l of (l1, l2, l3) \<Rightarrow> length (filter (\<lambda>x. n_sockets x = 0) [l1, l2, l3]))"

lemma easy_round_leak:
  "round_sound l \<Longrightarrow> \<exists>t. easy_round ip l s = Inr t \<and> live_ints (es_heap t) = live_ints (es_heap s) + round_leak l"
proof (cases l)
  case (fields l1 l2 l3)
  moreover assume "round_sound l"
  ultimately have le: "n_sockets l1 \<le> 1" "n_sockets l2 \<le> 1" "n_sockets l3 \<le> 1" by (simp_all add: round_sound_def)
  then have "left x v \<noteq> None \<longleftrightarrow> n_sockets x = 0" if "x \<in> {l1, l2, l3}" for x v
    using that by (auto simp: left_def le_Suc_eq)
  then show ?thesis
    using easy_round_heap [OF le, of ip s] fields by (auto simp: live_ints_def round_leak_def)
qed

text \<open>C18. As long as no request opens a second socket the easy client runs on, and after any number of
  rounds exactly the code points of the requests that opened no socket are still allocated. The first round
  with a request that opens a second socket is a use after free.
\<close>

theorem easy_rounds_heap:
  "(list_all round_sound ls \<longrightarrow> (\<exists>t. easy_rounds ip ls s = Inr t \<and>
      live_ints (es_heap t) = live_ints (es_heap s) + sum_list (map round_leak ls))) \<and>
   (\<not> list_all round_sound ls \<longrightarrow> easy_rounds ip ls s = Inl UseAfterFree)"
proof (induction ls arbitrary: s)
  case (Cons l ls)
  show ?case
  proof (cases "round_sound l")
    case True
    then obtain u where "easy_round ip l s = Inr u" "live_ints (es_heap u) = live_ints (es_heap s) + round_leak l"
      using easy_round_leak by blast
    with Cons.IH [of u] True show ?thesis by auto
  next
    case False
    then have "easy_round ip l s = Inl UseAfterFree"
      by (cases l) (auto simp: round_sound_def intro!: easy_round_undef)
    with False show ?thesis by simp
  qed
qed simp

definition demo_lib :: "nat \<Rightarrow> easy_lib" where
  "demo_lib n = \<lparr>el_handle = True, el_sockets = replicate n 0, el_result = 0\<rparr>"

theorem easy_rounds_heap_witness:
  "\<exists>t. easy_rounds ''h/'' [(demo_lib 1, demo_lib 0, demo_lib 1), (demo_lib 0, demo_lib 1, demo_lib 0)]
         \<lparr>es_heap = [], es_out = [], es_tos = []\<rparr> = Inr t \<and> live_ints (es_heap t) = 3"
  using easy_rounds_heap [of "[(demo_lib 1, demo_lib 0, demo_lib 1), (demo_lib 0, demo_lib 1, demo_lib 0)]" "''h/''"
      "\<lparr>es_heap = [], es_out = [], es_tos = []\<rparr>"]
  by (simp add: round_sound_def round_leak_def n_sockets_def demo_lib_def live_ints_def
      numeral_3_eq_3 del: easy_rounds.simps)

section \<open>The bodies of the multi client\<close>

definition multi_inv :: "nat \<Rightarrow> nat \<Rightarrow> multi_state \<Rightarrow> bool" where
  "multi_inv n m s \<longleftrightarrow>
     ms_strings s = replicate n None \<and>
     ms_handles s = map (\<lambda>i. \<lparr>mh_url = ''http://localhost:3000/test1'', mh_post = i\<rparr>) [0..<n] \<and>
     cm_instance (ms_curl s) \<and> (\<exists>tm. cm_timers (ms_curl s) = Some tm \<and> created m tm)"

lemma timer_calls_next:
  "cm_instance (ms_curl s) \<Longrightarrow> cm_timers (ms_curl s) = Some tm \<Longrightarrow> created m tm \<Longrightarrow> m + k \<le> 2147482 \<Longrightarrow>
   \<exists>c tm'. timer_calls k s = Next (s\<lparr>ms_curl := c\<rparr>) \<and> cm_instance c \<and> cm_timers c = Some tm' \<and> created (m + k) tm'"
proof (induction k arbitrary: s m tm)
  case 0
  then show ?case by (intro exI [of _ "ms_curl s"]) simp
next
  case (Suc k)
  from CreateTimer_step(1) [OF Suc.prems(3)] Suc.prems(4) obtain t where t: "CreateTimer tm = Next t" "created (Suc m) t"
    by auto
  let ?s = "s\<lparr>ms_curl := (ms_curl s)\<lparr>cm_timers := Some t\<rparr>\<rparr>"
  from t Suc.prems(1,2) have "timer_calls (Suc k) s = timer_calls k ?s"
    by (simp add: CurlTimerCallback_def GetInstance_def Let_def)
  with Suc.IH [of ?s t "Suc m"] t(2) Suc.prems(1,4) show ?case by simp
qed

lemma multi_round_next:
  assumes "multi_inv n m s" "m + k \<le> 2147482"
  shows "\<exists>t. multi_round k s = Next t \<and> multi_inv (Suc n) (m + k) t"
proof -
  let ?s = "http2POST_multi n (s\<lparr>ms_strings := ms_strings s @ [Some (easy_json ''test1'')]\<rparr>)"
  from assms(1) obtain tm where "cm_instance (ms_curl ?s)" "cm_timers (ms_curl ?s) = Some tm" "created m tm"
    by (auto simp: multi_inv_def http2POST_multi_def)
  from timer_calls_next [OF this assms(2)] obtain c tm' where c: "timer_calls k ?s = Next (?s\<lparr>ms_curl := c\<rparr>)"
    "cm_instance c" "cm_timers c = Some tm'" "created (m + k) tm'" by blast
  with assms(1) show ?thesis
    by (simp add: multi_round_def multi_inv_def http2POST_multi_def list_update_append replicate_append_same)
qed

lemma multi_rounds_next:
  "multi_inv n m s \<Longrightarrow> m + sum_list cs \<le> 2147482 \<Longrightarrow>
   \<exists>t. multi_rounds cs s = Next t \<and> multi_inv (n + length cs) (m + sum_list cs) t"
proof (induction cs arbitrary: n m s)
  case (Cons k cs)
  then obtain u where "multi_round k s = Next u" "multi_inv (Suc n) (m + k) u"
    using multi_round_next [of n m s k] by auto
  with Cons.IH [of "Suc n" "m + k" u] Cons.prems(2) show ?case by (simp add: add.assoc)
qed simp

text \<open>The multi client adds four requests and returns 0 without performing any of them. The body of each
  request is a temporary string that is gone by then: what libcurl would read for it is a use after
  free. The bound on the timer calls is the one at which their ids overflow.
\<close>

theorem multi_main_dangling:
  assumes "sum_list (map calls [0..<CNT]) \<le> 2147482"
  shows "\<exists>s. multi_main cm calls = Stop 0 s \<and> length (ms_handles s) = 4 \<and>
    (\<forall>h\<in>set (ms_handles s). post_body s h = Inl UseAfterFree)"
proof -
  have "multi_inv 0 0 (multi_start cm)"
    by (simp add: multi_inv_def multi_start_def GetInstance_def created_def tm_empty_def)
  with multi_rounds_next [of 0 0 "multi_start cm" "map calls [0..<CNT]"] assms obtain s where
    "multi_rounds (map calls [0..<CNT]) (multi_start cm) = Next s" "multi_inv CNT (sum_list (map calls [0..<CNT])) s"
    by auto
  then show ?thesis by (auto simp: multi_main_def multi_inv_def CNT_def post_body_def)
qed

theorem multi_main_dangling_witness:
  "\<exists>s h. multi_main 7 (\<lambda>i. 1) = Stop 0 s \<and> h \<in> set (ms_handles s) \<and> post_body s h = Inl UseAfterFree"
proof -
  have "sum_list (map (\<lambda>i. 1) [0..<CNT]) \<le> (2147482 :: nat)" by (simp add: CNT_def sum_list_triv)
  from multi_main_dangling [OF this, of 7] obtain s where s: "multi_main 7 (\<lambda>i. 1) = Stop 0 s" "length (ms_handles s) = 4"
    "\<forall>h\<in>set (ms_handles s). post_body s h = Inl UseAfterFree" by blast
  then have "hd (ms_handles s) \<in> set (ms_handles s)" by (intro hd_in_set) auto
  with s show ?thesis by blast
qed

end
