(* ===== verification/Float64.thy ===== *)
theory Float64
  imports Complex_Main
begin

text \<open>
  Arithmetic of the C++ type \<open>double\<close> on the non-negative values the sampler computes with. A finite
  double is the rational number it stands for, and an operation is the exact operation followed by
  \<open>rnd\<close>, the rounding of IEEE 754 binary64 to the nearest value with ties to even, with its 53-bit
  significands and its smallest exponent. The laws the clients use are the locale \<open>rounding\<close>.
\<close>

section \<open>Rounding to an integer\<close>

definition rhe :: "rat \<Rightarrow> int" where
  "rhe x = (let f = \<lfloor>x\<rfloor>; d = x - of_int f in
     if d < 1/2 \<or> (d = 1/2 \<and> even f) then f else f + 1)"

lemma rhe_of_int [simp]: "rhe (of_int n) = n"
  by (simp add: rhe_def)

lemma rhe_bounds: "\<lfloor>x\<rfloor> \<le> rhe x" "rhe x \<le> \<lfloor>x\<rfloor> + 1"
  by (simp_all add: rhe_def Let_def)

lemma rhe_error: "\<bar>of_int (rhe x) - x\<bar> \<le> 1/2"
proof -
  have "of_int \<lfloor>x\<rfloor> \<le> x" "x < of_int \<lfloor>x\<rfloor> + 1" by linarith+
  then show ?thesis by (auto simp: rhe_def Let_def)
qed

lemma rhe_mono: "x \<le> y \<Longrightarrow> rhe x \<le> rhe y"
proof (cases "\<lfloor>x\<rfloor> = \<lfloor>y\<rfloor>")
  case True
  assume "x \<le> y"
  then show ?thesis using True by (auto simp: rhe_def Let_def)
next
  case False
  assume "x \<le> y"
  then have "\<lfloor>x\<rfloor> + 1 \<le> \<lfloor>y\<rfloor>" using False floor_mono [of x y] by linarith
  then show ?thesis using rhe_bounds [of x] rhe_bounds [of y] by linarith
qed

section \<open>The exponent\<close>

fun flog :: "nat \<Rightarrow> nat" where
  "flog n = (if n < 2 then 0 else Suc (flog (n div 2)))"

declare flog.simps [simp del]

lemma flog_bounds: "0 < n \<Longrightarrow> 2 ^ flog n \<le> n \<and> n < 2 ^ Suc (flog n)"
proof (induction n rule: flog.induct)
  case (1 n)
  show ?case
  proof (cases "n < 2")
    case True
    then show ?thesis using 1(2) by (simp add: flog.simps)
  next
    case False
    then have "2 ^ flog (n div 2) \<le> n div 2 \<and> n div 2 < 2 ^ Suc (flog (n div 2))"
      using 1(1) by simp
    then show ?thesis using False by (subst (1 2) flog.simps) auto
  qed
qed

text \<open>The binary logarithm of a positive number, rounded down.\<close>

definition ilog2 :: "rat \<Rightarrow> int" where
  "ilog2 x = (if 1 \<le> x then int (flog (nat \<lfloor>x\<rfloor>)) else - int (Suc (flog (nat (\<lceil>1 / x\<rceil> - 1)))))"

lemma ilog2_ge1:
  assumes "1 \<le> x"
  shows "2 powi ilog2 x \<le> x \<and> x < 2 powi (ilog2 x + 1)"
proof -
  let ?n = "nat \<lfloor>x\<rfloor>"
  have "0 < ?n" using assms by simp
  then have b: "2 ^ flog ?n \<le> ?n" "?n < 2 ^ Suc (flog ?n)" using flog_bounds [of ?n] by blast+
  have f: "(of_nat ?n :: rat) = of_int \<lfloor>x\<rfloor>" using assms by simp
  have "(2::rat) ^ flog ?n \<le> of_nat ?n" using b(1) by (metis of_nat_le_iff of_nat_numeral of_nat_power)
  then have lo: "(2::rat) ^ flog ?n \<le> x" using f by linarith
  have "?n + 1 \<le> 2 ^ Suc (flog ?n)" using b(2) by simp
  then have "(of_nat (?n + 1) :: rat) \<le> 2 ^ Suc (flog ?n)"
    by (metis of_nat_le_iff of_nat_numeral of_nat_power)
  then have hi: "x < 2 ^ Suc (flog ?n)" using f by simp linarith
  have "ilog2 x + 1 = int (Suc (flog ?n))" using assms by (simp add: ilog2_def)
  then show ?thesis using lo hi assms by (simp only: power_int_of_nat) (simp add: ilog2_def)
qed

lemma ilog2_lt1:
  assumes "0 < x" "x < 1"
  shows "2 powi ilog2 x \<le> x \<and> x < 2 powi (ilog2 x + 1)"
proof -
  let ?n = "nat (\<lceil>1 / x\<rceil> - 1)"
  have "1 < 1 / x" using assms by simp
  then have c: "2 \<le> \<lceil>1 / x\<rceil>" by linarith
  then have b: "2 ^ flog ?n \<le> ?n" "?n < 2 ^ Suc (flog ?n)" using flog_bounds [of ?n] by auto
  have "int ?n = \<lceil>1 / x\<rceil> - 1" using c by linarith
  then have "(of_int (int ?n) :: rat) = of_int (\<lceil>1 / x\<rceil> - 1)" by (simp only:)
  then have f: "(of_nat ?n :: rat) = of_int \<lceil>1 / x\<rceil> - 1"
    by (simp only: of_int_of_nat_eq of_int_diff of_int_1)
  have "(2::rat) ^ flog ?n \<le> of_nat ?n" using b(1) by (metis of_nat_le_iff of_nat_numeral of_nat_power)
  then have "2 ^ flog ?n < 1 / x" using f by linarith
  then have hi: "x < 1 / 2 ^ flog ?n" using assms by (simp add: field_simps)
  have "?n + 1 \<le> 2 ^ Suc (flog ?n)" using b(2) by simp
  then have "(of_nat (?n + 1) :: rat) \<le> 2 ^ Suc (flog ?n)"
    by (metis of_nat_le_iff of_nat_numeral of_nat_power)
  then have "1 / x \<le> 2 ^ Suc (flog ?n)" using f by simp linarith
  then have lo: "1 / 2 ^ Suc (flog ?n) \<le> x" using assms by (simp add: field_simps)
  have e: "ilog2 x = - int (Suc (flog ?n))" "ilog2 x + 1 = - int (flog ?n)"
    using assms by (simp_all add: ilog2_def)
  have "(2::rat) powi ilog2 x = 1 / 2 ^ Suc (flog ?n)"
    by (simp only: e(1) power_int_minus power_int_of_nat inverse_eq_divide)
  moreover have "(2::rat) powi (ilog2 x + 1) = 1 / 2 ^ flog ?n"
    by (simp only: e(2) power_int_minus power_int_of_nat inverse_eq_divide)
  ultimately show ?thesis using lo hi by (simp only:)
qed

lemma ilog2_bounds: "0 < x \<Longrightarrow> 2 powi ilog2 x \<le> x \<and> x < 2 powi (ilog2 x + 1)"
  using ilog2_ge1 ilog2_lt1 by (cases "1 \<le> x") auto

section \<open>Rounding to a double\<close>

definition exponent :: "rat \<Rightarrow> int" where
  "exponent x = max (ilog2 x - 52) (- 1074)"

definition rnd :: "rat \<Rightarrow> rat" where
  "rnd x = (if x \<le> 0 then 0 else of_int (rhe (x / 2 powi exponent x)) * 2 powi exponent x)"

lemma powi2_pos [simp]: "(0::rat) < 2 powi e"
  by simp

lemma powi2_mono: "a \<le> b \<Longrightarrow> (2::rat) powi a \<le> 2 powi b"
  by (simp add: power_int_increasing)

lemma powi2_less_cancel: "(2::rat) powi a < 2 powi b \<Longrightarrow> a < b"
  using powi2_mono [of b a] by (cases "a < b") auto

lemma powi2_le_cancel: "(2::rat) powi a \<le> 2 powi b \<Longrightarrow> a \<le> b"
  using power_int_strict_increasing [of b a "2 :: rat"] by (cases "a \<le> b") auto

lemma powi2_split: "(2::rat) powi (a + b) = 2 powi a * 2 powi b"
  by (simp add: power_int_add)

lemma ilog2_mono: "0 < x \<Longrightarrow> x \<le> y \<Longrightarrow> ilog2 x \<le> ilog2 y"
proof -
  assume "0 < x" "x \<le> y"
  then have "(2::rat) powi ilog2 x < 2 powi (ilog2 y + 1)"
    using ilog2_bounds [of x] ilog2_bounds [of y] by linarith
  then show ?thesis using powi2_less_cancel by fastforce
qed

lemma exponent_mono: "0 < x \<Longrightarrow> x \<le> y \<Longrightarrow> exponent x \<le> exponent y"
  using ilog2_mono [of x y] by (auto simp: exponent_def)

text \<open>The scaled significand is below \<open>2 ^ 53\<close>, and at least \<open>2 ^ 52\<close> unless the number is subnormal.\<close>

lemma significand_upper:
  assumes "0 < x" shows "x / 2 powi exponent x < 2 ^ 53"
proof -
  have "x < 2 powi (ilog2 x + 1)" using ilog2_bounds assms by blast
  also have "\<dots> \<le> 2 powi (53 + exponent x)" by (rule powi2_mono) (simp add: exponent_def)
  finally have "x < 2 ^ 53 * 2 powi exponent x" by (simp add: powi2_split)
  then show ?thesis by (simp add: field_simps)
qed

lemma significand_lower:
  assumes "0 < x" "- 1074 < exponent x" shows "2 ^ 52 \<le> x / 2 powi exponent x"
proof -
  have "exponent x = ilog2 x - 52" using assms(2) by (simp add: exponent_def)
  then have "2 powi (52 + exponent x) \<le> x" using ilog2_bounds [OF assms(1)] by simp
  then have "2 ^ 52 * 2 powi exponent x \<le> x" by (simp add: powi2_split)
  then show ?thesis by (simp add: field_simps)
qed

lemma rhe_le_int: "x \<le> of_int n \<Longrightarrow> rhe x \<le> n"
  using rhe_mono [of x "of_int n"] by simp

lemma rhe_ge_int: "of_int n \<le> x \<Longrightarrow> n \<le> rhe x"
  using rhe_mono [of "of_int n" x] by simp

lemma rnd_nonneg: "0 \<le> rnd x"
proof (cases "x \<le> 0")
  case False
  then have "0 \<le> rhe (x / 2 powi exponent x)" by (intro rhe_ge_int) simp
  then show ?thesis by (simp add: rnd_def)
qed (simp add: rnd_def)

lemma rnd_mono_same:
  assumes "0 < x" "x \<le> y" "exponent x = exponent y" shows "rnd x \<le> rnd y"
proof -
  have "rhe (x / 2 powi exponent y) \<le> rhe (y / 2 powi exponent y)"
    using assms(2) by (intro rhe_mono divide_right_mono) auto
  then show ?thesis using assms by (simp add: rnd_def)
qed

lemma rnd_mono_less:
  assumes "0 < x" "x \<le> y" "exponent x < exponent y" shows "rnd x \<le> rnd y"
proof -
  have lo: "- 1074 < exponent y" using assms(3) by (simp add: exponent_def)
  have "rhe (x / 2 powi exponent x) \<le> 2 ^ 53"
    using significand_upper [OF assms(1)] by (intro rhe_le_int) simp
  then have "of_int (rhe (x / 2 powi exponent x)) \<le> (2::rat) ^ 53" by (metis of_int_le_iff of_int_numeral of_int_power)
  then have "rnd x \<le> 2 ^ 53 * 2 powi exponent x" using assms(1) by (simp add: rnd_def)
  also have "\<dots> = 2 powi (53 + exponent x)" by (simp add: powi2_split)
  also have "\<dots> \<le> 2 powi (52 + exponent y)" using assms(3) by (intro powi2_mono) simp
  also have "\<dots> = 2 ^ 52 * 2 powi exponent y" by (simp add: powi2_split)
  also have "\<dots> \<le> rnd y"
  proof -
    have "2 ^ 52 \<le> rhe (y / 2 powi exponent y)"
      using significand_lower [OF _ lo] assms by (intro rhe_ge_int) simp
    then have "(2::rat) ^ 52 \<le> of_int (rhe (y / 2 powi exponent y))" by (metis of_int_le_iff of_int_numeral of_int_power)
    then show ?thesis using assms by (simp add: rnd_def)
  qed
  finally show ?thesis .
qed

lemma rnd_mono: "x \<le> y \<Longrightarrow> rnd x \<le> rnd y"
proof (cases "x \<le> 0")
  case True
  then show ?thesis using rnd_nonneg [of y] by (simp add: rnd_def)
next
  case False
  assume "x \<le> y"
  then show ?thesis
    using False exponent_mono [of x y] rnd_mono_same [of x y] rnd_mono_less [of x y] by linarith
qed

lemma rnd_exact:
  assumes "0 < x" "x = of_int m * 2 powi exponent x" shows "rnd x = x"
proof -
  have "x / 2 powi exponent x = of_int m" using assms by (simp add: field_simps)
  then show ?thesis using assms by (simp add: rnd_def)
qed

lemma ilog2_range:
  assumes "0 < x" "2 powi a \<le> x" "x < 2 powi (b + 1)"
  shows "a \<le> ilog2 x" "ilog2 x \<le> b"
proof -
  have "(2::rat) powi a < 2 powi (ilog2 x + 1)" "(2::rat) powi ilog2 x < 2 powi (b + 1)"
    using ilog2_bounds [OF assms(1)] assms(2,3) by linarith+
  then have "a < ilog2 x + 1" "ilog2 x < b + 1" by (simp_all only: powi2_less_cancel)
  then show "a \<le> ilog2 x" "ilog2 x \<le> b" by simp_all
qed

lemma rnd_of_int:
  assumes "0 \<le> n" "n \<le> 2 ^ 53"
  shows "rnd (of_int n) = of_int n"
proof -
  consider "n = 0" | "n = 2 ^ 53" | "0 < n" "n < 2 ^ 53" using assms by linarith
  then show ?thesis
  proof cases
    case 1
    then show ?thesis by (simp add: rnd_def)
  next
    case 2
    then have x: "(of_int n :: rat) = 2 ^ 53" by simp
    have "ilog2 (2 ^ 53) = 53"
      using ilog2_range [of "2 ^ 53" 53 53] by (simp add: order_antisym)
    then have "exponent (2 ^ 53) = 1" by (simp add: exponent_def)
    then show ?thesis unfolding x by (intro rnd_exact [where m = "2 ^ 52"]) simp_all
  next
    case 3
    let ?x = "of_int n :: rat"
    have "1 \<le> ?x" using 3(1) by simp
    moreover have "?x < 2 ^ 53" using 3(2) by (metis of_int_less_iff of_int_numeral of_int_power)
    ultimately have "0 \<le> ilog2 ?x" "ilog2 ?x \<le> 52"
      using ilog2_range [of ?x 0 52] by simp_all
    then have e: "exponent ?x \<le> 0" by (simp add: exponent_def)
    let ?k = "nat (- exponent ?x)"
    have "(of_int (n * 2 ^ ?k) :: rat) * 2 powi exponent ?x = ?x * (2 powi int ?k * 2 powi exponent ?x)"
      by (simp only: of_int_mult of_int_power of_int_numeral power_int_of_nat mult.assoc)
    also have "\<dots> = ?x * 2 powi (int ?k + exponent ?x)" by (simp only: powi2_split)
    also have "\<dots> = ?x" using e by simp
    finally show ?thesis using 3(1) by (intro rnd_exact [where m = "n * 2 ^ ?k"]) simp_all
  qed
qed

lemma rnd_error:
  assumes "0 \<le> x" "x \<le> 2 ^ k"
  shows "\<bar>rnd x - x\<bar> \<le> 2 ^ k / 2 ^ 53"
proof (cases "x = 0")
  case False
  then have pos: "0 < x" using assms(1) by simp
  let ?p = "2 powi exponent x :: rat"
  have "(2::rat) powi ilog2 x \<le> 2 powi int k" using ilog2_bounds [OF pos] assms(2) by simp
  then have "ilog2 x \<le> int k" by (rule powi2_le_cancel)
  then have "exponent x \<le> int k - 52" by (simp add: exponent_def)
  then have "?p \<le> 2 powi (int k - 52)" by (rule powi2_mono)
  also have "\<dots> = 2 ^ k / 2 ^ 52" by (simp add: power_int_diff)
  finally have p: "?p \<le> 2 ^ k / 2 ^ 52" .
  have "rnd x - x = (of_int (rhe (x / ?p)) - x / ?p) * ?p" using pos by (simp add: rnd_def left_diff_distrib)
  then have "\<bar>rnd x - x\<bar> = \<bar>of_int (rhe (x / ?p)) - x / ?p\<bar> * ?p" by (simp add: abs_mult)
  also have "\<dots> \<le> 1/2 * ?p" using rhe_error [of "x / ?p"] by (intro mult_right_mono) simp_all
  finally show ?thesis using p by simp
qed (simp add: rnd_def)

section \<open>The laws of rounding\<close>

locale rounding =
  fixes r :: "rat \<Rightarrow> rat"
  assumes r_mono: "x \<le> y \<Longrightarrow> r x \<le> r y"
    and r_of_int: "0 \<le> n \<Longrightarrow> n \<le> 2 ^ 53 \<Longrightarrow> r (of_int n) = of_int n"
    and r_error: "0 \<le> x \<Longrightarrow> x \<le> 2 ^ k \<Longrightarrow> \<bar>r x - x\<bar> \<le> 2 ^ k / 2 ^ 53"
begin

text \<open>An integer the type represents bounds the rounded value as it bounds the exact one.\<close>

lemma r_le_int: "x \<le> of_int n \<Longrightarrow> 0 \<le> n \<Longrightarrow> n \<le> 2 ^ 53 \<Longrightarrow> r x \<le> of_int n"
  using r_mono [of x "of_int n"] r_of_int [of n] by simp

lemma r_ge_int: "of_int n \<le> x \<Longrightarrow> 0 \<le> n \<Longrightarrow> n \<le> 2 ^ 53 \<Longrightarrow> of_int n \<le> r x"
  using r_mono [of "of_int n" x] r_of_int [of n] by simp

lemma r_nonneg: "0 \<le> x \<Longrightarrow> 0 \<le> r x"
  using r_ge_int [of 0 x] by simp

end

interpretation ieee: rounding rnd
  by unfold_locales (rule rnd_mono rnd_of_int rnd_error; assumption)+

end
