(* ===== verification/Sampler.thy ===== *)
theory Sampler
  imports C_Lib Float64
begin

text \<open>
  The trace sampler (\<open>opentelemetry/jaeger/sampler.h\<close>): the conversion of a ratio to a 64-bit threshold
  in floating-point arithmetic, the threshold of a trace id, and the decision. The attribute
  container is a class of OpenTelemetry and a parameter: its \<open>ForEachKeyValue\<close> as a function of the
  callback, whose documented result is whether every call of the callback returned true.
\<close>

section \<open>Doubles\<close>

datatype dbl = Fin rat | PosInf | NegInf | NaN

fun d_le :: "dbl \<Rightarrow> rat \<Rightarrow> bool" where
  "d_le (Fin q) c = (q \<le> c)"
| "d_le NegInf c = True"
| "d_le PosInf c = False"
| "d_le NaN c = False"

fun d_ge :: "dbl \<Rightarrow> rat \<Rightarrow> bool" where
  "d_ge (Fin q) c = (c \<le> q)"
| "d_ge NegInf c = False"
| "d_ge PosInf c = True"
| "d_ge NaN c = False"

text \<open>The conversion to \<open>uint64_t\<close> drops the fraction and is undefined outside the type's range.\<close>

definition to_u64 :: "rat \<Rightarrow> u64 cexec" where
  "to_u64 x = (if 0 \<le> x \<and> x < 2 ^ 64 then Inr (of_int \<lfloor>x\<rfloor>) else Inl BadConversion)"

definition UINT32_MAX :: rat where "UINT32_MAX = 4294967295"
definition UINT64_MAX :: u64 where "UINT64_MAX = 0xffffffffffffffff"

section \<open>Thresholds\<close>

text \<open>
  The two halves of the threshold for a ratio strictly between 0 and 1: \<open>modf\<close> and \<open>ldexp\<close> are exact,
  the product and the sum are rounded (\<open>r\<close>).
\<close>

definition threshold_bits :: "(rat \<Rightarrow> rat) \<Rightarrow> rat \<Rightarrow> int \<times> rat" where
  "threshold_bits r ratio =
     (let product = r (UINT32_MAX * ratio);
          hi_bits = \<lfloor>product\<rfloor>;
          lo_bits = r ((product - of_int hi_bits) * 2 ^ 32 + product)
      in (hi_bits, lo_bits))"

definition CalculateThreshold :: "dbl \<Rightarrow> u64 cexec" where
  "CalculateThreshold ratio =
     (if d_le ratio 0 then Inr 0
      else if d_ge ratio 1 then Inr UINT64_MAX
      else case ratio of
        Fin q \<Rightarrow>
          (let (hi_bits, lo_bits) = threshold_bits rnd q in
           cbind (to_u64 (of_int hi_bits)) (\<lambda>hi. cbind (to_u64 lo_bits) (\<lambda>lo. Inr (push_bit 32 hi + lo))))
      | _ \<Rightarrow> Inl BadConversion)"

definition load64 :: "bytes \<Rightarrow> u64" where
  "load64 bs = (\<Sum>i\<leftarrow>[0..<8]. push_bit (8 * i) (ucast (bs ! i)))"

definition CalculateThresholdFromBuffer :: "bytes \<Rightarrow> u64 cexec" where
  "CalculateThresholdFromBuffer trace_id =
     (let res = load64 trace_id;
          ratio = rnd (rnd (of_nat (unat res)) / rnd (of_nat (unat UINT64_MAX)))
      in CalculateThreshold (Fin ratio))"

section \<open>The sampler\<close>

datatype Decision = DROP | RECORD_AND_SAMPLE

type_synonym 'v attributes = "(string \<Rightarrow> 'v \<Rightarrow> bool) \<Rightarrow> bool"

definition CheckIfForceSampling :: "'v attributes \<Rightarrow> bool" where
  "CheckIfForceSampling ForEachKeyValue = (\<not> ForEachKeyValue (\<lambda>key val. True))"

text \<open>
  \<open>std::to_string\<close> of a double prints six decimals, rounding the exact value to nearest with ties to
  even. The constructor clamps its ratio for the description only.
\<close>

definition to_string_double :: "dbl \<Rightarrow> string" where
  "to_string_double x = (case x of
     Fin q \<Rightarrow>
       (let n = nat (rhe (\<bar>q\<bar> * 10 ^ 6)); f = dec_string (n mod 10 ^ 6) in
        (if q < 0 then ''-'' else []) @ dec_string (n div 10 ^ 6) @ ''.'' @ replicate (6 - length f) CHR ''0'' @ f)
   | PosInf \<Rightarrow> ''inf'' | NegInf \<Rightarrow> ''-inf'' | NaN \<Rightarrow> ''nan'')"

record CustomSampler =
  description :: string
  threshold :: u64

definition make_CustomSampler :: "dbl \<Rightarrow> CustomSampler cexec" where
  "make_CustomSampler ratio =
     cbind (CalculateThreshold ratio) (\<lambda>t.
       let ratio1 = (if d_ge ratio 1 \<and> ratio \<noteq> Fin 1 then Fin 1 else ratio);
           ratio2 = (if d_le ratio1 0 \<and> ratio1 \<noteq> Fin 0 then Fin 0 else ratio1)
       in Inr \<lparr>description = ''CustomSampler{'' @ to_string_double ratio2 @ ''}'', threshold = t\<rparr>)"

definition ShouldSample :: "CustomSampler \<Rightarrow> bytes \<Rightarrow> 'v attributes \<Rightarrow> Decision cexec" where
  "ShouldSample s trace_id attributes =
     (if threshold s = 0 then Inr DROP
      else if CheckIfForceSampling attributes then Inr RECORD_AND_SAMPLE
      else cbind (CalculateThresholdFromBuffer trace_id) (\<lambda>t.
        Inr (if t \<le> threshold s then RECORD_AND_SAMPLE else DROP)))"

section \<open>The halves of a threshold\<close>

definition bits_value :: "int \<times> rat \<Rightarrow> int" where
  "bits_value b = fst b * 2 ^ 32 + \<lfloor>snd b\<rfloor>"

context rounding
begin

lemma product_range:
  assumes "0 \<le> q" "q \<le> 1"
  shows "0 \<le> r (UINT32_MAX * q)" "r (UINT32_MAX * q) \<le> 4294967295"
proof -
  show "0 \<le> r (UINT32_MAX * q)" using assms by (intro r_nonneg) (simp add: UINT32_MAX_def)
  show "r (UINT32_MAX * q) \<le> 4294967295"
    using r_le_int [of "UINT32_MAX * q" 4294967295] assms by (simp add: UINT32_MAX_def)
qed

lemma bits_range:
  assumes "0 \<le> q" "q \<le> 1" "threshold_bits r q = (hi, lo)"
  shows "0 \<le> hi" "hi \<le> 4294967295" "of_int hi \<le> lo" "lo \<le> of_int (2 ^ 32 + hi + 1)"
    and "hi = 4294967295 \<Longrightarrow> lo = 4294967295"
proof -
  let ?p = "r (UINT32_MAX * q)"
  let ?a = "(?p - of_int hi) * 2 ^ 32 + ?p"
  have hi: "hi = \<lfloor>?p\<rfloor>" and lo: "lo = r ?a"
    using assms(3) by (auto simp: threshold_bits_def Let_def)
  have p: "0 \<le> ?p" "?p \<le> 4294967295" using product_range [OF assms(1,2)] .
  have f: "of_int hi \<le> ?p" "?p < of_int hi + 1" using hi by linarith+
  show h: "0 \<le> hi" "hi \<le> 4294967295" using p f by linarith+
  have a: "of_int hi \<le> ?a" "?a \<le> of_int (2 ^ 32 + hi + 1)" using f by simp_all
  show "of_int hi \<le> lo" unfolding lo using a(1) h by (intro r_ge_int) simp_all
  show "lo \<le> of_int (2 ^ 32 + hi + 1)" unfolding lo using a(2) h by (intro r_le_int) simp_all
  show "lo = 4294967295" if "hi = 4294967295"
  proof -
    have "?p = of_int 4294967295" using that f(1) p(2) by simp
    then have "?a = of_int 4294967295" using that by simp
    then have "lo = r (of_int 4294967295)" unfolding lo by (simp only:)
    also have "\<dots> = of_int 4294967295" by (rule r_of_int) simp_all
    finally show ?thesis by simp
  qed
qed

lemma bits_value_range:
  assumes "0 \<le> q" "q \<le> 1"
  shows "0 \<le> bits_value (threshold_bits r q)" "bits_value (threshold_bits r q) < 2 ^ 64"
proof -
  obtain hi lo where b: "threshold_bits r q = (hi, lo)" by (cases "threshold_bits r q")
  note rg = bits_range [OF assms b]
  have l: "\<lfloor>lo\<rfloor> \<le> 2 ^ 32 + hi + 1" "hi \<le> \<lfloor>lo\<rfloor>" using rg(3,4) by linarith+
  then show "0 \<le> bits_value (threshold_bits r q)" using rg(1) by (simp add: b bits_value_def)
  show "bits_value (threshold_bits r q) < 2 ^ 64"
  proof (cases "hi = 4294967295")
    case True
    then show ?thesis using rg(5) by (simp add: b bits_value_def)
  next
    case False
    then show ?thesis using l(1) rg(2) by (simp add: b bits_value_def)
  qed
qed

lemma bits_value_mono:
  assumes "0 \<le> q" "q \<le> q'" "q' \<le> 1"
  shows "bits_value (threshold_bits r q) \<le> bits_value (threshold_bits r q')"
proof -
  obtain hi lo hi' lo' where b: "threshold_bits r q = (hi, lo)" "threshold_bits r q' = (hi', lo')"
    by (metis surj_pair)
  have rg: "lo \<le> of_int (2 ^ 32 + hi + 1)" "of_int hi' \<le> lo'"
    using bits_range [OF _ _ b(1)] bits_range [OF _ _ b(2)] assms by auto
  let ?p = "r (UINT32_MAX * q)" and ?p' = "r (UINT32_MAX * q')"
  have pp: "?p \<le> ?p'" using assms by (intro r_mono) (simp add: UINT32_MAX_def)
  have hl: "hi = \<lfloor>?p\<rfloor>" "lo = r ((?p - of_int hi) * 2 ^ 32 + ?p)"
    "hi' = \<lfloor>?p'\<rfloor>" "lo' = r ((?p' - of_int hi') * 2 ^ 32 + ?p')"
    using b by (auto simp: threshold_bits_def Let_def)
  have le: "hi \<le> hi'" unfolding hl using pp by (rule floor_mono)
  show ?thesis
  proof (cases "hi = hi'")
    case True
    then have "lo \<le> lo'" unfolding hl(2,4) using pp by (intro r_mono) simp
    then show ?thesis using True by (simp add: b bits_value_def floor_mono)
  next
    case False
    then have "hi + 1 \<le> hi'" using le by simp
    moreover have "\<lfloor>lo\<rfloor> \<le> 2 ^ 32 + hi + 1" "hi' \<le> \<lfloor>lo'\<rfloor>" using rg by linarith+
    ultimately show ?thesis by (simp add: b bits_value_def)
  qed
qed

lemma bits_value_accuracy:
  assumes "0 \<le> q" "q \<le> 1"
  shows "\<bar>of_int (bits_value (threshold_bits r q)) - q * (2 ^ 64 - 1)\<bar> \<le> 2051"
proof -
  obtain hi lo where b: "threshold_bits r q = (hi, lo)" by (cases "threshold_bits r q")
  let ?p = "r (UINT32_MAX * q)"
  let ?a = "(?p - of_int hi) * 2 ^ 32 + ?p"
  have hi: "hi = \<lfloor>?p\<rfloor>" and lo: "lo = r ?a" using b by (auto simp: threshold_bits_def Let_def)
  have p: "0 \<le> ?p" "?p \<le> 4294967295" using product_range [OF assms] .
  have f: "of_int hi \<le> ?p" "?p < of_int hi + 1" using hi by linarith+
  have "\<bar>?p - UINT32_MAX * q\<bar> \<le> 2 ^ 32 / 2 ^ 53" using assms by (intro r_error) (simp_all add: UINT32_MAX_def)
  then have ep: "\<bar>?p - 4294967295 * q\<bar> \<le> 1 / 2097152" by (simp add: UINT32_MAX_def)
  have "0 \<le> ?a" "?a \<le> 2 ^ 33" using f p by simp_all
  then have el: "\<bar>lo - ?a\<bar> \<le> 1" unfolding lo using r_error [of ?a 33] by simp
  have "of_int \<lfloor>lo\<rfloor> \<le> lo" "lo < of_int \<lfloor>lo\<rfloor> + 1" by linarith+
  moreover have "(of_int (bits_value (hi, lo)) :: rat) = of_int hi * 4294967296 + of_int \<lfloor>lo\<rfloor>"
    by (simp add: bits_value_def)
  moreover have "?a = ?p * 4294967297 - of_int hi * 4294967296" by simp
  moreover have "lo - ?a \<le> 1" "?a - lo \<le> 1" using el by linarith+
  moreover have "?p - 4294967295 * q \<le> 1 / 2097152" "4294967295 * q - ?p \<le> 1 / 2097152" using ep by linarith+
  ultimately have "of_int (bits_value (hi, lo)) - q * 18446744073709551615 \<le> 2051"
    "q * 18446744073709551615 - of_int (bits_value (hi, lo)) \<le> 2051" by linarith+
  then show ?thesis unfolding b by (simp add: abs_le_iff)
qed

end

section \<open>Thresholds\<close>

text \<open>The threshold of a ratio as an integer, and that the 64-bit computation does not wrap.\<close>

definition ratio_value :: "rat \<Rightarrow> int" where
  "ratio_value q = (if q \<le> 0 then 0 else if 1 \<le> q then 2 ^ 64 - 1 else bits_value (threshold_bits rnd q))"

lemma to_u64_int: "0 \<le> n \<Longrightarrow> n < 2 ^ 64 \<Longrightarrow> to_u64 (of_int n) = Inr (of_int n)"
  by (simp add: to_u64_def)

lemma threshold_words:
  assumes "0 \<le> q" "q \<le> 1" "threshold_bits rnd q = (hi, lo)"
  shows "cbind (to_u64 (of_int hi)) (\<lambda>h. cbind (to_u64 lo) (\<lambda>l. Inr (push_bit 32 h + l))) =
    Inr (of_int (bits_value (hi, lo)) :: u64)"
proof -
  note rg = ieee.bits_range [OF assms]
  have "to_u64 (of_int hi) = Inr (of_int hi)" using rg(1,2) by (intro to_u64_int) simp_all
  moreover have "to_u64 lo = Inr (of_int \<lfloor>lo\<rfloor>)"
  proof -
    have "(of_int (2 ^ 32 + hi + 1) :: rat) \<le> of_int (2 ^ 33)"
      unfolding of_int_le_iff using rg(2) by simp
    then have "lo \<le> 2 ^ 33" using rg(4) by simp
    moreover have "0 \<le> lo" using rg(1,3) by (meson of_int_0_le_iff order_trans)
    ultimately show ?thesis by (simp add: to_u64_def)
  qed
  moreover have "push_bit 32 (of_int hi :: u64) + of_int \<lfloor>lo\<rfloor> = of_int (bits_value (hi, lo))"
    by (simp add: bits_value_def push_bit_eq_mult)
  ultimately show ?thesis by simp
qed

lemma CalculateThreshold_eq: "CalculateThreshold (Fin q) = Inr (of_int (ratio_value q))"
proof (cases "0 < q \<and> q < 1")
  case True
  obtain hi lo where b: "threshold_bits rnd q = (hi, lo)" by (cases "threshold_bits rnd q")
  then show ?thesis using True threshold_words [of q hi lo] by (simp add: CalculateThreshold_def ratio_value_def)
next
  case False
  then show ?thesis by (auto simp: CalculateThreshold_def ratio_value_def UINT64_MAX_def)
qed

lemma ratio_value_range: "0 \<le> ratio_value q" "ratio_value q < 2 ^ 64"
  using ieee.bits_value_range [of q] by (auto simp: ratio_value_def)

lemma uint_ratio_value: "uint (of_int (ratio_value q) :: u64) = ratio_value q"
  using ratio_value_range [of q] by (simp add: uint_word_of_int)

lemma ratio_value_mono: "q \<le> q' \<Longrightarrow> ratio_value q \<le> ratio_value q'"
  using ratio_value_range [of q] ratio_value_range [of q'] ieee.bits_value_mono [of q q']
  by (auto simp: ratio_value_def)

lemma ratio_value_accuracy:
  assumes "0 \<le> q" "q \<le> 1" shows "\<bar>of_int (ratio_value q) - q * (2 ^ 64 - 1)\<bar> \<le> 2051"
  using assms ieee.bits_value_accuracy [OF assms] by (auto simp: ratio_value_def)

text \<open>C35. \<open>CalculateThreshold\<close> has a result for every ratio but NaN; the 64-bit sum of the two halves never
  wraps, so that the threshold is monotone in the ratio, and it differs from the exact product of the
  ratio with \<open>UINT64_MAX\<close> by at most 2051.\<close>

theorem CalculateThreshold_spec:
  assumes "q \<le> q'"
  shows "\<exists>t t'. CalculateThreshold (Fin q) = Inr t \<and> CalculateThreshold (Fin q') = Inr t' \<and> t \<le> t' \<and>
      (0 \<le> q \<and> q \<le> 1 \<longrightarrow> \<bar>of_nat (unat t) - q * (2 ^ 64 - 1)\<bar> \<le> 2051) \<and>
      (\<forall>ratio. (\<exists>t. CalculateThreshold ratio = Inr t) \<longleftrightarrow> ratio \<noteq> NaN)"
proof -
  let ?w = "\<lambda>q. of_int (ratio_value q) :: u64"
  have "?w q \<le> ?w q'" unfolding word_le_def uint_ratio_value using assms by (rule ratio_value_mono)
  moreover have "(of_nat (unat (?w q)) :: rat) = of_int (ratio_value q)"
  proof -
    have "int (unat (?w q)) = ratio_value q" using uint_ratio_value [of q] by simp
    then show ?thesis by (metis of_int_of_nat_eq)
  qed
  moreover have "(\<exists>t. CalculateThreshold ratio = Inr t) \<longleftrightarrow> ratio \<noteq> NaN" for ratio
    by (cases ratio) (simp_all add: CalculateThreshold_eq, simp_all add: CalculateThreshold_def)
  ultimately show ?thesis using ratio_value_accuracy [of q] by (simp add: CalculateThreshold_eq)
qed

theorem CalculateThreshold_spec_witness:
  "\<exists>t. CalculateThreshold (Fin (1/2)) = Inr t \<and> \<bar>of_nat (unat t) - (1/2) * (2 ^ 64 - 1)\<bar> \<le> (2051 :: rat)"
  using CalculateThreshold_spec [of "1/2" "1/2"] by auto

section \<open>Decisions\<close>

lemma rnd_UINT64_MAX: "rnd (of_nat (unat UINT64_MAX)) = 2 ^ 64"
proof -
  let ?x = "2 ^ 64 - 1 :: rat"
  have x: "of_nat (unat UINT64_MAX) = ?x" by (simp add: UINT64_MAX_def)
  have "63 \<le> ilog2 ?x" "ilog2 ?x \<le> 63"
    using ilog2_range [of ?x 63 63] by simp_all
  then have e: "exponent ?x = 11" by (simp add: exponent_def)
  have "\<lfloor>?x / 2 powi 11\<rfloor> = 2 ^ 53 - 1" by (simp add: floor_eq_iff)
  then have "rhe (?x / 2 powi 11) = 2 ^ 53" unfolding rhe_def Let_def by simp
  then show ?thesis unfolding x rnd_def e by simp
qed

definition id_ratio :: "bytes \<Rightarrow> rat" where
  "id_ratio trace_id = rnd (rnd (of_nat (unat (load64 trace_id))) / 2 ^ 64)"

lemma id_threshold: "CalculateThresholdFromBuffer trace_id = Inr (of_int (ratio_value (id_ratio trace_id)))"
  by (simp only: CalculateThresholdFromBuffer_def Let_def rnd_UINT64_MAX id_ratio_def CalculateThreshold_eq)

lemma id_value_accuracy:
  "\<bar>of_int (ratio_value (id_ratio trace_id)) - (of_nat (unat (load64 trace_id)) :: rat)\<bar> \<le> 6148"
proof -
  define N where "N = unat (load64 trace_id)"
  let ?n = "of_nat N :: rat"
  let ?x = "rnd ?n / 2 ^ 64"
  let ?q = "id_ratio trace_id"
  have qx: "?q = rnd ?x" by (simp only: id_ratio_def N_def)
  have N: "N \<le> unat UINT64_MAX"
    using unat_less_u64 [of "load64 trace_id"] by (simp add: N_def UINT64_MAX_def)
  then have "N \<le> 2 ^ 64" by (simp add: UINT64_MAX_def)
  then have "?n \<le> 2 ^ 64" by (metis of_nat_le_iff of_nat_numeral of_nat_power)
  then have e1: "\<bar>rnd ?n - ?n\<bar> \<le> 2048" using rnd_error [of ?n 64] by simp
  have "?n \<le> of_nat (unat UINT64_MAX)" using N by (simp only: of_nat_le_iff)
  then have "rnd ?n \<le> 2 ^ 64" using rnd_mono rnd_UINT64_MAX by metis
  then have x: "0 \<le> ?x" "?x \<le> 1" using rnd_nonneg [of ?n] by simp_all
  then have e2: "\<bar>?q - ?x\<bar> \<le> 1 / 2 ^ 53" using rnd_error [of ?x 0] by (simp add: qx)
  have q: "0 \<le> ?q" "?q \<le> 1"
    using ieee.r_nonneg [OF x(1)] ieee.r_le_int [of ?x 1] x by (simp_all add: qx)
  have "?x * 2 ^ 64 = rnd ?n" by simp
  then have "\<bar>of_int (ratio_value ?q) - ?n\<bar> \<le> 6148"
    using ratio_value_accuracy [OF q] e1 e2 q unfolding abs_le_iff by simp
  then show ?thesis by (simp only: N_def)
qed

lemma make_CustomSampler_threshold:
  "make_CustomSampler (Fin q) = Inr s \<Longrightarrow> threshold s = of_int (ratio_value q)"
  by (auto simp: make_CustomSampler_def CalculateThreshold_eq Let_def)

lemma of_int_ratio_le:
  "(of_int (ratio_value a) :: u64) \<le> of_int (ratio_value b) \<longleftrightarrow> ratio_value a \<le> ratio_value b"
  by (simp add: word_le_def uint_ratio_value)

lemma of_int_ratio_zero: "(of_int (ratio_value a) :: u64) = 0 \<longleftrightarrow> ratio_value a = 0"
  using uint_ratio_value [of a] by (metis of_int_0 unsigned_0)

lemma ShouldSample_eq:
  assumes "make_CustomSampler (Fin q) = Inr s" "attributes (\<lambda>key val. True)"
  shows "ShouldSample s trace_id attributes =
    Inr (if ratio_value q \<noteq> 0 \<and> ratio_value (id_ratio trace_id) \<le> ratio_value q then RECORD_AND_SAMPLE else DROP)"
  using assms(2)
  by (simp add: ShouldSample_def make_CustomSampler_threshold [OF assms(1)] CheckIfForceSampling_def id_threshold
      of_int_ratio_le of_int_ratio_zero)

text \<open>The sampler's decisions are consistent: a trace sampled at a ratio is sampled at every larger one,
  a ratio of at least 1 samples every trace and a ratio of at most 0 none, for every attribute container
  whose \<open>ForEachKeyValue\<close> is true when the callback always is.\<close>

theorem sampler_consistent:
  assumes "make_CustomSampler (Fin q) = Inr s" "make_CustomSampler (Fin q') = Inr s'" "q \<le> q'"
    and "attributes (\<lambda>key val. True)"
  shows "(ShouldSample s trace_id attributes = Inr RECORD_AND_SAMPLE \<longrightarrow>
            ShouldSample s' trace_id attributes = Inr RECORD_AND_SAMPLE) \<and>
         (1 \<le> q \<longrightarrow> ShouldSample s trace_id attributes = Inr RECORD_AND_SAMPLE) \<and>
         (q \<le> 0 \<longrightarrow> ShouldSample s trace_id attributes = Inr DROP)"
proof (intro conjI impI)
  note eq = ShouldSample_eq [where attributes = attributes, OF assms(1,4)]
    ShouldSample_eq [where attributes = attributes, OF assms(2,4)]
  note mono = ratio_value_mono [OF assms(3)] ratio_value_range [of q] ratio_value_range [of q']
  show "ShouldSample s' trace_id attributes = Inr RECORD_AND_SAMPLE"
    if "ShouldSample s trace_id attributes = Inr RECORD_AND_SAMPLE"
    using that mono unfolding eq by (auto split: if_splits)
  show "ShouldSample s trace_id attributes = Inr RECORD_AND_SAMPLE" if "1 \<le> q"
    using that ratio_value_range [of "id_ratio trace_id"] unfolding eq by (simp add: ratio_value_def [of q])
  show "ShouldSample s trace_id attributes = Inr DROP" if "q \<le> 0"
    using that unfolding eq by (simp add: ratio_value_def [of q])
qed


lemma make_CustomSampler_defined: "\<exists>s. make_CustomSampler (Fin q) = Inr s"
  by (simp add: make_CustomSampler_def CalculateThreshold_eq Let_def)

theorem sampler_consistent_witness:
  "\<exists>s. make_CustomSampler (Fin 1) = Inr s \<and>
     ShouldSample s (replicate 16 255) (\<lambda>cb. cb ''k'' ()) = Inr RECORD_AND_SAMPLE"
proof -
  obtain s where s: "make_CustomSampler (Fin 1) = Inr s" using make_CustomSampler_defined by blast
  then show ?thesis using sampler_consistent [OF s s, of "\<lambda>cb. cb ''k'' ()"] by simp
qed


end
