(* ===== verification/Std_Map.thy ===== *)
theory Std_Map
  imports Main
begin

text \<open>
  The associative containers of the C++ standard library as the program uses them: \<open>insert\<close> leaves an
  entry that is already there unchanged, \<open>erase\<close> removes the entry, \<open>find\<close> looks it up and \<open>[]\<close> assigns.
  A container is the list of its entries. The locale \<open>insert_map\<close> is what its clients rely on.
\<close>

type_synonym ('k, 'v) std_map = "('k \<times> 'v) list"

definition map_find :: "'k \<Rightarrow> ('k, 'v) std_map \<Rightarrow> 'v option" where
  "map_find k m = map_of m k"

definition map_insert :: "'k \<Rightarrow> 'v \<Rightarrow> ('k, 'v) std_map \<Rightarrow> ('k, 'v) std_map" where
  "map_insert k v m = (case map_find k m of None \<Rightarrow> m @ [(k, v)] | Some _ \<Rightarrow> m)"

definition map_erase :: "'k \<Rightarrow> ('k, 'v) std_map \<Rightarrow> ('k, 'v) std_map" where
  "map_erase k m = filter (\<lambda>e. fst e \<noteq> k) m"

locale insert_map =
  fixes find :: "'k \<Rightarrow> 'm \<Rightarrow> 'v option"
    and insert :: "'k \<Rightarrow> 'v \<Rightarrow> 'm \<Rightarrow> 'm"
    and erase :: "'k \<Rightarrow> 'm \<Rightarrow> 'm"
  assumes find_insert: "find j (insert k v m) = (if j = k \<and> find k m = None then Some v else find j m)"
    and find_erase: "find j (erase k m) = (if j = k then None else find j m)"
begin

text \<open>Along a sequence of insertions an entry that is there stays, and otherwise the first one wins.\<close>

lemma find_inserts_present:
  "find k m = Some v \<Longrightarrow> find k (fold (\<lambda>(j, u). insert j u) es m) = Some v"
proof (induction es arbitrary: m)
  case (Cons e es)
  have "find k (insert (fst e) (snd e) m) = Some v" using Cons.prems by (auto simp: find_insert)
  then show ?case using Cons.IH by (simp add: case_prod_beta)
qed simp

lemma find_inserts:
  "find k m = None \<Longrightarrow> find k (fold (\<lambda>(j, u). insert j u) es m) = map_of es k"
proof (induction es arbitrary: m)
  case (Cons e es)
  obtain j u where e: "e = (j, u)" by (cases e)
  show ?case
  proof (cases "j = k")
    case True
    then show ?thesis using Cons.prems by (simp add: e find_inserts_present find_insert)
  next
    case False
    then have "find k (insert j u m) = None" using Cons.prems by (simp add: find_insert)
    then show ?thesis using False Cons.IH by (simp add: e)
  qed
qed simp

lemma insert_erase: "find k (insert k v (erase k m)) = Some v"
  by (simp add: find_insert find_erase)

end

interpretation sm: insert_map map_find map_insert map_erase
proof
  fix j k :: 'k and v :: 'v and m :: "('k, 'v) std_map"
  show "map_find j (map_insert k v m) = (if j = k \<and> map_find k m = None then Some v else map_find j m)"
    by (cases "map_of m k"; cases "map_of m j") (auto simp: map_find_def map_insert_def map_add_def)
  show "map_find j (map_erase k m) = (if j = k then None else map_find j m)"
    by (induction m) (auto simp: map_find_def map_erase_def)
qed

end
