(* ===== verification/Tracer.thy ===== *)
theory Tracer
  imports C_Lib Std_Map
begin

text \<open>
  The tracer (\<open>opentelemetry/jaeger/tracer.h\<close>, \<open>tracer.cc\<close>), its header carrier, and the program that
  posts with it (\<open>http.cc\<close>, \<open>example.cc\<close>). The carrier's header container is a template parameter:
  its \<open>find\<close> and \<open>insert\<close> are arguments. The container the tracer uses is a multimap of OpenTelemetry
  whose keys compare without case; what the carrier relies on of it is the locale \<open>header_map\<close>. The
  SDK's tracers and spans, and libcurl, are parameters too.
\<close>

section \<open>The carrier\<close>

definition kTraceParent :: string where "kTraceParent = ''traceparent''"
definition kTraceState :: string where "kTraceState = ''tracestate''"

definition key_to_compare :: "string \<Rightarrow> string" where
  "key_to_compare key =
     (if key = kTraceParent then ''Traceparent''
      else if key = kTraceState then ''Tracestate''
      else takeWhile (\<lambda>c. c \<noteq> CHR 0x00) key)"

definition carrier_Get :: "(string \<Rightarrow> 'h \<Rightarrow> string option) \<Rightarrow> string \<Rightarrow> 'h \<Rightarrow> string" where
  "carrier_Get fnd key headers = (case fnd (key_to_compare key) headers of Some v \<Rightarrow> v | None \<Rightarrow> [])"

definition carrier_Set :: "(string \<Rightarrow> string \<Rightarrow> 'h \<Rightarrow> 'h) \<Rightarrow> string \<Rightarrow> string \<Rightarrow> 'h \<Rightarrow> 'h" where
  "carrier_Set ins key val headers = ins key val headers"

text \<open>
  The contract of the header container: keys are equivalent when they are the same word without case, and
  a lookup finds the first entry inserted under an equivalent key.
\<close>

locale header_map =
  fixes find :: "string \<Rightarrow> 'h \<Rightarrow> string option"
    and insert :: "string \<Rightarrow> string \<Rightarrow> 'h \<Rightarrow> 'h"
    and empty :: 'h
  assumes find_empty: "find j empty = None"
    and find_insert: "find j (insert k v h) =
      (case find j h of Some u \<Rightarrow> Some u | None \<Rightarrow> if same_word k j then Some v else None)"
begin

lemma find_fold_some:
  "find j h = Some u \<Longrightarrow> find j (fold (\<lambda>(k, v). insert k v) kvs h) = Some u"
proof (induction kvs arbitrary: h)
  case (Cons kv kvs)
  then show ?case by (cases kv) (simp add: find_insert)
qed simp

lemma find_fold:
  "find j h = None \<Longrightarrow>
   find j (fold (\<lambda>(k, v). insert k v) kvs h) = map_option snd (List.find (\<lambda>(k, v). same_word k j) kvs)"
proof (induction kvs arbitrary: h)
  case (Cons kv kvs)
  obtain k v where kv: "kv = (k, v)" by (cases kv)
  show ?case
  proof (cases "same_word k j")
    case True
    then have "find j (insert k v h) = Some v" using Cons.prems by (simp add: find_insert)
    then show ?thesis using True by (simp add: kv find_fold_some)
  next
    case False
    then have "find j (insert k v h) = None" using Cons.prems by (simp add: find_insert)
    then show ?thesis using False Cons.IH by (simp add: kv)
  qed
qed simp

end

text \<open>A multimap with keys compared without case, as a list of its entries in insertion order.\<close>

definition ic_find :: "string \<Rightarrow> (string \<times> string) list \<Rightarrow> string option" where
  "ic_find j h = map_option snd (List.find (\<lambda>(k, v). same_word k j) h)"

definition ic_insert :: "string \<Rightarrow> string \<Rightarrow> (string \<times> string) list \<Rightarrow> (string \<times> string) list" where
  "ic_insert k v h = h @ [(k, v)]"

lemma find_append_single: "List.find P (xs @ [x]) = (case List.find P xs of Some y \<Rightarrow> Some y | None \<Rightarrow> if P x then Some x else None)"
  by (induction xs) auto

interpretation icm: header_map ic_find ic_insert "[]"
  by unfold_locales (auto simp: ic_find_def ic_insert_def find_append_single split: option.splits)

section \<open>The tracer\<close>

text \<open>The enumeration is not scoped, so that a value outside it is possible.\<close>

datatype TraceType = Otel_GRPC | Memory | OtherTrace int

definition sTraceType :: "(TraceType, string) std_map" where
  "sTraceType = [(Otel_GRPC, ''otel grpc''), (Memory, ''memory'')]"

text \<open>What a tracer of the SDK is built from: its exporter, its resource, and its name and version.\<close>

datatype span_exporter = OtlpGrpc string bool | InMemory

record sdk_tracer =
  sdk_exporter :: span_exporter
  sdk_resource :: "(string \<times> string) list"
  sdk_always_on :: bool
  sdk_app :: string
  sdk_ver :: string

record Tracer =
  m_tracer :: "sdk_tracer option"
  m_currentSpan :: "nat option"
  m_parentSpans :: "nat list"
  m_spanMap :: "(bytes, nat) std_map"
  m_activeScopes :: "nat list"

definition default_Tracer :: Tracer where
  "default_Tracer = \<lparr>m_tracer = None, m_currentSpan = None, m_parentSpans = [], m_spanMap = [], m_activeScopes = []\<rparr>"

definition createResources :: "(string \<times> string) list" where
  "createResources = [(''service.name'', ''Test''), (''service.instance.id'', ''Test-12'')]"

definition InitInMemoryTracer :: "string \<Rightarrow> string \<Rightarrow> Tracer \<Rightarrow> Tracer" where
  "InitInMemoryTracer app ver tr =
     tr\<lparr>m_tracer := Some \<lparr>sdk_exporter = InMemory, sdk_resource = createResources, sdk_always_on = True,
                           sdk_app = app, sdk_ver = ver\<rparr>\<rparr>"

text \<open>\<open>None\<close> is the call of \<open>exit(-1)\<close>.\<close>

definition initTracer :: "string \<Rightarrow> string \<Rightarrow> TraceType \<Rightarrow> Tracer \<Rightarrow> Tracer option" where
  "initTracer app ver t tr = (case t of
     Otel_GRPC \<Rightarrow> Some (tr\<lparr>m_tracer := Some \<lparr>sdk_exporter = OtlpGrpc ''127.0.0.1:4317'' False, sdk_resource = createResources,
                                                sdk_always_on = True, sdk_app = app, sdk_ver = ver\<rparr>\<rparr>)
   | Memory \<Rightarrow> Some (InitInMemoryTracer app ver tr)
   | OtherTrace i \<Rightarrow> None)"

definition make_Tracer :: "string \<Rightarrow> string \<Rightarrow> TraceType \<Rightarrow> Tracer option" where
  "make_Tracer app ver t = initTracer app ver t default_Tracer"

definition destroy_Tracer :: "Tracer \<Rightarrow> Tracer" where
  "destroy_Tracer tr = tr\<lparr>m_spanMap := [], m_parentSpans := [], m_activeScopes := []\<rparr>"

definition GetSpanMap :: "Tracer \<Rightarrow> (bytes, nat) std_map" where
  "GetSpanMap tr = m_spanMap tr"

text \<open>The log handler of the tracer prints the message alone.\<close>

definition handler_line :: "string \<Rightarrow> int \<Rightarrow> string \<Rightarrow> string" where
  "handler_line file line msg = msg"

text \<open>The SDK's \<open>StartSpan\<close> returns the new span to the caller; the tracer object does not keep it.\<close>

definition StartSpan :: "(sdk_tracer \<Rightarrow> string \<Rightarrow> nat) \<Rightarrow> string \<Rightarrow> Tracer \<Rightarrow> nat cexec" where
  "StartSpan sdk_start name tr = (case m_tracer tr of None \<Rightarrow> Inl NullPointer | Some p \<Rightarrow> Inr (sdk_start p name))"

definition GetCurrentSpan :: "Tracer \<Rightarrow> nat option" where
  "GetCurrentSpan tr = m_currentSpan tr"

definition GetSpanId :: "(nat \<Rightarrow> bytes) \<Rightarrow> Tracer \<Rightarrow> bytes cexec" where
  "GetSpanId span_id tr = (case GetCurrentSpan tr of None \<Rightarrow> Inl NullPointer | Some sp \<Rightarrow> Inr (span_id sp))"

definition GetTraceTypeStr :: "TraceType \<Rightarrow> string option" where
  "GetTraceTypeStr t = map_find t sTraceType"

text \<open>The propagator of the SDK writes the headers of the current context into an empty carrier and reads
  a context from a carrier.\<close>

definition InjectSpan :: "(string \<Rightarrow> string \<Rightarrow> 'h \<Rightarrow> 'h) \<Rightarrow> 'h \<Rightarrow> (string \<times> string) list \<Rightarrow> 'h" where
  "InjectSpan ins empt ctx_headers = fold (\<lambda>(k, v). carrier_Set ins k v) ctx_headers empt"

definition ExtractSpan :: "(string \<Rightarrow> 'h \<Rightarrow> string option) \<Rightarrow> ((string \<Rightarrow> string) \<Rightarrow> 'sp) \<Rightarrow> 'h \<Rightarrow> 'sp" where
  "ExtractSpan fnd read_context headers = read_context (\<lambda>key. carrier_Get fnd key headers)"

section \<open>The program\<close>

text \<open>
  \<open>std::isspace\<close> on a \<open>char\<close>: a character above 127 is negative, which the function is not defined
  for. \<open>find_if\<close> looks at the characters up to the first that is not white space.
\<close>

definition isspace_call :: "char \<Rightarrow> bool cexec" where
  "isspace_call c = (if (of_char c :: nat) < 128 then Inr (isspace c) else Inl OutOfBounds)"

fun ltrim :: "string \<Rightarrow> string cexec" where
  "ltrim [] = Inr []"
| "ltrim (c # cs) = cbind (isspace_call c) (\<lambda>sp. if sp then ltrim cs else Inr (c # cs))"

definition rtrim :: "string \<Rightarrow> string cexec" where
  "rtrim s = cbind (ltrim (rev s)) (\<lambda>t. Inr (rev t))"

definition trim :: "string \<Rightarrow> string cexec" where
  "trim s = cbind (ltrim s) rtrim"

text \<open>
  \<open>httpClient::post\<close>: the options set on the handle, of which the last value of each counts, and the
  name and the events of the span. \<open>None\<close> is the \<open>exit\<close> of a tracer that cannot be made.
\<close>

datatype curl_opt = OptUrl string | OptHttp2 | OptVerifyPeer int | OptVerifyHost int | OptPostFields string

definition curl_url :: "curl_opt list \<Rightarrow> string option" where
  "curl_url os = (case filter (\<lambda>x. case x of OptUrl _ \<Rightarrow> True | _ \<Rightarrow> False) (rev os) of OptUrl s # _ \<Rightarrow> Some s | _ \<Rightarrow> None)"

definition post_options :: "string \<Rightarrow> string \<Rightarrow> string \<Rightarrow> curl_opt list" where
  "post_options ip api json =
     [OptUrl ''http://localhost:8344'', OptHttp2, OptVerifyPeer 0, OptVerifyHost 0, OptUrl (ip @ api), OptPostFields json]"

definition post :: "bool \<Rightarrow> (curl_opt list \<Rightarrow> bool) \<Rightarrow> string \<Rightarrow> string \<Rightarrow> string \<Rightarrow> TraceType \<Rightarrow> (bool \<times> string list) option" where
  "post have_handle perform ip api json t =
     (case (make_Tracer ''httpClient'' ''1.0.0'' t, GetTraceTypeStr t) of
        (Some tr, Some name) \<Rightarrow>
          (let span = ''http post '' @ name in
           if \<not> have_handle then Some (False, [span])
           else
             let ret = perform (post_options ip api json)
             in Some (ret, [span, ''sending to localhost:8344'', ''completed, ret: '' @ (if ret then ''1'' else ''0'')]))
      | _ \<Rightarrow> None)"

lemma post_valid_type:
  "t = Otel_GRPC \<or> t = Memory \<Longrightarrow> \<exists>r. post have_handle perform ip api json t = Some r"
  by (auto simp: post_def make_Tracer_def initTracer_def GetTraceTypeStr_def map_find_def sTraceType_def Let_def)

definition example_json :: string where
  "example_json = ''{'' @ [CHR 0x0A] @ ''ame'' @ [CHR 0x22] @ '' : '' @ [CHR 0x22] @ ''test1'' @ [CHR 0x22] @ ''}''"

definition tracer_line :: "bool \<Rightarrow> (curl_opt list \<Rightarrow> bool) \<Rightarrow> string \<Rightarrow> (TraceType \<times> bool \<times> string) cexec" where
  "tracer_line have_handle perform str =
     cbind (trim str) (\<lambda>s.
       let t = (if s = ''mem'' then Memory else Otel_GRPC);
           ret = fst (the (post have_handle perform ''http://localhost:3000/'' ''test1'' example_json t))
       in Inr (t, ret, ''sent: '' @ (if ret then ''1'' else ''0'')))"

fun tracer_main :: "bool \<Rightarrow> (curl_opt list \<Rightarrow> bool) \<Rightarrow> string list \<Rightarrow> string list cexec" where
  "tracer_main have_handle perform [] = Inr []"
| "tracer_main have_handle perform (l # ls) =
     cbind (tracer_line have_handle perform l) (\<lambda>(t, ret, line).
     cbind (tracer_main have_handle perform ls) (\<lambda>rest. Inr (line # rest)))"

section \<open>Propagation\<close>

lemma same_word_key: "CHR 0x00 \<notin> set key \<Longrightarrow> same_word k (key_to_compare key) = same_word k key"
proof -
  assume nul: "CHR 0x00 \<notin> set key"
  have tp: "same_word ''Traceparent'' kTraceParent" by code_simp
  have ts: "same_word ''Tracestate'' kTraceState" by code_simp
  have "\<forall>c\<in>set key. c \<noteq> CHR 0x00" using nul by blast
  then have tw: "takeWhile (\<lambda>c. c \<noteq> CHR 0x00) key = key" by (simp add: takeWhile_eq_all_conv)
  consider "key = kTraceParent" | "key = kTraceState" "key \<noteq> kTraceParent" | "key \<noteq> kTraceParent" "key \<noteq> kTraceState"
    by blast
  then have "same_word (key_to_compare key) key"
  proof cases
    case 1
    then show ?thesis using tp by (simp only: key_to_compare_def if_True simp_thms)
  next
    case 2
    then show ?thesis using ts by (simp only: key_to_compare_def if_True if_False simp_thms)
  next
    case 3
    then show ?thesis by (simp add: key_to_compare_def tw same_word_def)
  qed
  then show ?thesis by (simp add: same_word_def)
qed

context header_map
begin

lemma Get_fold_Set:
  assumes "CHR 0x00 \<notin> set key"
  shows "carrier_Get find key (fold (\<lambda>(k, v). carrier_Set insert k v) kvs empty) =
    (case List.find (\<lambda>(k, v). same_word k key) kvs of Some (k, v) \<Rightarrow> v | None \<Rightarrow> [])"
proof -
  have "carrier_Set insert = insert" by (simp add: carrier_Set_def fun_eq_iff)
  moreover have "(\<lambda>(k, v). same_word k (key_to_compare key)) = (\<lambda>(k, v :: string). same_word k key)"
    using same_word_key [OF assms] by (simp add: fun_eq_iff)
  ultimately show ?thesis
    by (simp add: carrier_Get_def find_fold [OF find_empty] split: option.splits)
qed

end



section \<open>Trimming\<close>

lemma ltrim_ascii:
  "\<forall>c\<in>set s. (of_char c :: nat) < 128 \<Longrightarrow> ltrim s = Inr (dropWhile isspace s)"
  by (induction s) (auto simp: isspace_call_def)

lemma trim_ascii:
  assumes "\<forall>c\<in>set s. (of_char c :: nat) < 128"
  shows "trim s = Inr (rev (dropWhile isspace (rev (dropWhile isspace s))))"
proof -
  have "\<forall>c\<in>set (rev (dropWhile isspace s)). (of_char c :: nat) < 128"
    using assms by (metis set_dropWhileD set_rev)
  then show ?thesis using assms by (simp add: trim_def rtrim_def ltrim_ascii)
qed

lemma dropWhile_head: "dropWhile P s \<noteq> [] \<Longrightarrow> \<not> P (hd (dropWhile P s))"
  by (simp add: hd_dropWhile)

text \<open>\<open>trim\<close> removes exactly the white space at the two ends of a text of 7-bit characters: what it removes
  is white space, and what remains neither starts nor ends with any.\<close>

theorem trim_spec:
  assumes "\<forall>c\<in>set s. (of_char c :: nat) < 128"
  shows "\<exists>a t b. trim s = Inr t \<and> s = a @ t @ b \<and> list_all isspace a \<and> list_all isspace b \<and>
    (t \<noteq> [] \<longrightarrow> \<not> isspace (hd t) \<and> \<not> isspace (last t))"
proof -
  define u where "u = dropWhile isspace s"
  define t where "t = rev (dropWhile isspace (rev u))"
  define a where "a = takeWhile isspace s"
  define b where "b = rev (takeWhile isspace (rev u))"
  have s: "s = a @ u" by (simp add: a_def u_def)
  have "rev u = rev b @ rev t" by (simp add: b_def t_def)
  then have u: "u = t @ b" by (metis rev_append rev_rev_ident)
  have "trim s = Inr t" using trim_ascii [OF assms] by (simp add: u_def t_def)
  moreover have "s = a @ t @ b" using s u by simp
  moreover have "list_all isspace a" "list_all isspace b"
    by (auto simp: a_def b_def list_all_iff dest: set_takeWhileD)
  moreover have "\<not> isspace (last t)" if "t \<noteq> []"
    using that dropWhile_head [of isspace "rev u"] by (simp add: t_def last_rev)
  moreover have "\<not> isspace (hd t)" if "t \<noteq> []"
    using that dropWhile_head [of isspace s] u by (simp add: u_def [symmetric])
  ultimately show ?thesis by blast
qed

theorem trim_spec_witness: "trim ''  mem '' = Inr ''mem''"
proof -
  have "\<forall>c\<in>set ''  mem ''. (of_char c :: nat) < 128" by simp
  then obtain t where t: "trim ''  mem '' = Inr t" using trim_spec by blast
  have "trim ''  mem '' = Inr ''mem''" by code_simp
  then have "t = ''mem''" using t by simp
  then show ?thesis using t by (simp only:)
qed

section \<open>Span ids\<close>

datatype tracer_op = OpInit string string TraceType | OpInMemory string string | OpStart string

definition tracer_exec :: "tracer_op \<Rightarrow> Tracer \<Rightarrow> Tracer" where
  "tracer_exec e tr = (case e of
     OpInit app ver t \<Rightarrow> (case initTracer app ver t tr of Some u \<Rightarrow> u | None \<Rightarrow> tr)
   | OpInMemory app ver \<Rightarrow> InitInMemoryTracer app ver tr
   | OpStart name \<Rightarrow> tr)"

interpretation trr: run_invariant tracer_exec "\<lambda>tr. m_currentSpan tr = None \<and> m_spanMap tr = []"
  by unfold_locales
    (auto simp: tracer_exec_def initTracer_def InitInMemoryTracer_def split: tracer_op.splits TraceType.splits)

text \<open>Nothing a tracer does keeps a span, whatever spans are started: the map of spans stays empty, and
  \<open>GetSpanId\<close> always dereferences a null pointer.\<close>

theorem GetSpanId_null:
  assumes "make_Tracer app ver t = Some tr"
  shows "GetSpanMap (fold tracer_exec ops tr) = [] \<and> GetSpanId span_id (fold tracer_exec ops tr) = Inl NullPointer"
proof -
  have "m_currentSpan tr = None \<and> m_spanMap tr = []"
    using assms by (cases t) (auto simp: make_Tracer_def initTracer_def InitInMemoryTracer_def default_Tracer_def)
  then have "m_currentSpan (fold tracer_exec ops tr) = None \<and> m_spanMap (fold tracer_exec ops tr) = []" by (rule trr.fold_inv)
  then show ?thesis by (simp add: GetSpanId_def GetCurrentSpan_def GetSpanMap_def)
qed

end
