(* ===== verification/Metrics.thy ===== *)
theory Metrics
  imports Prelude Std_Map
begin

text \<open>
  The metrics wrapper (\<open>opentelemetry/prometheus/metrics.h\<close>, \<open>metrics.cc\<close>) and the command loop that
  drives it (\<open>example.cc\<close>). The instruments are objects with identities: \<open>objs\<close> gives the kind of each
  live one, and an instrument dies with the \<open>unique_ptr\<close> that owns it. The meter of OpenTelemetry creates
  a new instrument of the kind it is asked for.
\<close>

section \<open>State\<close>

datatype InstrumentType =
    UIntCounter | IntCounter | DoubleCounter | IntGauge | UIntGauge | DoubleGauge | UIntHistogram | DoubleHistogram

datatype sync_kind =
    UInt64Counter | Dbl64Counter | Int64UpDownCounter | DoubleUpDownCounter | UInt64Histogram | Dbl64Histogram

datatype obs_kind = Int64ObservableCounter | DoubleObservableCounter | Int64ObservableGauge | DoubleObservableGauge

record observable =
  obs_type :: InstrumentType
  obs_instrument :: obs_kind
  obs_callback :: nat

record Metrics =
  m_metricsName :: string
  m_metricsVer :: string
  m_url :: string
  m_readers :: nat
  m_views :: "(nat \<times> nat \<times> nat) list"
  m_meter :: "string \<times> string"
  m_syncInstruments :: "(string, nat) std_map"
  m_observableInstruments :: "(string, observable) std_map"
  objs :: "(nat \<times> sync_kind) list"
  next_obj :: nat

text \<open>
  The constructor. With an empty URL it returns before it adds a reader; otherwise it also replaces the
  global log handler by a null pointer, \<open>nostd::shared_ptr<MetricsLogHandler>()\<close>. The second component
  is the log handler the program then has: unchanged, or null.
\<close>

datatype log_handler = DefaultHandler | NullHandler

definition make_Metrics :: "string \<Rightarrow> string \<Rightarrow> string \<Rightarrow> Metrics \<times> log_handler \<times> string list" where
  "make_Metrics name ver url =
     (let m = \<lparr>m_metricsName = name, m_metricsVer = ver, m_url = url, m_readers = 0, m_views = [], m_meter = (name, ver),
               m_syncInstruments = [], m_observableInstruments = [], objs = [], next_obj = 0\<rparr>
      in if url = [] then (m, DefaultHandler, [''Empty url!'']) else (m\<lparr>m_readers := 1\<rparr>, NullHandler, []))"

definition AddMetricReader :: "Metrics \<Rightarrow> Metrics" where
  "AddMetricReader m = m\<lparr>m_readers := m_readers m + 1\<rparr>"

text \<open>A view is handed over with its two selectors.\<close>

definition AddView :: "nat \<Rightarrow> nat \<Rightarrow> nat \<Rightarrow> Metrics \<Rightarrow> Metrics" where
  "AddView view inst_selector meter_selector m = m\<lparr>m_views := m_views m @ [(inst_selector, meter_selector, view)]\<rparr>"

section \<open>Synchronous instruments\<close>

definition sync_kind_of :: "InstrumentType \<Rightarrow> sync_kind option" where
  "sync_kind_of t = (case t of
     UIntCounter \<Rightarrow> Some UInt64Counter
   | DoubleCounter \<Rightarrow> Some Dbl64Counter
   | UIntGauge \<Rightarrow> Some Int64UpDownCounter
   | DoubleGauge \<Rightarrow> Some DoubleUpDownCounter
   | UIntHistogram \<Rightarrow> Some UInt64Histogram
   | DoubleHistogram \<Rightarrow> Some Dbl64Histogram
   | _ \<Rightarrow> None)"

text \<open>
  \<open>CreateSyncInstrument\<close> takes the address of the new instrument, moves it into the pair given to
  \<open>insert\<close> and returns the address: where the name is taken the pair dies with the instrument.
\<close>

definition CreateSyncInstrument :: "InstrumentType \<Rightarrow> string \<Rightarrow> Metrics \<Rightarrow> nat option \<times> Metrics" where
  "CreateSyncInstrument t name m = (case sync_kind_of t of
     None \<Rightarrow> (None, m)
   | Some k \<Rightarrow>
       (let ret = next_obj m;
            m1 = m\<lparr>next_obj := Suc ret, objs := (ret, k) # objs m\<rparr>;
            taken = (map_find name (m_syncInstruments m1) \<noteq> None);
            m2 = m1\<lparr>m_syncInstruments := map_insert name ret (m_syncInstruments m1)\<rparr>
        in (Some ret, if taken then m2\<lparr>objs := filter (\<lambda>x. fst x \<noteq> ret) (objs m2)\<rparr> else m2)))"

definition GetSyncInstrument :: "string \<Rightarrow> Metrics \<Rightarrow> nat option" where
  "GetSyncInstrument name m = map_find name (m_syncInstruments m)"

definition GetSyncInstruments :: "Metrics \<Rightarrow> (string, nat) std_map" where
  "GetSyncInstruments m = m_syncInstruments m"

definition DestroySyncInstrument :: "string \<Rightarrow> Metrics \<Rightarrow> Metrics" where
  "DestroySyncInstrument name m =
     (let m1 = m\<lparr>m_syncInstruments := map_erase name (m_syncInstruments m)\<rparr> in
      case map_find name (m_syncInstruments m) of
        None \<Rightarrow> m1
      | Some p \<Rightarrow> m1\<lparr>objs := filter (\<lambda>x. fst x \<noteq> p) (objs m1)\<rparr>)"

definition destroy_Metrics :: "Metrics \<Rightarrow> Metrics" where
  "destroy_Metrics m =
     m\<lparr>m_syncInstruments := [], objs := filter (\<lambda>x. fst x \<notin> snd ` set (m_syncInstruments m)) (objs m)\<rparr>"

section \<open>Observable instruments\<close>

definition obs_kind_of :: "InstrumentType \<Rightarrow> obs_kind option" where
  "obs_kind_of t = (case t of
     IntCounter \<Rightarrow> Some Int64ObservableCounter
   | DoubleCounter \<Rightarrow> Some DoubleObservableCounter
   | IntGauge \<Rightarrow> Some Int64ObservableGauge
   | DoubleGauge \<Rightarrow> Some DoubleObservableGauge
   | UIntHistogram \<Rightarrow> Some Int64ObservableGauge
   | DoubleHistogram \<Rightarrow> Some DoubleObservableGauge
   | _ \<Rightarrow> None)"

text \<open>The returned instrument is shared; its callback is registered whether or not the name was taken.\<close>

definition CreateObservableInstrument ::
  "InstrumentType \<Rightarrow> string \<Rightarrow> nat \<Rightarrow> Metrics \<Rightarrow> (obs_kind \<times> nat list) option \<times> Metrics" where
  "CreateObservableInstrument t name cb m = (case obs_kind_of t of
     None \<Rightarrow> (None, m)
   | Some k \<Rightarrow>
       (Some (k, [cb]),
        m\<lparr>m_observableInstruments :=
            map_insert name \<lparr>obs_type = t, obs_instrument = k, obs_callback = cb\<rparr> (m_observableInstruments m)\<rparr>))"

definition GetObservableInstruments :: "Metrics \<Rightarrow> (string, observable) std_map" where
  "GetObservableInstruments m = m_observableInstruments m"

definition DestroyObservableInstrument :: "string \<Rightarrow> Metrics \<Rightarrow> Metrics" where
  "DestroyObservableInstrument name m = m\<lparr>m_observableInstruments := map_erase name (m_observableInstruments m)\<rparr>"

text \<open>The operations a client can perform in any order.\<close>

datatype metrics_op =
    CreateSync InstrumentType string
  | DestroySync string
  | CreateObs InstrumentType string nat
  | DestroyObs string

fun metrics_exec :: "metrics_op \<Rightarrow> Metrics \<Rightarrow> Metrics" where
  "metrics_exec (CreateSync t name) m = snd (CreateSyncInstrument t name m)"
| "metrics_exec (DestroySync name) m = DestroySyncInstrument name m"
| "metrics_exec (CreateObs t name cb) m = snd (CreateObservableInstrument t name cb m)"
| "metrics_exec (DestroyObs name) m = DestroyObservableInstrument name m"

section \<open>The command loop\<close>

text \<open>
  \<open>counters\<close> are the values of the \<open>Counter<uint64_t>\<close> objects. Adding through the downcast pointer of
  an object of another kind, or of none, is undefined.
\<close>

record example =
  ex_m :: Metrics
  counters :: "nat \<Rightarrow> u64"
  ex_out :: "string list"

definition say :: "string \<Rightarrow> example \<Rightarrow> example" where
  "say msg x = x\<lparr>ex_out := ex_out x @ [msg]\<rparr>"

definition createSyncInstrument :: "string \<Rightarrow> example \<Rightarrow> example" where
  "createSyncInstrument name x =
     (if name = [] then say ''name empty!'' x
      else
        let x1 = x\<lparr>ex_m := snd (CreateSyncInstrument UIntCounter name (ex_m x))\<rparr>
        in if GetSyncInstrument name (ex_m x1) \<noteq> None then say ''Created successfully'' x1 else x1)"

definition incSyncInstrument :: "string \<Rightarrow> example \<Rightarrow> example cexec" where
  "incSyncInstrument name x = (case GetSyncInstrument name (ex_m x) of
     None \<Rightarrow> Inr (say ''Invalid name'' x)
   | Some inst \<Rightarrow>
       if map_of (objs (ex_m x)) inst = Some UInt64Counter
       then Inr (say ''incremented!'' (x\<lparr>counters := (counters x)(inst := counters x inst + 10)\<rparr>))
       else Inl UseAfterFree)"

definition createObservableInstrument :: "string \<Rightarrow> example \<Rightarrow> example" where
  "createObservableInstrument name x = x"

definition example_step :: "string \<times> string \<times> string \<Rightarrow> example \<Rightarrow> example cexec" where
  "example_step toks x = (case toks of (tok1, tok2, tok3) \<Rightarrow>
     let x1 = say (''Parsed to '' @ tok1 @ '' : '' @ tok2 @ '' : '' @ tok3) x in
     if tok1 = ''CREATE'' then
       if tok2 = ''SYNC'' then Inr (createSyncInstrument tok3 x1)
       else if tok2 = ''OBS'' then Inr x1
       else Inr (say ''Unknown type'' x1)
     else if tok1 = ''INC'' then
       if tok2 = ''SYNC'' then incSyncInstrument tok3 x1 else Inr x1
     else Inr (say ''Unknown command'' x1))"

fun example_run :: "(string \<times> string \<times> string) list \<Rightarrow> example \<Rightarrow> example cexec" where
  "example_run [] x = Inr x"
| "example_run (t # ts) x = cbind (example_step t x) (example_run ts)"

definition example_start :: example where
  "example_start = \<lparr>ex_m = fst (make_Metrics ''example'' ''0.1'' ''127.0.0.1:4317''), counters = (\<lambda>_. 0),
     ex_out = [''Started...'']\<rparr>"

section \<open>Ownership\<close>

text \<open>
  The map's entries have different names and own different instruments, and the live instruments are
  exactly those it owns.
\<close>

definition metrics_ok :: "Metrics \<Rightarrow> bool" where
  "metrics_ok m \<longleftrightarrow>
     distinct (map fst (m_syncInstruments m)) \<and> distinct (map snd (m_syncInstruments m)) \<and>
     distinct (map fst (objs m)) \<and> fst ` set (objs m) = snd ` set (m_syncInstruments m) \<and>
     (\<forall>p\<in>snd ` set (m_syncInstruments m). p < next_obj m)"

lemma metrics_ok_obs [simp]: "metrics_ok (m\<lparr>m_observableInstruments := os\<rparr>) = metrics_ok m"
  by (simp add: metrics_ok_def)

lemma metrics_ok_fresh: "metrics_ok m \<Longrightarrow> next_obj m \<notin> fst ` set (objs m)"
  unfolding metrics_ok_def by blast

lemma map_insert_new: "map_find k m = None \<Longrightarrow> map_insert k v m = m @ [(k, v)]"
  by (simp add: map_insert_def)

lemma map_insert_taken: "map_find k m = Some u \<Longrightarrow> map_insert k v m = m"
  by (simp add: map_insert_def)

lemma map_find_None: "map_find k m = None \<longleftrightarrow> k \<notin> fst ` set m"
  by (simp add: map_find_def map_of_eq_None_iff)

lemma create_new:
  assumes "sync_kind_of t = Some k" "map_find name (m_syncInstruments m) = None"
  shows "CreateSyncInstrument t name m =
    (Some (next_obj m), m\<lparr>next_obj := Suc (next_obj m), objs := (next_obj m, k) # objs m,
       m_syncInstruments := m_syncInstruments m @ [(name, next_obj m)]\<rparr>)"
  using assms by (simp add: CreateSyncInstrument_def Let_def map_insert_new)

lemma create_taken:
  assumes "sync_kind_of t = Some k" "map_find name (m_syncInstruments m) = Some p" "metrics_ok m"
  shows "CreateSyncInstrument t name m = (Some (next_obj m), m\<lparr>next_obj := Suc (next_obj m)\<rparr>)"
proof -
  have "filter (\<lambda>x. fst x \<noteq> next_obj m) (objs m) = objs m"
    using metrics_ok_fresh [OF assms(3)] by (force simp: filter_id_conv)
  then show ?thesis using assms by (simp add: CreateSyncInstrument_def Let_def map_insert_taken)
qed

lemma create_ok: "metrics_ok m \<Longrightarrow> metrics_ok (snd (CreateSyncInstrument t name m))"
proof (cases "sync_kind_of t")
  case None
  then show "metrics_ok m \<Longrightarrow> ?thesis" by (simp add: CreateSyncInstrument_def)
next
  case (Some k)
  assume ok: "metrics_ok m"
  show ?thesis
  proof (cases "map_find name (m_syncInstruments m)")
    case None
    show ?thesis
      using ok None metrics_ok_fresh [OF ok] by (auto simp: create_new [OF Some None] metrics_ok_def map_find_None less_SucI)
  next
    case (Some p)
    then show ?thesis
      using ok by (auto simp: create_taken [OF \<open>sync_kind_of t = Some k\<close> Some ok] metrics_ok_def less_SucI)
  qed
qed

lemma erase_snd:
  assumes "distinct (map fst m)" "distinct (map snd m)" "map_find name m = Some p"
  shows "snd ` set (map_erase name m) = snd ` set m - {p}"
proof -
  have p: "(name, p) \<in> set m" using assms(3) by (simp add: map_find_def map_of_SomeD)
  have "fst e = name \<longleftrightarrow> snd e = p" if "e \<in> set m" for e
    using that p assms(1,2) by (metis distinct_map inj_on_def prod.collapse fst_conv snd_conv)
  then show ?thesis by (auto simp: map_erase_def)
qed

lemma destroy_ok: "metrics_ok m \<Longrightarrow> metrics_ok (DestroySyncInstrument name m)"
proof (cases "map_find name (m_syncInstruments m)")
  case None
  then have "map_erase name (m_syncInstruments m) = m_syncInstruments m"
    by (auto simp: map_erase_def map_find_None filter_id_conv)
  then show "metrics_ok m \<Longrightarrow> ?thesis" using None by (simp add: DestroySyncInstrument_def Let_def)
next
  case (Some p)
  assume ok: "metrics_ok m"
  then have s: "snd ` set (map_erase name (m_syncInstruments m)) = snd ` set (m_syncInstruments m) - {p}"
    by (intro erase_snd [OF _ _ Some]) (simp_all add: metrics_ok_def)
  have "fst ` set (filter (\<lambda>x. fst x \<noteq> p) (objs m)) = fst ` set (objs m) - {p}" by auto
  then show ?thesis
    using ok s Some
    by (auto simp: DestroySyncInstrument_def Let_def metrics_ok_def map_erase_def distinct_map_filter)
qed

interpretation mr: run_invariant metrics_exec metrics_ok
proof
  fix m :: Metrics and e
  assume "metrics_ok m"
  then show "metrics_ok (metrics_exec e m)"
    by (cases e) (auto simp: create_ok destroy_ok CreateObservableInstrument_def DestroyObservableInstrument_def
        split: option.splits)
qed

lemma make_Metrics_ok: "metrics_ok (fst (make_Metrics name ver url))"
  by (simp add: make_Metrics_def Let_def metrics_ok_def)

lemma metrics_ok_live:
  assumes "metrics_ok m" "GetSyncInstrument name m = Some p"
  shows "p \<in> fst ` set (objs m)"
proof -
  have "(name, p) \<in> set (m_syncInstruments m)"
    using assms(2) by (simp add: GetSyncInstrument_def map_find_def map_of_SomeD)
  then have "p \<in> snd ` set (m_syncInstruments m)" by force
  then show ?thesis using assms(1) by (simp add: metrics_ok_def)
qed

text \<open>C21. After any sequence of creations and destructions a lookup never returns a dangling pointer, two
  names never share an instrument, and every live instrument is reachable under a name, so none
  leaks.\<close>

theorem metrics_ownership:
  "let m = fold metrics_exec ops (fst (make_Metrics name ver url)) in
     (\<forall>n p. GetSyncInstrument n m = Some p \<longrightarrow> p \<in> fst ` set (objs m)) \<and>
     (\<forall>n n' p. GetSyncInstrument n m = Some p \<and> GetSyncInstrument n' m = Some p \<longrightarrow> n = n') \<and>
     (\<forall>p\<in>fst ` set (objs m). \<exists>n. GetSyncInstrument n m = Some p)"
proof -
  let ?m = "fold metrics_exec ops (fst (make_Metrics name ver url))"
  have ok: "metrics_ok ?m" by (rule mr.fold_inv [OF make_Metrics_ok])
  then have d: "distinct (map fst (m_syncInstruments ?m))" "distinct (map snd (m_syncInstruments ?m))"
    by (simp_all add: metrics_ok_def)
  have g: "GetSyncInstrument n ?m = Some p \<longleftrightarrow> (n, p) \<in> set (m_syncInstruments ?m)" for n p
    using d(1) by (simp add: GetSyncInstrument_def map_find_def)
  have "n = n'" if "(n, p) \<in> set (m_syncInstruments ?m)" "(n', p) \<in> set (m_syncInstruments ?m)" for n n' p
    using that d(2) by (metis distinct_map inj_on_def prod.inject snd_conv)
  moreover have "\<exists>n. (n, p) \<in> set (m_syncInstruments ?m)" if "p \<in> fst ` set (objs ?m)" for p
    using that ok by (auto simp: metrics_ok_def)
  ultimately show ?thesis using metrics_ok_live [OF ok] by (simp add: Let_def g) blast
qed

theorem metrics_ownership_witness:
  "let m = fold metrics_exec [CreateSync UIntCounter ''a'', CreateSync UIntGauge ''b'', DestroySync ''a'']
             (fst (make_Metrics ''n'' ''v'' []))
   in \<exists>n. GetSyncInstrument n m = Some 1"
proof -
  let ?ops = "[CreateSync UIntCounter ''a'', CreateSync UIntGauge ''b'', DestroySync ''a'']"
  let ?m = "fold metrics_exec ?ops (fst (make_Metrics ''n'' ''v'' []))"
  have "1 \<in> fst ` set (objs ?m)"
    by (simp add: CreateSyncInstrument_def DestroySyncInstrument_def make_Metrics_def sync_kind_of_def
        map_find_def map_insert_def map_erase_def Let_def)
  then show ?thesis using metrics_ownership [of ?ops "''n''" "''v''" "[]"] unfolding Let_def by blast
qed

text \<open>\<open>CreateSyncInstrument\<close>: an unsupported type gives a null pointer and changes nothing; with a new
  name the returned instrument is live, of the kind of the type, and what the name then finds; with a
  name that is taken the returned pointer dangles, and the name still finds the old instrument.\<close>

theorem CreateSyncInstrument_result:
  assumes "metrics_ok m"
  shows "case CreateSyncInstrument t name m of (ret, m') \<Rightarrow>
    (case sync_kind_of t of
       None \<Rightarrow> ret = None \<and> m' = m
     | Some k \<Rightarrow>
         (\<exists>p. ret = Some p \<and>
           (if GetSyncInstrument name m = None
            then map_of (objs m') p = Some k \<and> GetSyncInstrument name m' = Some p
            else map_of (objs m') p = None \<and> GetSyncInstrument name m' = GetSyncInstrument name m)) \<and>
         (\<forall>n. n \<noteq> name \<longrightarrow> GetSyncInstrument n m' = GetSyncInstrument n m))"
proof (cases "sync_kind_of t")
  case None
  then show ?thesis by (simp add: CreateSyncInstrument_def)
next
  case (Some k)
  show ?thesis
  proof (cases "map_find name (m_syncInstruments m)")
    case None
    have "map_find n (m_syncInstruments m @ [(name, next_obj m)]) =
        (if n = name then Some (next_obj m) else map_find n (m_syncInstruments m))" for n
      using sm.find_insert [of n name "next_obj m" "m_syncInstruments m"] None by (simp add: map_insert_new)
    then show ?thesis using None by (simp add: Some create_new [OF Some None] GetSyncInstrument_def)
  next
    case (Some p)
    have "map_of (objs m) (next_obj m) = None"
      using metrics_ok_fresh [OF assms] by (simp add: map_of_eq_None_iff)
    then show ?thesis
      using Some \<open>sync_kind_of t = Some k\<close>
      by (simp add: create_taken [OF \<open>sync_kind_of t = Some k\<close> Some assms] GetSyncInstrument_def)
  qed
qed

theorem CreateSyncInstrument_result_witness:
  "case CreateSyncInstrument UIntCounter ''c'' (fst (make_Metrics ''n'' ''v'' [])) of (ret, m') \<Rightarrow>
     GetSyncInstrument ''c'' m' = ret \<and> ret \<noteq> None"
  using CreateSyncInstrument_result [OF make_Metrics_ok [of "''n''" "''v''" "[]"], where t = UIntCounter and name = "''c''"]
  by (simp add: sync_kind_of_def make_Metrics_def GetSyncInstrument_def map_find_def split: prod.splits) blast

section \<open>The command loop\<close>

text \<open>
  The reference semantics of a session: the number of increments a name has had since it was first
  created.
\<close>

fun increments :: "string \<Rightarrow> (string \<times> string \<times> string) list \<Rightarrow> bool \<Rightarrow> nat" where
  "increments n [] created = 0"
| "increments n (t # ts) created =
     (if t = (''INC'', ''SYNC'', n) \<and> created then Suc (increments n ts created)
      else increments n ts (created \<or> t = (''CREATE'', ''SYNC'', n)))"

definition is_created :: "string \<Rightarrow> (string \<times> string \<times> string) list \<Rightarrow> bool" where
  "is_created n ts \<longleftrightarrow> n \<noteq> [] \<and> (''CREATE'', ''SYNC'', n) \<in> set ts"

text \<open>What the loop keeps: the wrapper is well formed, every instrument is a \<open>uint64_t\<close> counter, unused
  counters are zero.\<close>

definition example_ok :: "example \<Rightarrow> bool" where
  "example_ok x \<longleftrightarrow> metrics_ok (ex_m x) \<and> (\<forall>(p, k)\<in>set (objs (ex_m x)). k = UInt64Counter) \<and>
     (\<forall>p\<ge>next_obj (ex_m x). counters x p = 0) \<and> GetSyncInstrument [] (ex_m x) = None"

definition value_of :: "string \<Rightarrow> example \<Rightarrow> u64 option" where
  "value_of n x = map_option (counters x) (GetSyncInstrument n (ex_m x))"

lemma say_fields [simp]: "ex_m (say s x) = ex_m x" "counters (say s x) = counters x"
  by (simp_all add: say_def)

lemma say_ok [simp]: "example_ok (say s x) = example_ok x" "value_of n (say s x) = value_of n x"
  by (simp_all add: example_ok_def value_of_def)

lemma create_step:
  assumes "example_ok x"
  shows "example_ok (createSyncInstrument name x)"
    and "value_of n (createSyncInstrument name x) =
      (if n = name \<and> name \<noteq> [] \<and> value_of n x = None then Some 0 else value_of n x)"
proof -
  let ?m = "snd (CreateSyncInstrument UIntCounter name (ex_m x))"
  have ok: "metrics_ok (ex_m x)" using assms by (simp add: example_ok_def)
  have k: "sync_kind_of UIntCounter = Some UInt64Counter" by (simp add: sync_kind_of_def)
  have new: "map_find n (m_syncInstruments (ex_m x) @ [(name, next_obj (ex_m x))]) =
      (if n = name then Some (next_obj (ex_m x)) else map_find n (m_syncInstruments (ex_m x)))"
    if "map_find name (m_syncInstruments (ex_m x)) = None" for n
    using that sm.find_insert [of n name "next_obj (ex_m x)" "m_syncInstruments (ex_m x)"]
    by (simp add: map_insert_new)
  have "example_ok (x\<lparr>ex_m := ?m\<rparr>) \<and> value_of n (x\<lparr>ex_m := ?m\<rparr>) =
      (if n = name \<and> value_of n x = None then Some 0 else value_of n x)" if "name \<noteq> []" for n
  proof (cases "map_find name (m_syncInstruments (ex_m x))")
    case None
    then show ?thesis
      using assms create_ok [OF ok, of UIntCounter name] that
      by (auto simp: example_ok_def value_of_def GetSyncInstrument_def create_new [OF k None] new)
  next
    case (Some p)
    then show ?thesis
      using assms create_ok [OF ok, of UIntCounter name]
      by (auto simp: example_ok_def value_of_def GetSyncInstrument_def create_taken [OF k Some ok])
  qed
  then show "example_ok (createSyncInstrument name x)"
    "value_of n (createSyncInstrument name x) =
      (if n = name \<and> name \<noteq> [] \<and> value_of n x = None then Some 0 else value_of n x)"
    using assms by (auto simp: createSyncInstrument_def Let_def)
qed

lemma inc_step:
  assumes "example_ok x"
  shows "\<exists>y. incSyncInstrument name x = Inr y \<and> example_ok y \<and>
    (\<forall>n. value_of n y = (if n = name then map_option (\<lambda>v. v + 10) (value_of n x) else value_of n x))"
proof (cases "GetSyncInstrument name (ex_m x)")
  case None
  then show ?thesis using assms by (simp add: incSyncInstrument_def value_of_def)
next
  case (Some p)
  have ok: "metrics_ok (ex_m x)" using assms by (simp add: example_ok_def)
  have p: "p \<in> fst ` set (objs (ex_m x))" by (rule metrics_ok_live [OF ok Some])
  then have "p \<in> snd ` set (m_syncInstruments (ex_m x))" using ok by (simp add: metrics_ok_def)
  then have lt: "p < next_obj (ex_m x)" using ok unfolding metrics_ok_def by blast
  obtain k where k: "map_of (objs (ex_m x)) p = Some k"
    using p map_of_eq_None_iff [of "objs (ex_m x)" p] by (cases "map_of (objs (ex_m x)) p") auto
  then have "k = UInt64Counter" using map_of_SomeD [OF k] assms by (auto simp: example_ok_def)
  then have i: "incSyncInstrument name x =
      Inr (say ''incremented!'' (x\<lparr>counters := (counters x)(p := counters x p + 10)\<rparr>))"
    using Some k by (simp add: incSyncInstrument_def)
  have inj: "n = name" if "GetSyncInstrument n (ex_m x) = Some p" for n
  proof -
    have "(n, p) \<in> set (m_syncInstruments (ex_m x))" "(name, p) \<in> set (m_syncInstruments (ex_m x))"
      using that Some by (simp_all add: GetSyncInstrument_def map_find_def map_of_SomeD)
    then show ?thesis using ok unfolding metrics_ok_def by (metis distinct_map inj_on_def prod.inject snd_conv)
  qed
  let ?y = "x\<lparr>counters := (counters x)(p := counters x p + 10)\<rparr>"
  have "example_ok ?y" using assms lt by (simp add: example_ok_def)
  moreover have "value_of n ?y = (if n = name then map_option (\<lambda>v. v + 10) (value_of n x) else value_of n x)" for n
    using inj [of n] Some by (cases "GetSyncInstrument n (ex_m x)") (auto simp: value_of_def)
  ultimately show ?thesis unfolding i by simp
qed

lemma example_step_value:
  assumes "example_ok x"
  shows "\<exists>y. example_step t x = Inr y \<and> example_ok y \<and>
    (\<forall>n. value_of n y =
      (if t = (''CREATE'', ''SYNC'', n) \<and> n \<noteq> [] \<and> value_of n x = None then Some 0
       else if t = (''INC'', ''SYNC'', n) then map_option (\<lambda>v. v + 10) (value_of n x) else value_of n x))"
proof -
  obtain a b c where t: "t = (a, b, c)" by (cases t)
  define x1 where "x1 = say (''Parsed to '' @ a @ '' : '' @ b @ '' : '' @ c) x"
  have x1: "example_ok x1" "\<And>n. value_of n x1 = value_of n x" using assms by (simp_all add: x1_def)
  have step: "example_step t x =
      (if a = ''CREATE'' then
         if b = ''SYNC'' then Inr (createSyncInstrument c x1)
         else if b = ''OBS'' then Inr x1 else Inr (say ''Unknown type'' x1)
       else if a = ''INC'' then if b = ''SYNC'' then incSyncInstrument c x1 else Inr x1
       else Inr (say ''Unknown command'' x1))"
    by (simp add: example_step_def t x1_def Let_def)
  consider "a = ''CREATE''" "b = ''SYNC''" | "a = ''INC''" "b = ''SYNC''" |
    "\<not> (a = ''CREATE'' \<and> b = ''SYNC'')" "\<not> (a = ''INC'' \<and> b = ''SYNC'')" by blast
  then show ?thesis
  proof cases
    case 1
    then have e: "example_step t x = Inr (createSyncInstrument c x1)" by (simp add: step)
    have "t = (''CREATE'', ''SYNC'', n) \<longleftrightarrow> n = c" "t \<noteq> (''INC'', ''SYNC'', n)" for n using 1 by (auto simp: t)
    then show ?thesis by (auto simp: e x1(2) create_step [OF x1(1)])
  next
    case 2
    then have e: "example_step t x = incSyncInstrument c x1" by (simp add: step)
    have "t \<noteq> (''CREATE'', ''SYNC'', n)" "t = (''INC'', ''SYNC'', n) \<longleftrightarrow> n = c" for n using 2 by (auto simp: t)
    moreover obtain y where "incSyncInstrument c x1 = Inr y" "example_ok y"
      "\<And>n. value_of n y = (if n = c then map_option (\<lambda>v. v + 10) (value_of n x) else value_of n x)"
      using inc_step [OF x1(1), of c] unfolding x1(2) by blast
    ultimately show ?thesis by (auto simp: e)
  next
    case 3
    then have "t \<noteq> (''CREATE'', ''SYNC'', n)" "t \<noteq> (''INC'', ''SYNC'', n)" for n by (auto simp: t)
    moreover have "\<exists>y. example_step t x = Inr y \<and> example_ok y \<and> (\<forall>n. value_of n y = value_of n x)"
      unfolding step using 3 x1 by simp
    ultimately show ?thesis by simp
  qed
qed

lemma example_run_value:
  "example_ok x \<Longrightarrow>
   \<exists>y. example_run ts x = Inr y \<and>
     (\<forall>n. value_of n y =
       (case value_of n x of
          Some v \<Rightarrow> Some (v + of_nat (10 * increments n ts True))
        | None \<Rightarrow> if is_created n ts then Some (of_nat (10 * increments n ts False)) else None))"
proof (induction ts arbitrary: x)
  case Nil
  then show ?case by (auto simp: is_created_def split: option.splits)
next
  case (Cons t ts)
  obtain y where y: "example_step t x = Inr y" "example_ok y" and
    v: "\<And>n. value_of n y =
      (if t = (''CREATE'', ''SYNC'', n) \<and> n \<noteq> [] \<and> value_of n x = None then Some 0
       else if t = (''INC'', ''SYNC'', n) then map_option (\<lambda>v. v + 10) (value_of n x) else value_of n x)"
    using example_step_value [OF Cons.prems, of t] by blast
  have e: "value_of [] x = None" using Cons.prems by (simp add: example_ok_def value_of_def)
  have empty: "value_of [] y = None" using y(2) by (simp add: example_ok_def value_of_def)
  obtain z where z: "example_run ts y = Inr z" "\<And>n. value_of n z =
       (case value_of n y of
          Some v \<Rightarrow> Some (v + of_nat (10 * increments n ts True))
        | None \<Rightarrow> if is_created n ts then Some (of_nat (10 * increments n ts False)) else None)"
    using Cons.IH [OF y(2)] by blast
  have "value_of n z =
       (case value_of n x of
          Some v \<Rightarrow> Some (v + of_nat (10 * increments n (t # ts) True))
        | None \<Rightarrow> if is_created n (t # ts) then Some (of_nat (10 * increments n (t # ts) False)) else None)" for n
    using e empty unfolding z(2) v
    by (cases "value_of n x"; cases "n = []") (auto simp: is_created_def algebra_simps)
  then show ?case using y(1) z(1) by simp
qed


text \<open>The command the documentation of the example gives is not one the loop knows.\<close>

lemma readme_command_rejected:
  "\<exists>y. example_step (''CREATE'', ''SYN'', name) x = Inr y \<and> last (ex_out y) = ''Unknown type'' \<and> ex_m y = ex_m x"
  by (simp add: example_step_def say_def)

end
