(* ===== verification/Logging.thy ===== *)
theory Logging
  imports C_Lib
begin

text \<open>
  The loggers of \<open>opentelemetry/logging\<close>: the console logger (\<open>fmt_logger.h\<close>, \<open>fmt_logger.cc\<close>) with the
  text it prints, and the wrapper around the OpenTelemetry logger with its factory (\<open>logger.h\<close>,
  \<open>logger.cc\<close>, \<open>logger_factory.h\<close>, \<open>logger_factory.cc\<close>), whose state is the process-wide provider. The clock
  and the formatting of \<open>fmt\<close> are parameters, and so is what OpenTelemetry does with a record.
\<close>

section \<open>The console logger\<close>

text \<open>A \<open>LogLevel\<close> can hold any \<open>int\<close>; \<open>None\<close> is the thrown \<open>std::runtime_error\<close>.\<close>

datatype LogLevel = Info | Debug | ErrorLevel | OtherLevel int

datatype color = floral_white | steel_blue | crimson

record FmtLogger =
  m_name :: string
  m_breakStr :: string

definition make_FmtLogger :: "string \<Rightarrow> FmtLogger" where
  "make_FmtLogger name = \<lparr>m_name = name, m_breakStr = replicate 34 CHR ''*''\<rparr>"

fun getDebugLevel :: "LogLevel \<Rightarrow> (color \<times> string) option" where
  "getDebugLevel Info = Some (floral_white, ''INFO'')"
| "getDebugLevel Debug = Some (steel_blue, ''DEBUG'')"
| "getDebugLevel ErrorLevel = Some (crimson, ''ERROR'')"
| "getDebugLevel (OtherLevel i) = None"

text \<open>Printed text is a list of pieces, each with its colour if it has one.\<close>

type_synonym console = "(color option \<times> string) list"

abbreviation newline :: char where "newline \<equiv> CHR 0x0A"

definition Log :: "FmtLogger \<Rightarrow> string \<Rightarrow> LogLevel \<Rightarrow> string \<Rightarrow> console option" where
  "Log l now level msg = (case getDebugLevel level of
     None \<Rightarrow> None
   | Some (c, s) \<Rightarrow> Some [(Some c, s @ '' ''), (None, m_name l @ '' '' @ now @ [newline] @ msg @ [newline])])"

definition LogFmt :: "(string \<Rightarrow> string list \<Rightarrow> string) \<Rightarrow> FmtLogger \<Rightarrow> string \<Rightarrow> LogLevel \<Rightarrow> string \<Rightarrow> string list \<Rightarrow> console option" where
  "LogFmt vformat l now level log_fmt args = (case getDebugLevel level of
     None \<Rightarrow> None
   | Some (c, s) \<Rightarrow> Some [(Some c, s @ '' '' @ m_name l @ '' '' @ now @ [newline]), (None, vformat log_fmt args)])"

text \<open>\<open>LogStream\<close> with the values chained to it.\<close>

definition stream_out :: "string \<Rightarrow> console" where
  "stream_out s = [(None, ''  '' @ s)]"

definition LogStream :: "FmtLogger \<Rightarrow> string \<Rightarrow> LogLevel \<Rightarrow> string \<Rightarrow> string list \<Rightarrow> console option" where
  "LogStream l now level msg chained = (case getDebugLevel level of
     None \<Rightarrow> None
   | Some (c, s) \<Rightarrow>
       Some ([(Some c, [newline] @ s @ '' ''), (None, m_name l @ '' '' @ now @ [newline] @ msg)] @
             concat (map stream_out chained)))"

definition Break :: "FmtLogger \<Rightarrow> console" where
  "Break l = [(None, m_breakStr l @ [newline])]"

definition LineBreak :: console where
  "LineBreak = [(None, [newline])]"

definition GetName :: "FmtLogger \<Rightarrow> string" where
  "GetName l = m_name l"

definition SetBreakStr :: "string \<Rightarrow> FmtLogger \<Rightarrow> FmtLogger" where
  "SetBreakStr s l = l\<lparr>m_breakStr := s\<rparr>"

definition console_text :: "console \<Rightarrow> string" where
  "console_text c = concat (map snd c)"

section \<open>The factory and its loggers\<close>

datatype ExportType = OStream | Http

text \<open>
  The process-wide provider: the one OpenTelemetry starts with, one made by \<open>init\<close>, or the null pointer. A
  handle of the library's logger is the provider it came from and its name. \<open>records\<close> are the
  calls of \<open>EmitLogRecord\<close>.
\<close>

datatype provider = DefaultProvider | SdkProvider ExportType | NullProvider

record Logger =
  m_eventId :: int
  m_logger :: "provider \<times> string"

record log_world =
  global :: provider
  m_exportType :: "ExportType slot"
  loggers :: "Logger list"
  records :: "((provider \<times> string) \<times> nat \<times> string) list"
  log_out :: "string list"

definition log_start :: log_world where
  "log_start = \<lparr>global = DefaultProvider, m_exportType = Uninit, loggers = [], records = [], log_out = []\<rparr>"

definition init_factory :: "ExportType \<Rightarrow> log_world \<Rightarrow> bool \<times> log_world" where
  "init_factory t w =
     (let w1 = (case t of OStream \<Rightarrow> w\<lparr>log_out := log_out w @ [''**getting ostream exporter'']\<rparr> | Http \<Rightarrow> w)
      in (True, w1\<lparr>global := SdkProvider t\<rparr>))"

definition destroy_factory :: "log_world \<Rightarrow> log_world" where
  "destroy_factory w = w\<lparr>global := NullProvider\<rparr>"

definition make_Logger :: "string \<Rightarrow> string \<Rightarrow> log_world \<Rightarrow> (Logger \<times> log_world) cexec" where
  "make_Logger name caller_name w =
     (if global w = NullProvider then Inl NullPointer
      else Inr (\<lparr>m_eventId = 0, m_logger = (global w, name)\<rparr>, w\<lparr>log_out := log_out w @ [''***Logger::Logger'']\<rparr>))"

definition GetLogger :: "string \<Rightarrow> string \<Rightarrow> log_world \<Rightarrow> log_world cexec" where
  "GetLogger name caller_name w =
     cbind (make_Logger name caller_name w) (\<lambda>(l, w1). Inr (w1\<lparr>loggers := loggers w1 @ [l]\<rparr>))"

definition Logger_log :: "nat \<Rightarrow> string \<Rightarrow> Logger \<Rightarrow> (Logger \<times> ((provider \<times> string) \<times> nat \<times> string)) cexec" where
  "Logger_log dl msg l =
     (if m_eventId l = LLONG_MAX then Inl SignedOverflow
      else Inr (l\<lparr>m_eventId := m_eventId l + 1\<rparr>, (m_logger l, dl, msg)))"

definition loggerName :: "(provider \<times> string \<Rightarrow> string) \<Rightarrow> Logger \<Rightarrow> string" where
  "loggerName library_name l = library_name (m_logger l)"

datatype log_op = InitFactory ExportType | DestroyFactory | NewLogger string string | LogCall nat nat string

fun log_step :: "log_op \<Rightarrow> log_world \<Rightarrow> log_world cexec option" where
  "log_step (InitFactory t) w = Some (Inr (snd (init_factory t w)))"
| "log_step DestroyFactory w = Some (Inr (destroy_factory w))"
| "log_step (NewLogger name caller_name) w = Some (GetLogger name caller_name w)"
| "log_step (LogCall i dl msg) w =
     (if i < length (loggers w)
      then Some (cbind (Logger_log dl msg (loggers w ! i)) (\<lambda>(l, r).
             Inr (w\<lparr>loggers := (loggers w)[i := l], records := records w @ [r]\<rparr>)))
      else None)"

section \<open>The text of the console logger\<close>

definition meta_line :: "FmtLogger \<Rightarrow> string \<times> LogLevel \<times> string \<Rightarrow> string" where
  "meta_line l r = (case r of (now, level, msg) \<Rightarrow> snd (the (getDebugLevel level)) @ '' '' @ m_name l @ '' '' @ now)"

definition log_text :: "FmtLogger \<Rightarrow> string \<times> LogLevel \<times> string \<Rightarrow> string" where
  "log_text l r = (case r of (now, level, msg) \<Rightarrow> console_text (the (Log l now level msg)))"

lemma level_name_no_newline: "getDebugLevel level = Some (c, s) \<Longrightarrow> newline \<notin> set s"
  by (cases level) auto

lemma log_text_lines:
  assumes "getDebugLevel (fst (snd r)) \<noteq> None"
  shows "log_text l r = meta_line l r @ [newline] @ snd (snd r) @ [newline]"
  using assms by (cases r) (auto simp: log_text_def meta_line_def Log_def console_text_def)

definition plain_record :: "FmtLogger \<Rightarrow> string \<times> LogLevel \<times> string \<Rightarrow> bool" where
  "plain_record l r \<longleftrightarrow> (case r of (now, level, msg) \<Rightarrow>
     getDebugLevel level \<noteq> None \<and> newline \<notin> set (m_name l) \<and> newline \<notin> set now \<and> newline \<notin> set msg)"

lemma meta_line_plain: "plain_record l r \<Longrightarrow> newline \<notin> set (meta_line l r)"
  by (cases r) (auto simp: plain_record_def meta_line_def dest: level_name_no_newline)

text \<open>A sequence of \<open>Log\<close> calls with one-line arguments prints two lines per call, the level, the name and
  the time on the first and the message on the second, and nothing else; a level outside the enumeration throws.
\<close>

theorem Log_two_lines:
  assumes "list_all (plain_record l) rs"
  shows "split_on newline (concat (map (log_text l) rs)) =
    concat (map (\<lambda>r. [meta_line l r, snd (snd r)]) rs) @ [[]] \<and> Log l now (OtherLevel i) msg = None"
proof -
  have "split_on newline (concat (map (log_text l) rs)) = concat (map (\<lambda>r. [meta_line l r, snd (snd r)]) rs) @ [[]]"
    using assms
  proof (induction rs)
    case (Cons r rs)
    then have p: "plain_record l r" by simp
    then have "newline \<notin> set (snd (snd r))" "getDebugLevel (fst (snd r)) \<noteq> None"
      by (auto simp: plain_record_def split: prod.splits)
    with Cons meta_line_plain [OF p] show ?case
      by (simp add: log_text_lines split_on_append_sep split_on_no_sep)
  qed simp
  then show ?thesis by (simp add: Log_def)
qed

definition demo_logger :: FmtLogger where
  "demo_logger = make_FmtLogger ''main''"

theorem Log_two_lines_witness:
  "split_on newline (concat (map (log_text demo_logger) [(''noon'', Info, ''up''), (''one'', ErrorLevel, ''down'')])) =
     [''INFO main noon'', ''up'', ''ERROR main one'', ''down'', []]"
  using Log_two_lines [of demo_logger "[(''noon'', Info, ''up''), (''one'', ErrorLevel, ''down'')]"]
  by (simp add: plain_record_def demo_logger_def make_FmtLogger_def meta_line_def)

text \<open>\<open>LogFmt\<close> does not end its second line: the metadata of a record that follows another is printed on the
  line of the first one's body.
\<close>

theorem LogFmt_joins_records:
  assumes "plain_record l (now1, level1, vformat f1 a1)" "plain_record l (now2, level2, vformat f2 a2)"
  shows "\<exists>c1 c2. LogFmt vformat l now1 level1 f1 a1 = Some c1 \<and> LogFmt vformat l now2 level2 f2 a2 = Some c2 \<and>
    split_on newline (console_text (c1 @ c2)) =
      [meta_line l (now1, level1, []), vformat f1 a1 @ meta_line l (now2, level2, []), vformat f2 a2]"
proof -
  obtain k1 s1 k2 s2 where lv: "getDebugLevel level1 = Some (k1, s1)" "getDebugLevel level2 = Some (k2, s2)"
    using assms by (auto simp: plain_record_def)
  let ?m1 = "meta_line l (now1, level1, [])" and ?m2 = "meta_line l (now2, level2, [])"
  have "newline \<notin> set ?m1" "newline \<notin> set (vformat f1 a1 @ ?m2)" "newline \<notin> set (vformat f2 a2)"
    using assms lv level_name_no_newline by (auto simp: plain_record_def meta_line_def)
  note parts = this [THEN split_on_no_sep]
  have "split_on newline (?m1 @ newline # (vformat f1 a1 @ ?m2) @ newline # vformat f2 a2) =
      [?m1, vformat f1 a1 @ ?m2, vformat f2 a2]"
    unfolding split_on_append_sep parts by simp
  then show ?thesis
    using lv by (simp add: LogFmt_def console_text_def meta_line_def)
qed

theorem LogFmt_joins_records_witness:
  "\<exists>c1 c2. LogFmt (\<lambda>f a. f) demo_logger ''noon'' Info ''up'' [] = Some c1 \<and>
     LogFmt (\<lambda>f a. f) demo_logger ''one'' Info ''down'' [] = Some c2 \<and>
     split_on newline (console_text (c1 @ c2)) = [''INFO main noon'', ''upINFO main one'', ''down'']"
  using LogFmt_joins_records [of demo_logger "''noon''" Info "\<lambda>f a. f" "''up''" "[]" "''one''" Info "''down''" "[]"]
  by (simp add: plain_record_def demo_logger_def make_FmtLogger_def meta_line_def)

section \<open>The life of the provider\<close>

definition calls_of :: "nat \<Rightarrow> log_op list \<Rightarrow> (nat \<times> string) list" where
  "calls_of i ops = concat (map (\<lambda>x. case x of LogCall j dl msg \<Rightarrow> if j = i then [(dl, msg)] else [] | _ \<Rightarrow> []) ops)"

text \<open>The provider the operations so far leave behind.\<close>

definition current_provider :: "log_op list \<Rightarrow> provider" where
  "current_provider ops =
     fold (\<lambda>x p. case x of InitFactory t \<Rightarrow> SdkProvider t | DestroyFactory \<Rightarrow> NullProvider | _ \<Rightarrow> p) ops DefaultProvider"

definition all_calls :: "log_op list \<Rightarrow> (nat \<times> nat \<times> string) list" where
  "all_calls ops = concat (map (\<lambda>x. case x of LogCall j dl msg \<Rightarrow> [(j, dl, msg)] | _ \<Rightarrow> []) ops)"

definition log_past :: "log_op list \<Rightarrow> log_world \<Rightarrow> bool" where
  "log_past ops w \<longleftrightarrow>
     global w = current_provider ops \<and> m_exportType w = Uninit \<and>
     (\<forall>i<length (loggers w). m_eventId (loggers w ! i) = int (length (calls_of i ops)) \<and> fst (m_logger (loggers w ! i)) \<noteq> NullProvider) \<and>
     (\<forall>i\<ge>length (loggers w). calls_of i ops = []) \<and>
     list_all (\<lambda>(j, dl, msg). j < length (loggers w)) (all_calls ops) \<and>
     records w = map (\<lambda>(j, dl, msg). (m_logger (loggers w ! j), dl, msg)) (all_calls ops)"

lemma ops_snoc [simp]:
  "calls_of i (ops @ [x]) = calls_of i ops @ (case x of LogCall j dl msg \<Rightarrow> if j = i then [(dl, msg)] else [] | _ \<Rightarrow> [])"
  "all_calls (ops @ [x]) = all_calls ops @ (case x of LogCall j dl msg \<Rightarrow> [(j, dl, msg)] | _ \<Rightarrow> [])"
  "current_provider (ops @ [x]) =
     (case x of InitFactory t \<Rightarrow> SdkProvider t | DestroyFactory \<Rightarrow> NullProvider | _ \<Rightarrow> current_provider ops)"
  by (auto simp: calls_of_def all_calls_def current_provider_def split: log_op.splits)

lemma log_past_new:
  assumes "log_past ops w" "global w \<noteq> NullProvider"
  shows "log_past (ops @ [NewLogger name caller]) (w\<lparr>log_out := t, loggers := loggers w @ [\<lparr>m_eventId = 0, m_logger = (global w, name)\<rparr>]\<rparr>)"
proof -
  let ?m = "\<lambda>ls. map (\<lambda>(j, dl, msg). (m_logger (ls ! j), dl, msg)) (all_calls ops)"
  have "?m (loggers w @ x) = ?m (loggers w)" for x
    using assms(1) by (auto simp: log_past_def list_all_iff nth_append)
  moreover have "list_all (\<lambda>(j, dl, msg). j < Suc (length (loggers w))) (all_calls ops)"
    using assms(1) by (fastforce simp: log_past_def list_all_iff)
  ultimately show ?thesis
    using assms by (auto simp: log_past_def nth_append less_Suc_eq)
qed

lemma log_past_call:
  assumes "log_past ops w" "i < length (loggers w)"
  shows "log_past (ops @ [LogCall i dl msg])
    (w\<lparr>loggers := (loggers w)[i := (loggers w ! i)\<lparr>m_eventId := m_eventId (loggers w ! i) + 1\<rparr>],
       records := records w @ [(m_logger (loggers w ! i), dl, msg)]\<rparr>)"
proof -
  have same: "m_logger ((loggers w)[i := (loggers w ! i)\<lparr>m_eventId := n\<rparr>] ! j) = m_logger (loggers w ! j)" for j n
    using assms(2) by (cases "j = i") auto
  show ?thesis
    using assms by (auto simp: log_past_def same nth_list_update)
qed

lemma log_past_step:
  assumes "log_past ops w" "log_step x w = Some (Inr v)"
  shows "log_past (ops @ [x]) v"
proof (cases x)
  case (InitFactory t)
  with assms show ?thesis by (auto simp: log_past_def init_factory_def Let_def split: ExportType.splits)
next
  case DestroyFactory
  with assms show ?thesis by (auto simp: log_past_def destroy_factory_def)
next
  case (NewLogger name caller)
  with assms(2) have "global w \<noteq> NullProvider"
    "v = w\<lparr>log_out := log_out w @ [''***Logger::Logger''], loggers := loggers w @ [\<lparr>m_eventId = 0, m_logger = (global w, name)\<rparr>]\<rparr>"
    by (auto simp: GetLogger_def make_Logger_def split: if_splits)
  with log_past_new [OF assms(1)] NewLogger show ?thesis by simp
next
  case (LogCall i dl msg)
  with assms(2) have "i < length (loggers w)"
    "v = w\<lparr>loggers := (loggers w)[i := (loggers w ! i)\<lparr>m_eventId := m_eventId (loggers w ! i) + 1\<rparr>],
       records := records w @ [(m_logger (loggers w ! i), dl, msg)]\<rparr>"
    by (auto simp: Logger_log_def split: if_splits)
  with log_past_call [OF assms(1)] LogCall show ?thesis by simp
qed

lemma log_past_start: "w = log_start \<Longrightarrow> log_past [] w"
  by (simp add: log_past_def log_start_def current_provider_def calls_of_def all_calls_def)

interpretation lgr: schedule log_step "\<lambda>w. w = log_start" log_past
  by unfold_locales (rule log_past_start, assumption, rule log_past_step)



end
