(* ===== verification/Redis_Module.thy ===== *)
theory Redis_Module
  imports C_Lib
begin

text \<open>
  The Redis module (\<open>database/redis/module/utils.h\<close>, \<open>example.c\<close>): the argument parser and the
  command \<open>EXAMPLE.PARSE\<close>. A \<open>RedisModuleString\<close> is its character string. The conversions
  \<open>RedisModule_StringToLongLong\<close> and \<open>RedisModule_StringToDouble\<close> belong to Redis and are parameters,
  \<open>None\<close> being their failure; the outputs a \<open>va_list\<close> points to are the list of the values stored.
\<close>

section \<open>Argument parsing\<close>

datatype rc = REDISMODULE_OK | REDISMODULE_ERR

datatype 'd out_arg = OutCString string | OutBuffer string nat | OutString string | OutLong int | OutDouble 'd

text \<open>One conversion: what the letter stores, nothing for a skipped argument, or failure.\<close>

definition conv_arg ::
  "(string \<Rightarrow> int option) \<Rightarrow> (string \<Rightarrow> 'd option) \<Rightarrow> char \<Rightarrow> string \<Rightarrow> 'd out_arg list option" where
  "conv_arg to_ll to_d c a =
     (if c = CHR ''c'' then Some [OutCString a]
      else if c = CHR ''b'' then Some [OutBuffer a (length a)]
      else if c = CHR ''s'' then Some [OutString a]
      else if c = CHR ''l'' then map_option (\<lambda>l. [OutLong l]) (to_ll a)
      else if c = CHR ''d'' then map_option (\<lambda>d. [OutDouble d]) (to_d a)
      else if c = CHR ''*'' then Some []
      else None)"

fun vparseArgs ::
  "(string \<Rightarrow> int option) \<Rightarrow> (string \<Rightarrow> 'd option) \<Rightarrow> string list \<Rightarrow> nat \<Rightarrow> string \<Rightarrow> rc \<times> 'd out_arg list" where
  "vparseArgs to_ll to_d argv i [] = (REDISMODULE_OK, [])"
| "vparseArgs to_ll to_d argv i (c # cs) =
     (if i < length argv then
        (case conv_arg to_ll to_d c (argv ! i) of
           None \<Rightarrow> (REDISMODULE_ERR, [])
         | Some outs \<Rightarrow> let (rc, rest) = vparseArgs to_ll to_d argv (Suc i) cs in (rc, outs @ rest))
      else (REDISMODULE_ERR, []))"

fun argIndex_from :: "string \<Rightarrow> string list \<Rightarrow> nat \<Rightarrow> int" where
  "argIndex_from arg [] offset = - 1"
| "argIndex_from arg (a # as) offset =
     (if length a \<noteq> strlen arg then argIndex_from arg as (Suc offset)
      else if strncasecmp_eq a arg (strlen arg) then int offset
      else argIndex_from arg as (Suc offset))"

definition argIndex :: "string \<Rightarrow> string list \<Rightarrow> int" where
  "argIndex arg argv = argIndex_from arg argv 0"

definition parseArgsAfter ::
  "(string \<Rightarrow> int option) \<Rightarrow> (string \<Rightarrow> 'd option) \<Rightarrow> string \<Rightarrow> string list \<Rightarrow> string \<Rightarrow> rc \<times> 'd out_arg list" where
  "parseArgsAfter to_ll to_d token argv fmt =
     (let pos = argIndex token argv in
      if pos < 0 then (REDISMODULE_ERR, []) else vparseArgs to_ll to_d argv (nat (pos + 1)) fmt)"

section \<open>The command\<close>

datatype reply = WrongArity | ReplyLongLong int | ReplyError string

text \<open>\<open>long long\<close> arithmetic: leaving the type is undefined.\<close>

definition ll_check :: "int \<Rightarrow> int cexec" where
  "ll_check v = (if LLONG_MIN \<le> v \<and> v \<le> LLONG_MAX then Inr v else Inl SignedOverflow)"

text \<open>The values of the two variables after a parse that succeeded with the format \<open>ll\<close>.\<close>

definition two_longs :: "'d out_arg list \<Rightarrow> (int \<times> int) cexec" where
  "two_longs outs = (case outs of [OutLong x, OutLong y] \<Rightarrow> Inr (x, y) | _ \<Rightarrow> Inl Uninitialised)"

definition ParseCommand ::
  "(string \<Rightarrow> int option) \<Rightarrow> (string \<Rightarrow> 'd option) \<Rightarrow> string list \<Rightarrow> (rc option \<times> reply) cexec" where
  "ParseCommand to_ll to_d argv =
     (if length argv < 4 then Inr (None, WrongArity)
      else
        let (rc1, outs1) = parseArgsAfter to_ll to_d ''SUM'' argv ''ll'' in
        if rc1 = REDISMODULE_OK then
          cbind (two_longs outs1) (\<lambda>(x, y). cbind (ll_check (x + y)) (\<lambda>v.
            Inr (Some REDISMODULE_OK, ReplyLongLong v)))
        else
          let (rc2, outs2) = parseArgsAfter to_ll to_d ''PROD'' argv ''ll'' in
          if rc2 = REDISMODULE_OK then
            cbind (two_longs outs2) (\<lambda>(x, y). cbind (ll_check (x * y)) (\<lambda>v.
              Inr (Some REDISMODULE_OK, ReplyLongLong v)))
          else Inr (Some REDISMODULE_ERR, ReplyError ''Invalid arguments''))"

text \<open>\<open>RedisModule_OnLoad\<close>: the results of the two API calls are parameters.\<close>

definition RedisModule_OnLoad :: "rc \<Rightarrow> rc \<Rightarrow> rc \<times> string list" where
  "RedisModule_OnLoad init_rc create_rc =
     (if init_rc = REDISMODULE_ERR then (REDISMODULE_ERR, [])
      else if create_rc = REDISMODULE_ERR then (REDISMODULE_ERR, [])
      else (REDISMODULE_OK, [''example.parse'']))"

section \<open>The parser\<close>

lemma vparseArgs_ok:
  "fst (vparseArgs to_ll to_d argv i fmt) = REDISMODULE_OK \<longleftrightarrow>
     length fmt \<le> length argv - i \<and>
     (\<forall>k<length fmt. conv_arg to_ll to_d (fmt ! k) (argv ! (i + k)) \<noteq> None)"
proof (induction fmt arbitrary: i)
  case (Cons c cs)
  show ?case
  proof (cases "i < length argv")
    case True
    then have "length (c # cs) \<le> length argv - i \<longleftrightarrow> length cs \<le> length argv - Suc i" by auto
    moreover have "(\<forall>k<length (c # cs). conv_arg to_ll to_d ((c # cs) ! k) (argv ! (i + k)) \<noteq> None) \<longleftrightarrow>
      conv_arg to_ll to_d c (argv ! i) \<noteq> None \<and>
      (\<forall>k<length cs. conv_arg to_ll to_d (cs ! k) (argv ! (Suc i + k)) \<noteq> None)"
      by (simp add: All_less_Suc2)
    ultimately show ?thesis
      using True Cons.IH [of "Suc i"] by (auto split: option.splits prod.splits)
  next
    case False
    then show ?thesis by simp
  qed
qed simp

lemma vparseArgs_outs:
  "fst (vparseArgs to_ll to_d argv i fmt) = REDISMODULE_OK \<Longrightarrow>
   snd (vparseArgs to_ll to_d argv i fmt) =
     concat (map (\<lambda>k. the (conv_arg to_ll to_d (fmt ! k) (argv ! (i + k)))) [0..<length fmt])"
proof (induction fmt arbitrary: i)
  case (Cons c cs)
  then obtain outs where o: "i < length argv" "conv_arg to_ll to_d c (argv ! i) = Some outs"
    "fst (vparseArgs to_ll to_d argv (Suc i) cs) = REDISMODULE_OK"
    by (auto split: if_splits option.splits prod.splits)
  have "[0..<length (c # cs)] = 0 # map Suc [0..<length cs]" by (simp add: map_Suc_upt upt_conv_Cons del: upt_Suc)
  then show ?case using o Cons.IH [OF o(3)] by (simp add: case_prod_beta comp_def)
qed simp

text \<open>The argument parser succeeds exactly when there is an argument for every letter of the format and
  each letter is known and converts its argument; it then has stored the converted values in order.\<close>

theorem vparseArgs_spec:
  "case vparseArgs to_ll to_d argv i fmt of (rc, outs) \<Rightarrow>
     (rc = REDISMODULE_OK \<longleftrightarrow>
        length fmt \<le> length argv - i \<and>
        (\<forall>k<length fmt. conv_arg to_ll to_d (fmt ! k) (argv ! (i + k)) \<noteq> None)) \<and>
     (rc = REDISMODULE_OK \<longrightarrow>
        outs = concat (map (\<lambda>k. the (conv_arg to_ll to_d (fmt ! k) (argv ! (i + k)))) [0..<length fmt]))"
  using vparseArgs_ok [of to_ll to_d argv i fmt] vparseArgs_outs [of to_ll to_d argv i fmt]
  by (simp add: case_prod_beta)

theorem vparseArgs_spec_witness:
  "fst (vparseArgs (\<lambda>s. if s = ''1'' then Some 1 else None) (\<lambda>s. None :: unit option) [''a'', ''1''] 0 ''sl'') = REDISMODULE_OK"
  using vparseArgs_spec [where to_ll = "\<lambda>s. if s = ''1'' then Some 1 else None" and to_d = "\<lambda>s. None :: unit option"
      and argv = "[''a'', ''1'']" and i = 0 and fmt = "''sl''"]
  by (auto simp: case_prod_beta conv_arg_def All_less_Suc2 numeral_2_eq_2)

text \<open>The C types of the objects that a letter of the format makes the parser write to, and of what a conversion stores.\<close>

datatype c_object = CharPointer | SizeT | StringPointer | LongLong | Double

definition letter_types :: "char \<Rightarrow> c_object list" where
  "letter_types c =
     (if c = CHR ''c'' then [CharPointer]
      else if c = CHR ''b'' then [CharPointer, SizeT]
      else if c = CHR ''s'' then [StringPointer]
      else if c = CHR ''l'' then [LongLong]
      else if c = CHR ''d'' then [Double]
      else [])"

fun out_types :: "'d out_arg \<Rightarrow> c_object list" where
  "out_types (OutCString _) = [CharPointer]"
| "out_types (OutBuffer _ _) = [CharPointer, SizeT]"
| "out_types (OutString _) = [StringPointer]"
| "out_types (OutLong _) = [LongLong]"
| "out_types (OutDouble _) = [Double]"

lemma conv_arg_types: "conv_arg to_ll to_d c a = Some outs \<Longrightarrow> concat (map out_types outs) = letter_types c"
  by (auto simp: conv_arg_def letter_types_def split: if_splits)


section \<open>The command\<close>

text \<open>The reference: the arguments behind the first one that is the keyword in any case.\<close>

definition operands :: "(string \<Rightarrow> int option) \<Rightarrow> string \<Rightarrow> string list \<Rightarrow> (int \<times> int) option" where
  "operands to_ll word argv =
     (case dropWhile (\<lambda>a. \<not> same_word a word) argv of
        _ # a # b # _ \<Rightarrow> (case (to_ll a, to_ll b) of (Some x, Some y) \<Rightarrow> Some (x, y) | _ \<Rightarrow> None)
      | _ \<Rightarrow> None)"

lemma argIndex_dropWhile:
  assumes "CHR 0x00 \<notin> set word"
  shows "argIndex_from word argv n =
    (if \<exists>a\<in>set argv. same_word a word
     then int (n + length (takeWhile (\<lambda>a. \<not> same_word a word) argv)) else - 1)"
proof (induction argv arbitrary: n)
  case (Cons a argv)
  have "length a = strlen word \<and> strncasecmp_eq a word (strlen word) \<longleftrightarrow> same_word a word"
    using strncasecmp_word [of a word] assms by (auto simp: strlen_def same_word_def dest: map_eq_imp_length_eq)
  then show ?case using Cons.IH [of "Suc n"] by auto
qed simp

lemma parse_two_longs:
  assumes "CHR 0x00 \<notin> set word"
  shows "parseArgsAfter to_ll to_d word argv ''ll'' = (rc, outs) \<Longrightarrow>
    (case operands to_ll word argv of
       Some (x, y) \<Rightarrow> rc = REDISMODULE_OK \<and> outs = [OutLong x, OutLong y]
     | None \<Rightarrow> rc = REDISMODULE_ERR)"
proof -
  assume p: "parseArgsAfter to_ll to_d word argv ''ll'' = (rc, outs)"
  define pre where "pre = takeWhile (\<lambda>a. \<not> same_word a word) argv"
  define post where "post = dropWhile (\<lambda>a. \<not> same_word a word) argv"
  have argv: "argv = pre @ post" by (simp add: pre_def post_def)
  have ix: "argIndex word argv = (if post = [] then - 1 else int (length pre))"
    using argIndex_dropWhile [OF assms, of argv 0] by (auto simp: argIndex_def pre_def post_def)
  have op: "operands to_ll word argv = (case post of
        _ # a # b # _ \<Rightarrow> (case (to_ll a, to_ll b) of (Some x, Some y) \<Rightarrow> Some (x, y) | _ \<Rightarrow> None)
      | _ \<Rightarrow> None)"
    by (simp add: operands_def post_def)
  show ?thesis
  proof (cases post)
    case Nil
    then show ?thesis using p by (simp add: op parseArgsAfter_def ix)
  next
    case (Cons w ws)
    then have v: "vparseArgs to_ll to_d argv (Suc (length pre)) ''ll'' = (rc, outs)"
      using p by (simp add: parseArgsAfter_def ix nat_add_distrib)
    have nth: "argv ! (Suc (length pre) + k) = ws ! k" "length argv = Suc (length pre + length ws)" for k
      by (simp_all add: argv Cons nth_append)
    show ?thesis
      using v nth(1) [of 0] nth(1) [of 1] nth(2)
      by (cases ws; cases "tl ws") (auto simp: op Cons conv_arg_def split: option.splits)
  qed
qed

text \<open>C8. \<open>EXAMPLE.PARSE\<close> with at least three arguments: behind the first \<open>SUM\<close>, in any case, two integers
  are replied to with their sum; otherwise, behind the first \<open>PROD\<close>, with their product; otherwise
  with an error. A result outside \<open>long long\<close> is undefined behaviour that the command's arguments
  alone decide.\<close>

theorem ParseCommand_spec:
  assumes "4 \<le> length argv"
  shows "ParseCommand to_ll to_d argv =
    (let answer = (\<lambda>v. if LLONG_MIN \<le> v \<and> v \<le> LLONG_MAX then Inr (Some REDISMODULE_OK, ReplyLongLong v)
                       else Inl SignedOverflow) in
     case operands to_ll ''SUM'' argv of
       Some (x, y) \<Rightarrow> answer (x + y)
     | None \<Rightarrow>
        (case operands to_ll ''PROD'' argv of
           Some (x, y) \<Rightarrow> answer (x * y)
         | None \<Rightarrow> Inr (Some REDISMODULE_ERR, ReplyError ''Invalid arguments'')))"
proof -
  obtain rc1 o1 rc2 o2 where p: "parseArgsAfter to_ll to_d ''SUM'' argv ''ll'' = (rc1, o1)"
    "parseArgsAfter to_ll to_d ''PROD'' argv ''ll'' = (rc2, o2)" by (metis surj_pair)
  have "CHR 0x00 \<notin> set ''SUM''" "CHR 0x00 \<notin> set ''PROD''" by simp_all
  note q = parse_two_longs [OF this(1) p(1)] parse_two_longs [OF this(2) p(2)]
  show ?thesis
    unfolding ParseCommand_def p using assms q
    by (auto simp: Let_def two_longs_def ll_check_def split: option.splits)
qed

definition demo_to_ll :: "string \<Rightarrow> int option" where
  "demo_to_ll s = (if s = ''9223372036854775807'' then Some LLONG_MAX else if s = ''1'' then Some 1 else None)"

theorem ParseCommand_spec_witness:
  "ParseCommand demo_to_ll (\<lambda>_. None :: unit option) [''example.parse'', ''sum'', ''9223372036854775807'', ''1''] = Inl SignedOverflow"
proof -
  let ?argv = "[''example.parse'', ''sum'', ''9223372036854775807'', ''1'']"
  have w: "\<not> same_word ''example.parse'' ''SUM''" "same_word ''sum'' ''SUM''"
    by code_simp+
  have "operands demo_to_ll ''SUM'' ?argv = Some (LLONG_MAX, 1)"
    unfolding operands_def using w by (simp add: demo_to_ll_def)
  then show ?thesis
    using ParseCommand_spec [of ?argv demo_to_ll "\<lambda>_. None :: unit option"] by (simp add: LLONG_MAX_def LLONG_MIN_def)
qed

end
