(* ===== verification/Wasm_Filter.thy ===== *)
theory Wasm_Filter
  imports C_Lib
begin

text \<open>
  The Envoy filter of \<open>proxy/envoy/wasm/dscp/dscp-filter.cc\<close>: the callbacks of its root context and of its stream
  contexts. The proxy is a parameter, the record \<open>wasm_host\<close> of the host calls the filter makes on
  headers and buffers; what is documented of those calls is the predicate \<open>host_ok\<close>.
\<close>

section \<open>Host\<close>

record 'h wasm_host =
  header_pairs :: "'h \<Rightarrow> (string \<times> string) list"
  header_values :: "string \<Rightarrow> 'h \<Rightarrow> string list"
  header_add :: "string \<Rightarrow> string \<Rightarrow> 'h \<Rightarrow> 'h"
  header_replace :: "string \<Rightarrow> string \<Rightarrow> 'h \<Rightarrow> 'h"
  header_remove :: "string \<Rightarrow> 'h \<Rightarrow> 'h"
  buffer_set :: "nat \<Rightarrow> nat \<Rightarrow> string \<Rightarrow> string \<Rightarrow> string"

datatype wasm_level = LTrace | LDebug | LInfo | LWarn | LError
datatype wasm_event = WLog wasm_level string | TickPeriod nat | SystemCall string
datatype filter_status = Continue

section \<open>Root context\<close>

definition onStart :: "wasm_event list \<Rightarrow> bool \<times> wasm_event list" where
  "onStart t = (True, t @ [WLog LTrace ''onStart''])"

definition onConfigure :: "wasm_event list \<Rightarrow> bool \<times> wasm_event list" where
  "onConfigure t = (True, t @ [WLog LTrace ''onConfigure'', TickPeriod 1000])"

definition onTick :: "wasm_event list \<Rightarrow> wasm_event list" where
  "onTick t = t @ [WLog LTrace ''onTick'']"

section \<open>Stream context\<close>

definition onCreate :: "nat \<Rightarrow> wasm_event list \<Rightarrow> wasm_event list" where
  "onCreate i t = t @ [WLog LWarn (''onCreate '' @ dec_string i)]"

definition log_headers :: "(string \<times> string) list \<Rightarrow> wasm_event list" where
  "log_headers pairs = WLog LInfo (''headers: '' @ dec_string (length pairs)) #
     map (\<lambda>p. WLog LInfo (fst p @ '' -> '' @ snd p)) pairs"

definition onRequestHeaders :: "'h wasm_host \<Rightarrow> nat \<Rightarrow> 'h \<Rightarrow> wasm_event list \<Rightarrow> filter_status \<times> wasm_event list" where
  "onRequestHeaders w i h t =
     (Continue, t @ [WLog LDebug (''onRequestHeaders '' @ dec_string i)] @ log_headers (header_pairs w h) @ [SystemCall ''echo hello''])"

definition onResponseHeaders :: "'h wasm_host \<Rightarrow> nat \<Rightarrow> 'h \<Rightarrow> wasm_event list \<Rightarrow> filter_status \<times> 'h \<times> wasm_event list" where
  "onResponseHeaders w i h t =
     (let t1 = t @ [WLog LDebug (''onResponseHeaders '' @ dec_string i)] @ log_headers (header_pairs w h);
          h1 = header_add w ''X-Wasm-custom'' ''FOO'' h;
          h2 = header_replace w ''content-type'' ''text/plain; charset=utf-8'' h1;
          h3 = header_remove w ''content-length'' h2
      in (Continue, h3, t1))"

definition onRequestBody :: "nat \<Rightarrow> string \<Rightarrow> wasm_event list \<Rightarrow> filter_status \<times> wasm_event list" where
  "onRequestBody len body t = (Continue, t @ [WLog LError (''onRequestBody '' @ take len body)])"

definition hello :: string where
  "hello = ''Hello, world'' @ [CHR 0x0A]"

definition onResponseBody :: "'h wasm_host \<Rightarrow> nat \<Rightarrow> string \<Rightarrow> filter_status \<times> string" where
  "onResponseBody w len body = (Continue, buffer_set w 0 len hello body)"

definition onDone :: "nat \<Rightarrow> wasm_event list \<Rightarrow> wasm_event list" where
  "onDone i t = t @ [WLog LWarn (''onDone '' @ dec_string i)]"

definition onLog :: "nat \<Rightarrow> wasm_event list \<Rightarrow> wasm_event list" where
  "onLog i t = t @ [WLog LWarn (''onLog '' @ dec_string i)]"

definition onDelete :: "nat \<Rightarrow> wasm_event list \<Rightarrow> wasm_event list" where
  "onDelete i t = t @ [WLog LWarn (''onDelete '' @ dec_string i)]"

text \<open>
  A response streamed through the filter: its headers, then its body chunk by chunk, each chunk handed over
  with its length and passed on as the callback leaves it.
\<close>

definition stream_response :: "'h wasm_host \<Rightarrow> nat \<Rightarrow> 'h \<Rightarrow> string list \<Rightarrow> 'h \<times> string" where
  "stream_response w i h chunks =
     (let (st, h1, t) = onResponseHeaders w i h []
      in (h1, concat (map (\<lambda>c. snd (onResponseBody w (length c) c)) chunks)))"

section \<open>What a client receives\<close>

text \<open>
  The documented host calls: adding appends a value, replacing leaves one, removing leaves none, each for the
  names that are the same header, and setting a buffer range replaces it.
\<close>

definition host_ok :: "(string \<Rightarrow> string) \<Rightarrow> 'h wasm_host \<Rightarrow> bool" where
  "host_ok canon w \<longleftrightarrow>
     (\<forall>k k' v h. header_values w k' (header_add w k v h) =
        (if canon k' = canon k then header_values w k' h @ [v] else header_values w k' h)) \<and>
     (\<forall>k k' v h. header_values w k' (header_replace w k v h) =
        (if canon k' = canon k then [v] else header_values w k' h)) \<and>
     (\<forall>k k' h. header_values w k' (header_remove w k h) =
        (if canon k' = canon k then [] else header_values w k' h)) \<and>
     (\<forall>start len d b. buffer_set w start len d b = take start b @ d @ drop (start + len) b)"

text \<open>C38. Whatever the upstream answers, the client gets its headers with one more custom header, exactly one
  content type and no content length, every other header as it was, and the greeting once for every chunk of
  the body: a response that arrives in several chunks repeats it, an empty one has none.
\<close>

theorem stream_response_spec:
  assumes "host_ok canon w" "distinct (map canon [''X-Wasm-custom'', ''content-type'', ''content-length''])"
    and "stream_response w i h chunks = (h', body)"
  shows "header_values w ''X-Wasm-custom'' h' = header_values w ''X-Wasm-custom'' h @ [''FOO''] \<and>
    header_values w ''content-type'' h' = [''text/plain; charset=utf-8''] \<and>
    header_values w ''content-length'' h' = [] \<and>
    (\<forall>k. canon k \<notin> set (map canon [''X-Wasm-custom'', ''content-type'', ''content-length'']) \<longrightarrow>
       header_values w k h' = header_values w k h) \<and>
    body = concat (replicate (length chunks) hello)"
proof -
  have "concat (map (\<lambda>c. snd (onResponseBody w (length c) c)) chunks) = concat (replicate (length chunks) hello)"
    using assms(1) by (induction chunks) (simp_all add: onResponseBody_def host_ok_def)
  moreover have h': "h' = header_remove w ''content-length'' (header_replace w ''content-type'' ''text/plain; charset=utf-8''
      (header_add w ''X-Wasm-custom'' ''FOO'' h))"
    "body = concat (map (\<lambda>c. snd (onResponseBody w (length c) c)) chunks)"
    using assms(3) by (auto simp: stream_response_def onResponseHeaders_def Let_def)
  ultimately show ?thesis
    using assms(1,2) by (simp add: host_ok_def)
qed

definition list_host :: "(string \<times> string) list wasm_host" where
  "list_host = \<lparr>header_pairs = id, header_values = (\<lambda>k h. map snd (filter (\<lambda>p. fst p = k) h)),
     header_add = (\<lambda>k v h. h @ [(k, v)]), header_replace = (\<lambda>k v h. filter (\<lambda>p. fst p \<noteq> k) h @ [(k, v)]),
     header_remove = (\<lambda>k h. filter (\<lambda>p. fst p \<noteq> k) h),
     buffer_set = (\<lambda>start len d b. take start b @ d @ drop (start + len) b)\<rparr>"

lemma filter_other_key:
  "k' \<noteq> k \<Longrightarrow> filter (\<lambda>x. fst x \<noteq> k \<and> fst x = k') h = filter (\<lambda>p. fst p = k') h"
  "k \<noteq> k' \<Longrightarrow> filter (\<lambda>x. fst x \<noteq> k \<and> fst x = k') h = filter (\<lambda>p. fst p = k') h"
  by (rule filter_cong, auto)+

lemma list_host_ok: "host_ok id list_host"
  by (auto simp: host_ok_def list_host_def filter_empty_conv filter_other_key)

theorem stream_response_spec_witness:
  "\<exists>h'. stream_response list_host 7 [(''content-length'', ''5''), (''server'', ''x'')] [''abc'', ''de''] = (h', hello @ hello) \<and>
     header_values list_host ''content-length'' h' = [] \<and> header_values list_host ''server'' h' = [''x'']"
proof -
  obtain h' body where r: "stream_response list_host 7 [(''content-length'', ''5''), (''server'', ''x'')] [''abc'', ''de''] = (h', body)"
    by (cases "stream_response list_host 7 [(''content-length'', ''5''), (''server'', ''x'')] [''abc'', ''de'']")
  have "header_values list_host ''server'' [(''content-length'', ''5''), (''server'', ''x'')] = [''x'']"
    by (simp add: list_host_def)
  with stream_response_spec [OF list_host_ok _ r] have "header_values list_host ''content-length'' h' = []"
    "header_values list_host ''server'' h' = [''x'']" "body = hello @ hello" by simp_all
  with r show ?thesis by simp
qed

end
