(* ===== verification/Support.thy ===== *)
theory Support
  imports C_Lib
begin

text \<open>
  The parts around the larger components: the gRPC greeter client (\<open>grpc/cpp/hello/client.cc\<close>), the log handler of the
  metrics wrapper (\<open>opentelemetry/prometheus/metrics_logger.h\<close>) and the exporter and reader that stand in for
  the real ones in its tests (\<open>metrics_mock.h\<close>, \<open>metrics_mock.cc\<close>). The generated stub of the
  greeter is a parameter.
\<close>

section \<open>The greeter client\<close>

record grpc_status =
  error_code :: nat
  error_message :: string

text \<open>\<open>stub\<close> is the call: the status and the reply message for a request name. A status is good when its code is 0.\<close>

definition SayHello :: "(string \<Rightarrow> grpc_status \<times> string) \<Rightarrow> string \<Rightarrow> string \<times> string list" where
  "SayHello stub user =
     (let (status, message) = stub user in
      if error_code status = 0 then (message, [])
      else (''RPC failed'', [dec_string (error_code status) @ '': '' @ error_message status]))"

definition greeter_main :: "(string \<Rightarrow> string \<Rightarrow> grpc_status \<times> string) \<Rightarrow> string option \<Rightarrow> int \<times> string list" where
  "greeter_main connect target =
     (let target_str = (case target of None \<Rightarrow> ''localhost:50051'' | Some t \<Rightarrow> t);
          (reply, t) = SayHello (connect target_str) ''world''
      in (0, t @ [''Greeter received: '' @ reply]))"

section \<open>The log handler\<close>

definition Handle :: "string \<Rightarrow> int \<Rightarrow> string \<Rightarrow> string" where
  "Handle file line msg = file @ '':'' @ show_int line @ '' - '' @ msg"

section \<open>The mock exporter and reader\<close>

datatype AggregationTemporality = kUnspecified | kDelta | kCumulative
datatype ExportResult = kSuccess | kFailure

definition Export :: "'m \<Rightarrow> ExportResult" where "Export m = kSuccess"
definition exporter_GetAggregationTemporality :: "'i \<Rightarrow> AggregationTemporality" where
  "exporter_GetAggregationTemporality instrument_type = kCumulative"
definition exporter_ForceFlush :: bool where "exporter_ForceFlush = True"
definition exporter_Shutdown :: bool where "exporter_Shutdown = True"

text \<open>A reader keeps the exporter it was given, of which it uses the temporality, or the mock one.\<close>

record 'i MockMetricReader =
  reader_exporter :: "'i \<Rightarrow> AggregationTemporality"

definition make_MockMetricReader :: "('i \<Rightarrow> AggregationTemporality) option \<Rightarrow> 'i MockMetricReader" where
  "make_MockMetricReader e =
     \<lparr>reader_exporter = (case e of None \<Rightarrow> exporter_GetAggregationTemporality | Some x \<Rightarrow> x)\<rparr>"

definition reader_GetAggregationTemporality :: "'i MockMetricReader \<Rightarrow> 'i \<Rightarrow> AggregationTemporality" where
  "reader_GetAggregationTemporality r i = reader_exporter r i"

definition OnForceFlush :: bool where "OnForceFlush = True"
definition OnShutDown :: bool where "OnShutDown = True"

record MockCollectorHandle =
  handle_temporality :: AggregationTemporality

definition make_MockCollectorHandle :: "AggregationTemporality \<Rightarrow> MockCollectorHandle" where
  "make_MockCollectorHandle t = \<lparr>handle_temporality = t\<rparr>"

definition collector_GetAggregationTemporality :: "MockCollectorHandle \<Rightarrow> 'i \<Rightarrow> AggregationTemporality" where
  "collector_GetAggregationTemporality c i = handle_temporality c"

section \<open>Lemmas\<close>

lemma greeter_main_exit: "fst (greeter_main connect target) = 0"
  by (simp add: greeter_main_def Let_def split: prod.splits)

lemma greeter_main_reports:
  assumes "connect (case target of None \<Rightarrow> ''localhost:50051'' | Some t \<Rightarrow> t) ''world'' = (st, m)"
  shows "snd (greeter_main connect target) =
    (if error_code st = 0 then [''Greeter received: '' @ m]
     else [dec_string (error_code st) @ '': '' @ error_message st, ''Greeter received: RPC failed''])"
  using assms by (simp add: greeter_main_def SayHello_def Let_def)

end
