(* ===== verification/Rust_Lib.thy ===== *)
theory Rust_Lib
  imports C_Lib
begin

text \<open>
  What the Rust programs use of their standard library: decoding of UTF-8, the first line of a buffered
  reader, trimming and parsing of a byte-sized integer. A byte string is a \<open>string\<close>, each character a byte; a decoded
  string is the list of its scalar values.
\<close>

section \<open>Decoding\<close>

definition byte :: "char \<Rightarrow> nat" where
  "byte c = of_char c"

definition cont :: "char \<Rightarrow> bool" where
  "cont c \<longleftrightarrow> 128 \<le> byte c \<and> byte c < 192"

definition scalar :: "nat \<Rightarrow> nat \<Rightarrow> bool" where
  "scalar low n \<longleftrightarrow> low \<le> n \<and> n \<le> 1114111 \<and> \<not> (55296 \<le> n \<and> n \<le> 57343)"

fun from_utf8 :: "string \<Rightarrow> nat list option" where
  "from_utf8 [] = Some []"
| "from_utf8 (a # s) =
     (if byte a < 128 then map_option (Cons (byte a)) (from_utf8 s)
      else if 192 \<le> byte a \<and> byte a < 224 then
        (case s of
           b # r \<Rightarrow>
             let n = (byte a - 192) * 64 + (byte b - 128)
             in if cont b \<and> scalar 128 n then map_option (Cons n) (from_utf8 r) else None
         | _ \<Rightarrow> None)
      else if 224 \<le> byte a \<and> byte a < 240 then
        (case s of
           b # c # r \<Rightarrow>
             let n = (byte a - 224) * 4096 + (byte b - 128) * 64 + (byte c - 128)
             in if cont b \<and> cont c \<and> scalar 2048 n then map_option (Cons n) (from_utf8 r) else None
         | _ \<Rightarrow> None)
      else if 240 \<le> byte a \<and> byte a < 248 then
        (case s of
           b # c # d # r \<Rightarrow>
             let n = (byte a - 240) * 262144 + (byte b - 128) * 4096 + (byte c - 128) * 64 + (byte d - 128)
             in if cont b \<and> cont c \<and> cont d \<and> scalar 65536 n then map_option (Cons n) (from_utf8 r) else None
         | _ \<Rightarrow> None)
      else None)"

declare from_utf8.simps(2) [simp del]

definition ascii :: "string \<Rightarrow> bool" where
  "ascii s = list_all (\<lambda>c. byte c < 128) s"

lemma from_utf8_ascii: "ascii s \<Longrightarrow> from_utf8 s = Some (map byte s)"
  by (induction s) (simp_all add: ascii_def from_utf8.simps)

text \<open>The first item of \<open>lines()\<close>: \<open>None\<close> at the end of the stream, \<open>Some None\<close> a line that is not UTF-8.\<close>

definition next_line :: "string \<Rightarrow> nat list option option" where
  "next_line s =
     (if s = [] then None
      else let raw = takeWhile (\<lambda>c. c \<noteq> CHR 0x0A) s;
               ended = length raw < length s
           in Some (from_utf8 (if ended \<and> raw \<noteq> [] \<and> last raw = CHR 0x0D then butlast raw else raw)))"

section \<open>Trimming and parsing\<close>

definition is_whitespace :: "nat \<Rightarrow> bool" where
  "is_whitespace n \<longleftrightarrow>
     (9 \<le> n \<and> n \<le> 13) \<or> n = 32 \<or> n = 133 \<or> n = 160 \<or> n = 5760 \<or> (8192 \<le> n \<and> n \<le> 8202) \<or>
     n = 8232 \<or> n = 8233 \<or> n = 8239 \<or> n = 8287 \<or> n = 12288"

definition str_trim :: "nat list \<Rightarrow> nat list" where
  "str_trim s = rev (dropWhile is_whitespace (rev (dropWhile is_whitespace s)))"

text \<open>The value of a digit string, \<open>None\<close> at a character that is no digit or when a byte overflows.\<close>

fun u8_digits :: "nat list \<Rightarrow> nat \<Rightarrow> nat option" where
  "u8_digits [] acc = Some acc"
| "u8_digits (c # cs) acc =
     (if 48 \<le> c \<and> c \<le> 57 \<and> acc * 10 + (c - 48) < 256 then u8_digits cs (acc * 10 + (c - 48)) else None)"

definition parse_u8 :: "nat list \<Rightarrow> u8 option" where
  "parse_u8 s =
     (let digits = (case s of c # r \<Rightarrow> if c = 43 then r else s | [] \<Rightarrow> [])
      in if digits = [] then None else map_option of_nat (u8_digits digits 0))"

lemma u8_digits_bound: "u8_digits s acc = Some n \<Longrightarrow> acc < 256 \<Longrightarrow> n < 256"
  by (induction s acc rule: u8_digits.induct) (auto split: if_splits)

lemma u8_digits_append:
  "u8_digits (s @ t) acc = (case u8_digits s acc of None \<Rightarrow> None | Some n \<Rightarrow> u8_digits t n)"
  by (induction s acc rule: u8_digits.induct) auto

lemma byte_digit_char: "n < 10 \<Longrightarrow> byte (digit_char n) = 48 + n"
  by (simp add: byte_def digit_char_def of_char_of)

lemma dec_string_nonempty [simp]: "dec_string n \<noteq> []"
  by (subst dec_string.simps) simp

lemma dec_string_bytes: "\<forall>b\<in>set (map byte (dec_string n)). 48 \<le> b \<and> b \<le> 57"
proof (induction n rule: dec_string.induct)
  case (1 n)
  then show ?case by (subst dec_string.simps) (auto simp: byte_digit_char)
qed

lemma dec_string_ascii [simp]: "ascii (dec_string n)"
  using dec_string_bytes [of n] by (fastforce simp: ascii_def list_all_iff)

lemma u8_digits_dec_string: "n < 256 \<Longrightarrow> u8_digits (map byte (dec_string n)) 0 = Some n"
proof (induction n rule: dec_string.induct)
  case (1 n)
  show ?case
  proof (cases "n < 10")
    case True
    then show ?thesis by (subst dec_string.simps) (simp add: byte_digit_char)
  next
    case False
    with 1 have "u8_digits (map byte (dec_string (n div 10))) 0 = Some (n div 10)" by simp
    with False "1.prems" show ?thesis
      by (subst dec_string.simps) (simp add: u8_digits_append byte_digit_char)
  qed
qed

lemma parse_u8_dec_string: "n < 256 \<Longrightarrow> parse_u8 (map byte (dec_string n)) = Some (of_nat n)"
proof -
  assume n: "n < 256"
  obtain b bs where bs: "map byte (dec_string n) = b # bs"
    by (cases "map byte (dec_string n)") auto
  then have "b \<noteq> 43" using dec_string_bytes [of n] by auto
  with n bs u8_digits_dec_string [of n] show ?thesis by (simp add: parse_u8_def Let_def)
qed

lemma dropWhile_all_append: "list_all P w \<Longrightarrow> dropWhile P (w @ s) = dropWhile P s"
  by (induction w) simp_all

lemma str_trim_core:
  assumes "list_all is_whitespace v" "list_all is_whitespace w" "s \<noteq> []"
    and "\<not> is_whitespace (hd s)" "\<not> is_whitespace (last s)"
  shows "str_trim (v @ s @ w) = s"
proof -
  have "dropWhile is_whitespace (s @ w) = s @ w" using assms(3,4) by (cases s) simp_all
  moreover have "dropWhile is_whitespace (rev s) = rev s"
    using assms(3,5) by (cases s rule: rev_cases) simp_all
  ultimately show ?thesis
    using assms(1,2) by (simp add: str_trim_def dropWhile_all_append)
qed

lemma str_trim_dec_string:
  assumes "list_all is_whitespace v" "list_all is_whitespace w"
  shows "str_trim (v @ map byte (dec_string n) @ w) = map byte (dec_string n)"
proof -
  have "\<not> is_whitespace b" if "b \<in> set (map byte (dec_string n))" for b
    using dec_string_bytes [of n] that by (auto simp: is_whitespace_def)
  then show ?thesis using assms by (intro str_trim_core) (simp_all del: set_map)
qed

end
