(* ===== verification/Rust_Pool.thy ===== *)
theory Rust_Pool
  imports Rust_Lib "HOL-Library.Multiset"
begin

text \<open>
  The web server of \<open>concurrency/rust/rust_web_server/example_web_server\<close>: the answer to one connection
  (\<open>main.rs\<close>) and the thread pool that runs the answers (\<open>pool.rs\<close>). The main thread and the workers share a
  channel whose receiving end is behind a mutex; a schedule interleaves their steps. What a peer sends, the files
  and the success of the write are fields of the connection. A panic ends the thread it happens in, and
  the panic of the main thread ends the process, where the model stops.
\<close>

section \<open>One connection\<close>

text \<open>
  \<open>received\<close> is what arrives up to the first line feed or to the end of the stream; the files are \<open>None\<close> when they
  cannot be read as text.
\<close>

record connection =
  received :: string
  read_ok :: bool
  hello_html :: "string option"
  not_found_html :: "string option"
  write_ok :: bool

definition crlf :: string where "crlf = [CHR 0x0D, CHR 0x0A]"

definition http_response :: "string \<Rightarrow> string \<Rightarrow> string" where
  "http_response status_line contents =
     status_line @ crlf @ ''Content-Length: '' @ dec_string (length contents) @ crlf @ crlf @ contents"

text \<open>\<open>None\<close> is a panic, otherwise what was written to the stream.\<close>

definition handle_connection :: "connection \<Rightarrow> string option" where
  "handle_connection c =
     (case (if read_ok c then next_line (received c) else Some None) of
        None \<Rightarrow> None
      | Some None \<Rightarrow> None
      | Some (Some request_line) \<Rightarrow>
          if request_line = map byte ''GET / HTTP/1.1'' then
            (case hello_html c of
               None \<Rightarrow> None
             | Some contents \<Rightarrow> if write_ok c then Some (http_response ''HTTP/1.1 200 OK'' contents) else None)
          else
            (case not_found_html c of
               None \<Rightarrow> None
             | Some contents \<Rightarrow> if write_ok c then Some (http_response ''HTTP/1.1 404 NOT FOUND'' contents) else None))"

definition panics :: "connection \<Rightarrow> bool" where
  "panics c \<longleftrightarrow> handle_connection c = None"

section \<open>The pool\<close>

text \<open>
  A worker waits for the mutex, holds it while it waits for a job, has a job and has released the mutex, runs the job,
  or is dead. The mutex is free again before a job runs, so a panicking job does not poison it. The main thread is in
  \<open>accept\<close>, has a connection to hand over, or has panicked, on an accept error or because the channel is closed.
\<close>

datatype worker = WaitLock | WaitJob | Got connection | Running connection | Dead

datatype main_thread = Accepting | Sending connection | AcceptPanic | SendPanic connection

record rust_pool =
  workers :: "worker list"
  channel :: "connection list"
  main_thread :: main_thread
  printed :: "string list"
  started :: "connection list"
  finished :: "connection list"
  responses :: "string list"

text \<open>\<open>new\<close> panics on a size of zero.\<close>

definition ThreadPool_new :: "nat \<Rightarrow> rust_pool option" where
  "ThreadPool_new n =
     (if n > 0
      then Some \<lparr>workers = replicate n WaitLock, channel = [], main_thread = Accepting, printed = [],
                 started = [], finished = [], responses = []\<rparr>
      else None)"

definition web_main :: "bool \<Rightarrow> rust_pool option" where
  "web_main bound = (if bound then ThreadPool_new 4 else None)"

text \<open>
  The receiver is owned by the workers' threads alone: with the last of them it is dropped, and sending fails.
\<close>

definition execute :: "connection \<Rightarrow> rust_pool \<Rightarrow> rust_pool" where
  "execute c p =
     (if list_all (\<lambda>w. w = Dead) (workers p) then p\<lparr>main_thread := SendPanic c\<rparr>
      else p\<lparr>channel := channel p @ [c], main_thread := Accepting\<rparr>)"

datatype pool_label = Connect connection | AcceptError | Send | TakeLock nat | TakeJob nat | Announce nat | RunJob nat

definition main_step :: "pool_label \<Rightarrow> rust_pool \<Rightarrow> rust_pool option" where
  "main_step l p =
     (case (l, main_thread p) of
        (Connect c, Accepting) \<Rightarrow>
          Some (p\<lparr>main_thread := Sending c, printed := printed p @ [''Connection established!'']\<rparr>)
      | (AcceptError, Accepting) \<Rightarrow> Some (p\<lparr>main_thread := AcceptPanic\<rparr>)
      | (Send, Sending c) \<Rightarrow> Some (execute c p)
      | _ \<Rightarrow> None)"

text \<open>One round of the loop of \<open>Worker::new\<close> is four steps of worker \<open>i\<close>.\<close>

definition worker_step :: "pool_label \<Rightarrow> nat \<Rightarrow> rust_pool \<Rightarrow> rust_pool option" where
  "worker_step l i p =
     (if i < length (workers p) then
        (case (l, workers p ! i) of
           (TakeLock _, WaitLock) \<Rightarrow>
             if WaitJob \<in> set (workers p) then None else Some (p\<lparr>workers := (workers p)[i := WaitJob]\<rparr>)
         | (TakeJob _, WaitJob) \<Rightarrow>
             (case channel p of
                [] \<Rightarrow> None
              | c # cs \<Rightarrow> Some (p\<lparr>workers := (workers p)[i := Got c], channel := cs, started := started p @ [c]\<rparr>))
         | (Announce _, Got c) \<Rightarrow>
             Some (p\<lparr>workers := (workers p)[i := Running c],
                     printed := printed p @ [''Worker '' @ dec_string i @ '' got a job; executing.'']\<rparr>)
         | (RunJob _, Running c) \<Rightarrow>
             Some (case handle_connection c of
                     None \<Rightarrow> p\<lparr>workers := (workers p)[i := Dead], finished := finished p @ [c]\<rparr>
                   | Some r \<Rightarrow> p\<lparr>workers := (workers p)[i := WaitLock], finished := finished p @ [c],
                                  responses := responses p @ [r]\<rparr>)
         | _ \<Rightarrow> None)
      else None)"

definition process_alive :: "rust_pool \<Rightarrow> bool" where
  "process_alive p = (case main_thread p of Accepting \<Rightarrow> True | Sending _ \<Rightarrow> True | _ \<Rightarrow> False)"

definition worker_of :: "pool_label \<Rightarrow> nat option" where
  "worker_of l = (case l of TakeLock i \<Rightarrow> Some i | TakeJob i \<Rightarrow> Some i | Announce i \<Rightarrow> Some i | RunJob i \<Rightarrow> Some i | _ \<Rightarrow> None)"

definition pool_step :: "pool_label \<Rightarrow> rust_pool \<Rightarrow> rust_pool cexec option" where
  "pool_step l p =
     (if process_alive p
      then map_option Inr (case worker_of l of None \<Rightarrow> main_step l p | Some i \<Rightarrow> worker_step l i p)
      else None)"

section \<open>Responses\<close>

text \<open>A reader of one response on a stream that goes on: status line, length, body and the rest.\<close>

fun split_crlf :: "string \<Rightarrow> (string \<times> string) option" where
  "split_crlf (a # b # s) =
     (if a = CHR 0x0D \<and> b = CHR 0x0A then Some ([], s) else map_option (\<lambda>(l, r). (a # l, r)) (split_crlf (b # s)))"
| "split_crlf s = None"

definition read_response :: "string \<Rightarrow> (string \<times> string \<times> string) option" where
  "read_response s =
     (case split_crlf s of None \<Rightarrow> None | Some (status, s1) \<Rightarrow>
      (case split_crlf s1 of None \<Rightarrow> None | Some (header, s2) \<Rightarrow>
       (case split_crlf s2 of None \<Rightarrow> None | Some (blank, s3) \<Rightarrow>
          let n = digits_val (drop 16 header) 0
          in if take 16 header = ''Content-Length: '' \<and> blank = [] \<and> n \<le> length s3
             then Some (status, take n s3, drop n s3) else None)))"

lemma split_crlf_line: "CHR 0x0D \<notin> set l \<Longrightarrow> split_crlf (l @ crlf @ s) = Some (l, s)"
proof (induction l)
  case (Cons a l)
  then show ?case by (cases "l @ crlf @ s") (auto simp: crlf_def)
qed (simp add: crlf_def)

lemma dec_string_no_cr: "CHR 0x0D \<notin> set (dec_string n)"
  using dec_string_digits [of n] by (force simp: digit_val_def)

lemma read_http_response:
  "CHR 0x0D \<notin> set status \<Longrightarrow> read_response (http_response status contents @ rest) = Some (status, contents, rest)"
  using split_crlf_line [of "''Content-Length: '' @ dec_string (length contents)" "crlf @ contents @ rest"]
    split_crlf_line [of "[]" "contents @ rest"]
  by (simp add: read_response_def http_response_def split_crlf_line dec_string_no_cr digits_val_dec_string)

lemma next_line_request:
  "CHR 0x0A \<notin> set l \<Longrightarrow> ascii l \<Longrightarrow> next_line (l @ crlf @ s) = Some (Some (map byte l))"
  by (simp add: next_line_def crlf_def takeWhile_append from_utf8_ascii Let_def)

lemma inj_byte: "inj byte"
  by (auto simp: byte_def inj_def)

text \<open>C39. A connection that sends an ASCII request line is answered, when the files can be read and the write succeeds, with a
  response that a reader following the content length recovers whatever comes after it: the page for exactly the line
  \<open>GET / HTTP/1.1\<close>, the error page with status 404 for every other line.
\<close>

theorem web_response_roundtrip:
  assumes "received c = l @ crlf @ s" "CHR 0x0A \<notin> set l" "ascii l" "read_ok c" "write_ok c"
    and "hello_html c = Some h" "not_found_html c = Some e"
  shows "\<exists>r. handle_connection c = Some r \<and>
             read_response (r @ rest) =
               Some (if l = ''GET / HTTP/1.1'' then (''HTTP/1.1 200 OK'', h, rest) else (''HTTP/1.1 404 NOT FOUND'', e, rest))"
proof -
  have "map byte l = map byte ''GET / HTTP/1.1'' \<longleftrightarrow> l = ''GET / HTTP/1.1''"
    by (rule inj_map_eq_map [OF inj_byte])
  then show ?thesis
    using assms by (simp add: handle_connection_def next_line_request read_http_response)
qed

section \<open>Invariant of the pool\<close>

text \<open>What the workers have in hand, how many are dead, and the connections accepted in a schedule.\<close>

definition in_hand :: "worker list \<Rightarrow> connection list" where
  "in_hand ws = concat (map (\<lambda>w. case w of Got c \<Rightarrow> [c] | Running c \<Rightarrow> [c] | _ \<Rightarrow> []) ws)"

definition dead :: "worker list \<Rightarrow> nat" where
  "dead ws = length (filter (\<lambda>w. w = Dead) ws)"

definition accepted :: "pool_label list \<Rightarrow> connection list" where
  "accepted ls = concat (map (\<lambda>l. case l of Connect c \<Rightarrow> [c] | _ \<Rightarrow> []) ls)"

definition pending :: "main_thread \<Rightarrow> connection list" where
  "pending m = (case m of Sending c \<Rightarrow> [c] | SendPanic c \<Rightarrow> [c] | _ \<Rightarrow> [])"

lemma accepted_snoc [simp]:
  "accepted [] = []"
  "accepted (ls @ [l]) = accepted ls @ (case l of Connect c \<Rightarrow> [c] | _ \<Rightarrow> [])"
  by (simp_all add: accepted_def)

lemma in_hand_update:
  "i < length ws \<Longrightarrow> mset (in_hand (ws[i := w])) + mset (in_hand [ws ! i]) = mset (in_hand ws) + mset (in_hand [w])"
  by (induction ws arbitrary: i) (auto simp: in_hand_def split: nat.splits)

lemma dead_Cons: "dead (w # ws) = (if w = Dead then Suc (dead ws) else dead ws)"
  by (simp add: dead_def)

lemma dead_update:
  "i < length ws \<Longrightarrow> dead (ws[i := w]) + dead [ws ! i] = dead ws + dead [w]"
proof (induction ws arbitrary: i)
  case (Cons v ws)
  then show ?case
  proof (cases i)
    case (Suc j)
    with Cons.IH [of j] Cons.prems show ?thesis by (auto simp: dead_Cons split: if_splits)
  qed (simp add: dead_Cons)
qed simp

lemma single_worker [simp]:
  "in_hand [WaitLock] = []" "in_hand [WaitJob] = []" "in_hand [Got c] = [c]" "in_hand [Running c] = [c]" "in_hand [Dead] = []"
  "dead [WaitLock] = 0" "dead [WaitJob] = 0" "dead [Got c] = 0" "dead [Running c] = 0" "dead [Dead] = 1"
  by (simp_all add: in_hand_def dead_def)

lemma dead_le: "dead ws \<le> length ws"
  by (simp add: dead_def)

lemma dead_all: "list_all (\<lambda>w. w = Dead) ws \<longleftrightarrow> dead ws = length ws"
proof (induction ws)
  case (Cons w ws)
  then show ?case using dead_le [of ws] by (simp add: dead_Cons)
qed (simp add: dead_def)

lemma dead_replicate: "dead (replicate n WaitLock) = 0" "in_hand (replicate n WaitLock) = []"
  by (simp_all add: dead_def in_hand_def)

definition pool_past :: "nat \<Rightarrow> pool_label list \<Rightarrow> rust_pool \<Rightarrow> bool" where
  "pool_past n ls p \<longleftrightarrow>
     length (workers p) = n \<and>
     started p @ channel p @ pending (main_thread p) = accepted ls \<and>
     mset (started p) = mset (finished p) + mset (in_hand (workers p)) \<and>
     dead (workers p) = length (filter panics (finished p)) \<and>
     map Some (responses p) = map handle_connection (filter (\<lambda>c. \<not> panics c) (finished p)) \<and>
     ((\<exists>c. main_thread p = SendPanic c) \<longrightarrow> dead (workers p) = n)"

lemma pool_past_init: "ThreadPool_new n = Some p \<Longrightarrow> pool_past n [] p"
  by (auto simp: ThreadPool_new_def pool_past_def pending_def dead_replicate split: if_splits)

lemma pool_past_main:
  assumes "pool_past n ls p" "main_step l p = Some q"
  shows "pool_past n (ls @ [l]) q"
  using assms
  by (auto simp: main_step_def pool_past_def pending_def execute_def dead_all
           split: pool_label.splits main_thread.splits if_splits)

lemma pool_past_worker:
  assumes past: "pool_past n ls p" and step: "worker_step l i p = Some q" and alive: "process_alive p" "worker_of l = Some i"
  shows "pool_past n (ls @ [l]) q"
proof -
  have i: "i < length (workers p)" using step by (simp add: worker_step_def split: if_splits)
  note upd = in_hand_update [OF i] dead_update [OF i]
  have no_panic: "main_thread p \<noteq> SendPanic c" for c using alive by (auto simp: process_alive_def)
  have l: "accepted (ls @ [l]) = accepted ls" using alive(2) by (auto simp: worker_of_def split: pool_label.splits)
  consider (lock) "workers p ! i = WaitLock" "q = p\<lparr>workers := (workers p)[i := WaitJob]\<rparr>"
    | (job) c cs where "workers p ! i = WaitJob" "channel p = c # cs"
        "q = p\<lparr>workers := (workers p)[i := Got c], channel := cs, started := started p @ [c]\<rparr>"
    | (announce) c out where "workers p ! i = Got c" "q = p\<lparr>workers := (workers p)[i := Running c], printed := out\<rparr>"
    | (panic) c where "workers p ! i = Running c" "handle_connection c = None"
        "q = p\<lparr>workers := (workers p)[i := Dead], finished := finished p @ [c]\<rparr>"
    | (answer) c r where "workers p ! i = Running c" "handle_connection c = Some r"
        "q = p\<lparr>workers := (workers p)[i := WaitLock], finished := finished p @ [c], responses := responses p @ [r]\<rparr>"
    using step i by (auto simp: worker_step_def split: pool_label.splits worker.splits if_splits list.splits option.splits)
  then show ?thesis
  proof cases
    case lock
    with past upd [of WaitJob] l no_panic show ?thesis by (simp add: pool_past_def)
  next
    case (job c cs)
    with past upd [of "Got c"] l no_panic show ?thesis by (simp add: pool_past_def)
  next
    case (announce c out)
    with past upd [of "Running c"] l no_panic show ?thesis by (simp add: pool_past_def)
  next
    case (panic c)
    with past upd [of Dead] l no_panic show ?thesis by (simp add: pool_past_def panics_def)
  next
    case (answer c r)
    with past upd [of WaitLock] l no_panic show ?thesis by (simp add: pool_past_def panics_def)
  qed
qed

lemma pool_past_step: "pool_past n ls p \<Longrightarrow> pool_step l p = Some (Inr q) \<Longrightarrow> pool_past n (ls @ [l]) q"
  by (auto simp: pool_step_def split: if_splits option.splits intro: pool_past_main pool_past_worker)

interpretation wpr: schedule pool_step "\<lambda>p. ThreadPool_new n = Some p" "pool_past n" for n
  by unfold_locales (simp_all add: pool_past_init pool_past_step)

lemma web_main_past: "web_main True = Some p0 \<Longrightarrow> sched pool_step ls p0 = Some (Inr p) \<Longrightarrow> pool_past 4 ls p"
  by (rule wpr.sched_past) (simp_all add: web_main_def)

text \<open>A worker can move while a job waits and one of them lives: the one with the mutex, one with a job, or one that takes the mutex.\<close>

lemma worker_moves:
  assumes "process_alive p" "channel p \<noteq> []" "dead (workers p) < length (workers p)"
  shows "\<exists>l. worker_of l \<noteq> None \<and> pool_step l p \<noteq> None"
proof -
  obtain c cs where ch: "channel p = c # cs" using assms(2) by (cases "channel p") simp_all
  have "\<not> list_all (\<lambda>w. w = Dead) (workers p)" using assms(3) by (simp add: dead_all)
  then obtain i where i: "i < length (workers p)" "workers p ! i \<noteq> Dead" by (auto simp: list_all_length)
  show ?thesis
  proof (cases "WaitJob \<in> set (workers p)")
    case True
    then obtain j where "j < length (workers p)" "workers p ! j = WaitJob" by (auto simp: in_set_conv_nth)
    with assms(1) ch show ?thesis
      by (intro exI [of _ "TakeJob j"]) (simp add: pool_step_def worker_of_def worker_step_def)
  next
    case False
    define l where "l = (case workers p ! i of WaitLock \<Rightarrow> TakeLock i | Got d \<Rightarrow> Announce i | _ \<Rightarrow> RunJob i)"
    have "workers p ! i \<noteq> WaitJob" using False i(1) by (metis nth_mem)
    with False i assms(1) show ?thesis
      by (intro exI [of _ l]) (auto simp: l_def pool_step_def worker_of_def worker_step_def split: worker.splits)
  qed
qed

text \<open>C14. In every interleaving of the main thread and the four workers, the connections are handed to workers in the order
  in which they were accepted and none is lost or handed out twice: those started, those in the channel and the one the main thread
  holds are those accepted, in order. A started connection is finished or in a worker's hand, the responses
  are those of the connections that finished without a panic, and the number of dead workers is the number of
  connections whose answer panicked.
\<close>

theorem thread_pool_jobs:
  assumes "web_main True = Some p0" "sched pool_step ls p0 = Some (Inr p)"
  shows "started p @ channel p @ pending (main_thread p) = accepted ls \<and>
         mset (started p) = mset (finished p) + mset (in_hand (workers p)) \<and>
         map Some (responses p) = map handle_connection (filter (\<lambda>c. \<not> panics c) (finished p)) \<and>
         dead (workers p) = length (filter panics (finished p))"
  using web_main_past [OF assms] by (simp_all add: pool_past_def)


text \<open>A peer that closes at once, and a schedule in which four of them meet the four workers before a fifth connection.\<close>

definition closing_peer :: connection where
  "closing_peer = \<lparr>received = [], read_ok = True, hello_html = Some ''hello'', not_found_html = Some ''error'', write_ok = True\<rparr>"

definition outage_schedule :: "pool_label list" where
  "outage_schedule =
     concat (map (\<lambda>i. [Connect closing_peer, Send, TakeLock i, TakeJob i, Announce i, RunJob i]) [0, 1, 2, 3]) @ [Connect closing_peer]"

definition web_start :: rust_pool where
  "web_start = the (web_main True)"

definition outage_state :: rust_pool where
  "outage_state = web_start\<lparr>workers := replicate 4 Dead, main_thread := Sending closing_peer,
     printed := concat (map (\<lambda>i. [''Connection established!'', ''Worker '' @ dec_string i @ '' got a job; executing.'']) [0, 1, 2, 3])
                @ [''Connection established!''],
     started := replicate 4 closing_peer, finished := replicate 4 closing_peer\<rparr>"

lemma web_start_main: "web_main True = Some web_start"
  by (simp add: web_start_def web_main_def ThreadPool_new_def)

lemma outage_run: "sched pool_step outage_schedule web_start = Some (Inr outage_state)"
  by code_simp

lemma closing_peer_panics: "panics closing_peer"
  by (simp add: panics_def handle_connection_def closing_peer_def next_line_def)

lemma outage_finished: "length (filter panics (finished outage_state)) = 4"
  by (simp add: outage_state_def closing_peer_panics)


text \<open>Two connections, the second answered first.\<close>

definition index_peer :: connection where
  "index_peer = closing_peer\<lparr>received := ''GET / HTTP/1.1'' @ crlf\<rparr>"

definition other_peer :: connection where
  "other_peer = closing_peer\<lparr>received := ''GET /x HTTP/1.1'' @ crlf\<rparr>"

definition overtaking_schedule :: "pool_label list" where
  "overtaking_schedule = [TakeLock 2, Connect index_peer, Send, Connect other_peer, TakeJob 2, Send, TakeLock 0, Announce 2,
     TakeJob 0, Announce 0, RunJob 0]"

definition overtaking_state :: rust_pool where
  "overtaking_state = web_start\<lparr>workers := [WaitLock, WaitLock, Running index_peer, WaitLock],
     printed := [''Connection established!'', ''Connection established!'', ''Worker 2 got a job; executing.'',
                 ''Worker 0 got a job; executing.''],
     started := [index_peer, other_peer], finished := [other_peer],
     responses := [http_response ''HTTP/1.1 404 NOT FOUND'' ''error'']\<rparr>"

lemma overtaking_run: "sched pool_step overtaking_schedule web_start = Some (Inr overtaking_state)"
  by code_simp

theorem thread_pool_jobs_witness:
  "sched pool_step overtaking_schedule web_start = Some (Inr overtaking_state) \<and>
   mset [index_peer, other_peer] = mset [other_peer] + mset (in_hand (workers overtaking_state)) \<and>
   dead (workers overtaking_state) = length (filter panics [other_peer])"
  using thread_pool_jobs [OF web_start_main overtaking_run] overtaking_run by (simp add: overtaking_state_def)

theorem web_response_roundtrip_witness:
  "\<exists>r. handle_connection index_peer = Some r \<and> read_response (r @ ''more'') = Some (''HTTP/1.1 200 OK'', ''hello'', ''more'')"
proof -
  have "ascii ''GET / HTTP/1.1''" by code_simp
  then show ?thesis
    using web_response_roundtrip [of index_peer "''GET / HTTP/1.1''" "[]" "''hello''" "''error''" "''more''"]
    by (simp add: index_peer_def closing_peer_def)
qed

end
