(* ===== verification/Rust_Channels.thy ===== *)
theory Rust_Channels
  imports C_Lib "HOL-Library.Sublist"
begin

text \<open>
  The examples of \<open>concurrency/rust/examples/example_project/src/main.rs\<close>: threads that send on a channel to the main
  thread, with an unbounded channel, with several senders and a timeout, and with a channel of capacity two, and the
  counter behind a mutex. A schedule interleaves the steps; sleeping only delays them and leaves no trace in the model.
\<close>

section \<open>Channels\<close>

text \<open>A sending thread is the list of the actions it still has to do.\<close>

datatype action = Show string | SendMsg string

text \<open>
  The receiver waits, with the number of messages it still wants when the loop counts, has a message to print, or has left the loop,
  after which the receiving end is dropped.
\<close>

datatype consumer = Receiving "nat option" | Printing string "nat option" | Left

record rust_channel =
  capacity :: "nat option"
  producers :: "action list list"
  buffer :: "(nat \<times> string) list"
  taken :: "(nat \<times> string) list"
  consumer :: consumer
  panicked :: "nat list"
  console :: "string list"

definition channel_start :: "string list \<Rightarrow> nat option \<Rightarrow> action list list \<Rightarrow> nat option \<Rightarrow> rust_channel" where
  "channel_start out cap progs count =
     \<lparr>capacity = cap, producers = progs, buffer = [], taken = [], consumer = Receiving count, panicked = [], console = out\<rparr>"

definition basic_channel :: rust_channel where
  "basic_channel =
     channel_start [''1. Basic Channel (mpsc):'', replicate 40 (CHR ''-'')] None
       [map SendMsg [''Hello'', ''from'', ''the'', ''spawned'', ''thread'']] None"

definition multiple_producers :: rust_channel where
  "multiple_producers =
     channel_start [''2. Multiple Producers:'', replicate 40 (CHR ''-'')] None
       [map SendMsg [''Producer 1: Message A'', ''Producer 1: Message B''],
        map SendMsg [''Producer 2: Message X'', ''Producer 2: Message Y''],
        map SendMsg [''Producer 3: Data 1'', ''Producer 3: Data 2'']] (Some 6)"

definition bounded_channel :: rust_channel where
  "bounded_channel =
     channel_start [''3. Bounded (synchronous) Channel:''] (Some 2)
       [concat (map (\<lambda>i. [Show (''Sending: '' @ dec_string i), SendMsg (dec_string i), Show (''Sent: '' @ dec_string i)]) [0..<5])] None"

datatype channel_label = Act nat | Recv | PrintTaken | Leave | Timeout

definition full :: "rust_channel \<Rightarrow> bool" where
  "full s = (case capacity s of None \<Rightarrow> False | Some k \<Rightarrow> k \<le> length (buffer s))"

text \<open>Sending blocks on a full channel, and panics the thread once the receiving end is dropped.\<close>

definition act :: "nat \<Rightarrow> rust_channel \<Rightarrow> rust_channel option" where
  "act i s =
     (if i < length (producers s) then
        (case producers s ! i of
           [] \<Rightarrow> None
         | Show m # as \<Rightarrow> Some (s\<lparr>producers := (producers s)[i := as], console := console s @ [m]\<rparr>)
         | SendMsg m # as \<Rightarrow>
             if consumer s = Left then Some (s\<lparr>producers := (producers s)[i := []], panicked := panicked s @ [i]\<rparr>)
             else if full s then None
             else Some (s\<lparr>producers := (producers s)[i := as], buffer := buffer s @ [(i, m)]\<rparr>))
      else None)"

definition leave :: "rust_channel \<Rightarrow> rust_channel" where
  "leave s = s\<lparr>consumer := Left, console := console s @ [[]]\<rparr>"

text \<open>A loop ends when its count is used up, when every sender is gone and the channel is empty, or by a timeout on an empty channel.\<close>

definition receive :: "channel_label \<Rightarrow> rust_channel \<Rightarrow> rust_channel option" where
  "receive l s =
     (case (l, consumer s) of
        (Recv, Receiving k) \<Rightarrow>
          (case buffer s of
             [] \<Rightarrow> None
           | (i, m) # b \<Rightarrow>
               if k = Some 0 then None
               else Some (s\<lparr>buffer := b, taken := taken s @ [(i, m)], consumer := Printing m (map_option (\<lambda>n. n - 1) k)\<rparr>))
      | (PrintTaken, Printing m k) \<Rightarrow> Some (s\<lparr>console := console s @ [''Received: '' @ m], consumer := Receiving k\<rparr>)
      | (Leave, Receiving k) \<Rightarrow>
          if k = Some 0 \<or> (buffer s = [] \<and> list_all (\<lambda>p. p = []) (producers s)) then Some (leave s) else None
      | (Timeout, Receiving k) \<Rightarrow> if k \<noteq> None \<and> k \<noteq> Some 0 \<and> buffer s = [] then Some (leave s) else None
      | _ \<Rightarrow> None)"

definition channel_step :: "channel_label \<Rightarrow> rust_channel \<Rightarrow> rust_channel cexec option" where
  "channel_step l s = map_option Inr (case l of Act i \<Rightarrow> act i s | _ \<Rightarrow> receive l s)"

section \<open>Counter behind a mutex\<close>

text \<open>A thread waits for the mutex, holds it, has added one, or has ended and released it.\<close>

datatype adder = WaitMutex | Holds | Added | Ended

record mutex_state =
  adders :: "adder list"
  counter :: int
  result :: "string option"

definition mutex_example :: mutex_state where
  "mutex_example = \<lparr>adders = replicate 10 WaitMutex, counter = 0, result = None\<rparr>"

datatype mutex_label = Lock nat | Add nat | Unlock nat | PrintResult

definition mutex_step :: "mutex_label \<Rightarrow> mutex_state \<Rightarrow> mutex_state cexec option" where
  "mutex_step l s =
     (let at = (\<lambda>i a. i < length (adders s) \<and> adders s ! i = a);
          free = (Holds \<notin> set (adders s) \<and> Added \<notin> set (adders s))
      in case l of
           Lock i \<Rightarrow> if at i WaitMutex \<and> free then Some (Inr (s\<lparr>adders := (adders s)[i := Holds]\<rparr>)) else None
         | Add i \<Rightarrow> if at i Holds then Some (Inr (s\<lparr>adders := (adders s)[i := Added], counter := counter s + 1\<rparr>)) else None
         | Unlock i \<Rightarrow> if at i Added then Some (Inr (s\<lparr>adders := (adders s)[i := Ended]\<rparr>)) else None
         | PrintResult \<Rightarrow>
             if list_all (\<lambda>a. a = Ended) (adders s) \<and> result s = None
             then Some (Inr (s\<lparr>result := Some (''Result: '' @ show_int (counter s))\<rparr>)) else None)"

section \<open>Delivery\<close>

definition messages :: "action list \<Rightarrow> string list" where
  "messages as = concat (map (\<lambda>a. case a of SendMsg m \<Rightarrow> [m] | Show _ \<Rightarrow> []) as)"

definition sent_by :: "nat \<Rightarrow> (nat \<times> string) list \<Rightarrow> string list" where
  "sent_by i b = map snd (filter (\<lambda>x. fst x = i) b)"

lemma messages_simps [simp]:
  "messages [] = []" "messages (Show m # as) = messages as" "messages (SendMsg m # as) = m # messages as"
  by (simp_all add: messages_def)

lemma sent_by_simps [simp]:
  "sent_by i [] = []" "sent_by i (b @ c) = sent_by i b @ sent_by i c"
  "sent_by i (x # b) = (if fst x = i then snd x # sent_by i b else sent_by i b)"
  by (simp_all add: sent_by_def)

text \<open>The number of steps that are left: a message is sent, taken and printed.\<close>

definition action_steps :: "action \<Rightarrow> nat" where
  "action_steps a = (case a of Show _ \<Rightarrow> 1 | SendMsg _ \<Rightarrow> 3)"

definition steps_left :: "rust_channel \<Rightarrow> nat" where
  "steps_left s =
     sum_list (map (\<lambda>p. sum_list (map action_steps p)) (producers s)) + 2 * length (buffer s) +
     (case consumer s of Receiving _ \<Rightarrow> 1 | Printing _ _ \<Rightarrow> 2 | Left \<Rightarrow> 0)"

definition uncounted :: "consumer \<Rightarrow> bool" where
  "uncounted c = (case c of Receiving k \<Rightarrow> k = None | Printing _ k \<Rightarrow> k = None | Left \<Rightarrow> True)"

text \<open>What holds of a loop that does not count, after a schedule, for the threads' programs \<open>progs\<close>.\<close>

definition channel_past :: "nat option \<Rightarrow> action list list \<Rightarrow> channel_label list \<Rightarrow> rust_channel \<Rightarrow> bool" where
  "channel_past cap progs ls s \<longleftrightarrow>
     capacity s = cap \<and> (\<forall>k. cap = Some k \<longrightarrow> length (buffer s) \<le> k) \<and>
     length (producers s) = length progs \<and>
     (\<forall>i<length progs. sent_by i (taken s @ buffer s) @ messages (producers s ! i) = messages (progs ! i)) \<and>
     uncounted (consumer s) \<and> panicked s = [] \<and>
     (consumer s = Left \<longrightarrow> buffer s = [] \<and> list_all (\<lambda>p. p = []) (producers s)) \<and>
     steps_left s + length ls = sum_list (map (\<lambda>p. sum_list (map action_steps p)) progs) + 1"

lemma sum_update:
  "i < length ps \<Longrightarrow> sum_list (map f (ps[i := q])) + f (ps ! i) = sum_list (map f ps) + (f q :: nat)"
proof (induction ps arbitrary: i)
  case (Cons p ps)
  then show ?case by (cases i) simp_all
qed simp

lemma channel_past_act:
  assumes past: "channel_past cap progs ls s" and step: "act i s = Some t"
  shows "channel_past cap progs (ls @ [Act i]) t"
proof -
  have i: "i < length (producers s)" using step by (simp add: act_def split: if_splits)
  have live: "consumer s \<noteq> Left"
    using past step i by (auto simp: channel_past_def act_def list_all_length)
  note upd = sum_update [OF i, of "\<lambda>p. sum_list (map action_steps p)"]
  consider (say) m as where "producers s ! i = Show m # as"
        "t = s\<lparr>producers := (producers s)[i := as], console := console s @ [m]\<rparr>"
    | (send) m as where "producers s ! i = SendMsg m # as" "\<not> full s"
        "t = s\<lparr>producers := (producers s)[i := as], buffer := buffer s @ [(i, m)]\<rparr>"
    using step live i by (auto simp: act_def split: list.splits action.splits if_splits)
  then show ?thesis
  proof cases
    case (say m as)
    with past upd [of as] i live show ?thesis
      by (auto simp: channel_past_def steps_left_def action_steps_def nth_list_update)
  next
    case (send m as)
    with past upd [of as] i live show ?thesis
      by (auto simp: channel_past_def steps_left_def action_steps_def nth_list_update full_def split: option.splits)
  qed
qed

lemma channel_past_receive:
  assumes past: "channel_past cap progs ls s" and step: "receive l s = Some t"
  shows "channel_past cap progs (ls @ [l]) t"
proof -
  consider (recv) i m b where "consumer s = Receiving None" "buffer s = (i, m) # b"
        "t = s\<lparr>buffer := b, taken := taken s @ [(i, m)], consumer := Printing m None\<rparr>"
    | (print) m where "consumer s = Printing m None"
        "t = s\<lparr>console := console s @ [''Received: '' @ m], consumer := Receiving None\<rparr>"
    | (leave) "consumer s = Receiving None" "buffer s = []" "list_all (\<lambda>p. p = []) (producers s)" "t = leave s"
    using past step
    by (auto simp: channel_past_def receive_def uncounted_def split: channel_label.splits consumer.splits list.splits if_splits)
  then show ?thesis
    by cases (use past in \<open>auto simp: channel_past_def steps_left_def uncounted_def leave_def Suc_le_eq\<close>)
qed

lemma channel_past_step:
  "channel_past cap progs ls s \<Longrightarrow> channel_step l s = Some (Inr t) \<Longrightarrow> channel_past cap progs (ls @ [l]) t"
  by (cases l) (auto simp: channel_step_def intro: channel_past_act channel_past_receive)

interpretation rch: schedule channel_step "\<lambda>s. s = channel_start out cap progs None" "channel_past cap progs"
  for out cap progs
  by unfold_locales
    (simp_all add: channel_past_step, simp add: channel_past_def channel_start_def steps_left_def uncounted_def)

text \<open>While the receiver is in its loop, some thread can move, unless the channel has no room at all.\<close>

lemma channel_moves:
  assumes "uncounted (consumer s)" "consumer s \<noteq> Left" "capacity s \<noteq> Some 0"
  shows "\<exists>l. channel_step l s \<noteq> None"
proof (cases "consumer s")
  case (Receiving k)
  then have k: "k = None" using assms(1) by (simp add: uncounted_def)
  show ?thesis
  proof (cases "buffer s")
    case (Cons x b)
    with Receiving k show ?thesis
      by (intro exI [of _ Recv]) (simp add: channel_step_def receive_def split: prod.splits)
  next
    case Nil
    show ?thesis
    proof (cases "list_all (\<lambda>p. p = []) (producers s)")
      case True
      with Nil Receiving k show ?thesis by (intro exI [of _ Leave]) (simp add: channel_step_def receive_def)
    next
      case False
      then obtain i where "i < length (producers s)" "producers s ! i \<noteq> []" by (auto simp: list_all_length)
      with Nil assms(2,3) show ?thesis
        by (intro exI [of _ "Act i"])
          (auto simp: channel_step_def act_def full_def split: list.splits action.splits option.splits)
    qed
  qed
next
  case (Printing m k)
  then show ?thesis by (intro exI [of _ PrintTaken]) (simp add: channel_step_def receive_def)
qed (use assms(2) in simp)


text \<open>Two numbers fill the channel, the third waits until one is taken.\<close>

definition full_schedule :: "channel_label list" where
  "full_schedule = replicate 7 (Act 0) @ [Recv, Act 0, PrintTaken]"

definition full_state :: rust_channel where
  "full_state = the (case the (sched channel_step full_schedule bounded_channel) of Inr s \<Rightarrow> Some s | Inl _ \<Rightarrow> None)"

lemma full_run: "sched channel_step full_schedule bounded_channel = Some (Inr full_state)"
  by code_simp


text \<open>
  With a count and a timeout the loop may leave messages behind, and a thread that sends after it panics; what is taken is still
  in the order of each thread, and at most as much as the count.
\<close>

definition counted_past :: "nat \<Rightarrow> action list list \<Rightarrow> channel_label list \<Rightarrow> rust_channel \<Rightarrow> bool" where
  "counted_past n progs ls s \<longleftrightarrow>
     length (producers s) = length progs \<and>
     (\<forall>i<length progs. prefix (sent_by i (taken s @ buffer s) @ messages (producers s ! i)) (messages (progs ! i))) \<and>
     (case consumer s of
        Receiving k \<Rightarrow> \<exists>j. k = Some j \<and> length (taken s) + j = n
      | Printing _ k \<Rightarrow> \<exists>j. k = Some j \<and> length (taken s) + j = n
      | Left \<Rightarrow> length (taken s) \<le> n)"

lemma counted_past_act:
  assumes past: "counted_past n progs ls s" and step: "act i s = Some t"
  shows "counted_past n progs (ls @ [Act i]) t"
proof -
  have i: "i < length (producers s)" using step by (simp add: act_def split: if_splits)
  from past have own: "prefix (sent_by i (taken s @ buffer s) @ messages (producers s ! i)) (messages (progs ! i))"
    using i by (simp add: counted_past_def)
  have keep: "consumer t = consumer s" "taken t = taken s" "length (producers t) = length (producers s)"
    and "\<And>j. j \<noteq> i \<Longrightarrow> producers t ! j = producers s ! j \<and> sent_by j (buffer t) = sent_by j (buffer s)"
    using step i by (auto simp: act_def split: list.splits action.splits if_splits)
  moreover have "prefix (sent_by i (taken t @ buffer t) @ messages (producers t ! i)) (messages (progs ! i))"
    using step i own by (auto simp: act_def split: list.splits action.splits if_splits intro: append_prefixD)
  ultimately show ?thesis
    using past unfolding counted_past_def by (metis sent_by_simps(2))
qed

lemma counted_past_receive:
  assumes past: "counted_past n progs ls s" and step: "receive l s = Some t"
  shows "counted_past n progs (ls @ [l]) t"
  using past step
  by (auto simp: counted_past_def receive_def leave_def
           split: channel_label.splits consumer.splits list.splits if_splits) blast

interpretation rcc: schedule channel_step "\<lambda>s. s = channel_start out cap progs (Some n)" "counted_past n progs"
  for out cap progs n
proof unfold_locales
  show "counted_past n progs [] s" if "s = channel_start out cap progs (Some n)" for s
    using that by (simp add: counted_past_def channel_start_def)
  show "counted_past n progs (ls @ [l]) t" if "counted_past n progs ls s" "channel_step l s = Some (Inr t)" for ls l s t
    using that by (cases l) (auto simp: channel_step_def intro: counted_past_act counted_past_receive)
qed

lemma counted_channel_order:
  assumes "sched channel_step ls (channel_start out cap progs (Some n)) = Some (Inr s)" "i < length progs"
  shows "prefix (sent_by i (taken s)) (messages (progs ! i)) \<and> length (taken s) \<le> n"
proof -
  have past: "counted_past n progs ls s" by (rule rcc.sched_past [OF refl assms(1)])
  then have "length (taken s) \<le> n" by (auto simp: counted_past_def split: consumer.splits)
  moreover have "prefix (sent_by i (taken s)) (messages (progs ! i))"
    using past assms(2) by (auto simp: counted_past_def intro: append_prefixD)
  ultimately show ?thesis by simp
qed

section \<open>The counter\<close>

definition mutex_past :: "mutex_label list \<Rightarrow> mutex_state \<Rightarrow> bool" where
  "mutex_past ls s \<longleftrightarrow>
     length (adders s) = 10 \<and>
     counter s = int (length (filter (\<lambda>a. a = Added \<or> a = Ended) (adders s))) \<and>
     length (filter (\<lambda>a. a = Holds \<or> a = Added) (adders s)) \<le> 1 \<and>
     (result s = None \<or> result s = Some ''Result: 10'')"

lemma count_update:
  "i < length xs \<Longrightarrow>
   length (filter P (xs[i := y])) + (if P (xs ! i) then 1 else 0) = length (filter P xs) + (if P y then 1 else 0)"
proof (induction xs arbitrary: i)
  case (Cons x xs)
  show ?case
  proof (cases i)
    case (Suc j)
    with Cons.IH [of j] Cons.prems show ?thesis by (auto split: if_splits)
  qed simp
qed simp

lemma mutex_past_step:
  assumes past: "mutex_past ls s" and step: "mutex_step l s = Some (Inr t)"
  shows "mutex_past (ls @ [l]) t"
proof (cases "l = PrintResult")
  case True
  have "filter (\<lambda>a. a = Added \<or> a = Ended) (adders s) = adders s" if "list_all (\<lambda>a. a = Ended) (adders s)"
    using that by (auto simp: list_all_iff intro: filter_True)
  moreover have "''Result: '' @ show_int 10 = ''Result: 10''" by code_simp
  ultimately show ?thesis using past step True by (auto simp: mutex_past_def mutex_step_def split: if_splits)
next
  case False
  then obtain i a b where i: "i < length (adders s)" "adders s ! i = a" "adders t = (adders s)[i := b]" "result t = result s"
    and ab: "(a, b, counter t - counter s) \<in> {(WaitMutex, Holds, 0), (Holds, Added, 1), (Added, Ended, 0)}"
      "a = WaitMutex \<Longrightarrow> Holds \<notin> set (adders s) \<and> Added \<notin> set (adders s)"
    using step by (auto simp: mutex_step_def Let_def split: mutex_label.splits if_splits) blast
  have none: "filter (\<lambda>a. a = Holds \<or> a = Added) (adders s) = []" if "a = WaitMutex"
    using ab(2) [OF that] by (auto simp: filter_empty_conv)
  show ?thesis
    using past ab none i count_update [OF i(1), of "\<lambda>a. a = Added \<or> a = Ended" b]
      count_update [OF i(1), of "\<lambda>a. a = Holds \<or> a = Added" b]
    by (auto simp: mutex_past_def)
qed

interpretation rmx: schedule mutex_step "\<lambda>s. s = mutex_example" mutex_past
proof unfold_locales
  show "mutex_past [] s" if "s = mutex_example" for s
    using that by (simp add: mutex_past_def mutex_example_def)
qed (rule mutex_past_step)

text \<open>Whatever the order of the ten threads, the mutex excludes and the result that is printed is ten.\<close>

lemma mutex_result:
  assumes "sched mutex_step ls mutex_example = Some (Inr s)"
  shows "length (filter (\<lambda>a. a = Holds \<or> a = Added) (adders s)) \<le> 1 \<and> (result s = None \<or> result s = Some ''Result: 10'')"
  using rmx.sched_past [OF refl assms] by (simp add: mutex_past_def)

end
