(* ===== verification/Dscp_Filter.thy ===== *)
theory Dscp_Filter
  imports Rust_Lib
begin

unbundle bit_operations_syntax

text \<open>
  The Envoy dynamic module of \<open>proxy/envoy/dynamic_modules/dscp_filter/src/dscp_filter.rs\<close>: its configuration, and the
  header callbacks that turn an \<open>x-dscp\<close> header into a socket option. The proxy is a parameter: the value it returns for the header
  and the result \<open>opt\<close> of setting a socket option. A line that is printed is an event with the data it shows; the rendering of bytes
  that are not UTF-8 is left out.
\<close>

section \<open>Configuration\<close>

record FilterConfig = filter_config :: "nat list"

record Filter =
  request_dscp_value :: "string option"
  response_dscp_value :: "string option"

text \<open>\<open>None\<close> is the panic on a configuration that is not UTF-8.\<close>

definition new_http_filter_config_fn :: "string \<Rightarrow> FilterConfig option" where
  "new_http_filter_config_fn config = map_option (\<lambda>s. \<lparr>filter_config = s\<rparr>) (from_utf8 config)"

definition new_http_filter :: "FilterConfig \<Rightarrow> Filter" where
  "new_http_filter config = \<lparr>request_dscp_value = None, response_dscp_value = None\<rparr>"

section \<open>Socket option\<close>

type_synonym i64 = "64 word"

definition IPPROTO_IP :: i64 where "IPPROTO_IP = 0"
definition IP_TOS :: i64 where "IP_TOS = 1"

datatype option_state = Prebind | Bound
datatype direction = Upstream | Downstream

datatype dscp_event =
    SetOption i64 i64 option_state direction i64
  | OptionSet string i64 u8
  | OptionFailed string
  | OutOfRange string u8
  | ParseFailed string "nat list"
  | RequestHeader string
  | NoRequestHeader
  | ResponseHeader string
  | NoResponseHeader string

type_synonym set_option = "i64 \<Rightarrow> i64 \<Rightarrow> option_state \<Rightarrow> direction \<Rightarrow> i64 \<Rightarrow> bool"

definition set_dscp_socket_option ::
  "set_option \<Rightarrow> string \<Rightarrow> option_state \<Rightarrow> direction \<Rightarrow> string \<Rightarrow> dscp_event list \<Rightarrow> bool \<times> dscp_event list" where
  "set_dscp_socket_option opt dscp_bytes st dir label t =
     (case from_utf8 dscp_bytes of
        None \<Rightarrow> (False, t)
      | Some dscp_str \<Rightarrow>
          (case parse_u8 (str_trim dscp_str) of
             None \<Rightarrow> (False, t @ [ParseFailed label dscp_str])
           | Some dscp_num \<Rightarrow>
               if dscp_num \<le> 63 then
                 let tos_value = push_bit 2 (ucast dscp_num :: i64);
                     t1 = t @ [SetOption IPPROTO_IP IP_TOS st dir tos_value]
                 in if opt IPPROTO_IP IP_TOS st dir tos_value
                    then (True, t1 @ [OptionSet label tos_value dscp_num])
                    else (False, t1 @ [OptionFailed label])
               else (False, t @ [OutOfRange label dscp_num])))"

section \<open>Callbacks\<close>

datatype headers_status = ContinueHeaders

definition on_request_headers ::
  "set_option \<Rightarrow> string option \<Rightarrow> Filter \<Rightarrow> dscp_event list \<Rightarrow> headers_status \<times> Filter \<times> dscp_event list" where
  "on_request_headers opt header f t =
     (case header of
        Some dscp_bytes \<Rightarrow>
          let t1 = t @ [RequestHeader dscp_bytes];
              (_, t2) = set_dscp_socket_option opt dscp_bytes Prebind Upstream ''Upstream'' t1
          in (ContinueHeaders, f\<lparr>request_dscp_value := Some dscp_bytes\<rparr>, t2)
      | None \<Rightarrow> (ContinueHeaders, f\<lparr>request_dscp_value := None\<rparr>, t @ [NoRequestHeader]))"

definition on_response_headers ::
  "set_option \<Rightarrow> string option \<Rightarrow> Filter \<Rightarrow> dscp_event list \<Rightarrow> headers_status \<times> Filter \<times> dscp_event list" where
  "on_response_headers opt header f t =
     (case header of
        Some dscp_bytes \<Rightarrow>
          let t1 = t @ [ResponseHeader dscp_bytes];
              (_, t2) = set_dscp_socket_option opt dscp_bytes Bound Downstream ''Downstream'' t1
          in (ContinueHeaders, f\<lparr>response_dscp_value := Some dscp_bytes\<rparr>, t2)
      | None \<Rightarrow>
          (ContinueHeaders, f,
           case request_dscp_value f of Some req_dscp \<Rightarrow> t @ [NoResponseHeader req_dscp] | None \<Rightarrow> t))"

section \<open>Properties\<close>

text \<open>The socket options a trace sets.\<close>

definition options_set :: "dscp_event list \<Rightarrow> (i64 \<times> i64 \<times> option_state \<times> direction \<times> i64) list" where
  "options_set t = concat (map (\<lambda>e. case e of SetOption l n s d v \<Rightarrow> [(l, n, s, d, v)] | _ \<Rightarrow> []) t)"

lemma options_set_simps [simp]:
  "options_set [] = []"
  "options_set (t @ u) = options_set t @ options_set u"
  "options_set (e # t) = (case e of SetOption l n s d v \<Rightarrow> (l, n, s, d, v) # options_set t | _ \<Rightarrow> options_set t)"
  by (simp_all add: options_set_def split: dscp_event.split)

lemma tos_value:
  assumes "(b :: u8) \<le> 63"
  shows "push_bit 2 (ucast b :: i64) = of_nat (4 * unat b)" "unat b \<le> 63"
proof -
  show le: "unat b \<le> 63" using assms by (simp add: word_le_nat_alt)
  show "push_bit 2 (ucast b :: i64) = of_nat (4 * unat b)"
    by (simp add: push_bit_eq_mult of_nat_unat)
qed

lemma sint_tos: "n \<le> 63 \<Longrightarrow> sint (of_nat (4 * n) :: i64) = 4 * int n"
  using signed_take_bit_int_eq_self [of 63 "4 * int n"] by (simp only: signed_of_nat) simp

text \<open>The value a header stands for.\<close>

definition header_dscp :: "string \<Rightarrow> nat option" where
  "header_dscp s =
     (case from_utf8 s of None \<Rightarrow> None | Some x \<Rightarrow>
        (case parse_u8 (str_trim x) of None \<Rightarrow> None | Some b \<Rightarrow> if b \<le> 63 then Some (unat b) else None))"

lemma header_dscp_le: "header_dscp s = Some n \<Longrightarrow> n \<le> 63"
  by (auto simp: header_dscp_def tos_value split: option.splits if_splits)

lemma header_dscp_dec_string: "n \<le> 63 \<Longrightarrow> header_dscp (dec_string n) = Some n"
proof -
  assume n: "n \<le> 63"
  have "from_utf8 (dec_string n) = Some (map byte (dec_string n))" by (simp add: from_utf8_ascii)
  moreover have "parse_u8 (str_trim (map byte (dec_string n))) = Some (of_nat n)"
    using str_trim_dec_string [of "[]" "[]" n] n by (simp add: parse_u8_dec_string)
  moreover have "unat (of_nat n :: u8) = n" using n by (simp add: unsigned_of_nat take_bit_nat_eq_self)
  ultimately show ?thesis using n by (simp add: header_dscp_def word_le_nat_alt)
qed

lemma set_dscp_options:
  "options_set (snd (set_dscp_socket_option opt s st dir label t)) =
     options_set t @ (case header_dscp s of None \<Rightarrow> [] | Some n \<Rightarrow> [(IPPROTO_IP, IP_TOS, st, dir, of_nat (4 * n))])"
  by (simp add: set_dscp_socket_option_def header_dscp_def tos_value(1) Let_def split: option.split)

text \<open>A stream is a sequence of header callbacks; the results of setting options may differ from call to call.\<close>

datatype header_callback = OnRequest set_option "string option" | OnResponse set_option "string option"

fun filter_run :: "header_callback list \<Rightarrow> Filter \<times> dscp_event list \<Rightarrow> Filter \<times> dscp_event list" where
  "filter_run [] s = s"
| "filter_run (OnRequest opt h # cs) (f, t) = filter_run cs (snd (on_request_headers opt h f t))"
| "filter_run (OnResponse opt h # cs) (f, t) = filter_run cs (snd (on_response_headers opt h f t))"

definition option_wanted :: "header_callback \<Rightarrow> (i64 \<times> i64 \<times> option_state \<times> direction \<times> i64) list" where
  "option_wanted cb =
     (let (h, st, dir) = (case cb of OnRequest _ h \<Rightarrow> (h, Prebind, Upstream) | OnResponse _ h \<Rightarrow> (h, Bound, Downstream))
      in case Option.bind h header_dscp of None \<Rightarrow> [] | Some n \<Rightarrow> [(0, 1, st, dir, of_nat (4 * n))])"

lemma set_dscp_options_eq:
  "set_dscp_socket_option opt s st dir label t = (r, u) \<Longrightarrow>
   options_set u = options_set t @ (case header_dscp s of None \<Rightarrow> [] | Some n \<Rightarrow> [(0, 1, st, dir, of_nat (4 * n))])"
  using set_dscp_options [of opt s st dir label t] by (simp add: IPPROTO_IP_def IP_TOS_def split: option.split)

lemma on_request_options:
  "options_set (snd (snd (on_request_headers opt h f t))) = options_set t @ option_wanted (OnRequest opt h)"
  by (auto simp: on_request_headers_def option_wanted_def Let_def dest: set_dscp_options_eq split: option.split prod.split)

lemma on_response_options:
  "options_set (snd (snd (on_response_headers opt h f t))) = options_set t @ option_wanted (OnResponse opt h)"
  by (auto simp: on_response_headers_def option_wanted_def Let_def dest: set_dscp_options_eq split: option.split prod.split)

lemma filter_run_options:
  "options_set (snd (filter_run cs s)) = options_set (snd s) @ concat (map option_wanted cs)"
proof (induction cs s rule: filter_run.induct)
  case (2 opt h cs f t)
  then show ?case using on_request_options [of opt h f t] by simp
next
  case (3 opt h cs f t)
  then show ?case using on_response_options [of opt h f t] by simp
qed simp

lemma header_dscp_tos:
  "header_dscp s = Some n \<Longrightarrow>
   0 \<le> sint (of_nat (4 * n) :: i64) \<and> sint (of_nat (4 * n) :: i64) \<le> 252 \<and> 4 dvd sint (of_nat (4 * n) :: i64)"
  using header_dscp_le [of s n] sint_tos [of n] by (simp del: of_nat_mult)

lemma option_wanted_bounds:
  "(l, n, st, dir, v) \<in> set (option_wanted cb) \<Longrightarrow>
   l = 0 \<and> n = 1 \<and> (st = Prebind \<longleftrightarrow> dir = Upstream) \<and> 0 \<le> sint v \<and> sint v \<le> 252 \<and> 4 dvd sint v"
  by (auto simp: option_wanted_def Let_def bind_eq_Some_conv eq_commute [of "Some _"] simp del: of_nat_mult dest: header_dscp_tos
           split: header_callback.splits option.splits)

text \<open>C16. Whatever headers a stream carries and whatever the proxy answers, the filter sets one option for each header that stands for a
  value of at most 63 and none otherwise: the type of service of the IP level, before binding and upstream for a request, on
  the bound downstream socket for a response, with a value between 0 and 252 whose two congestion bits are zero.
\<close>

theorem dscp_filter_options:
  "options_set (snd (filter_run cs (new_http_filter cfg, []))) = concat (map option_wanted cs) \<and>
   list_all (\<lambda>(l, n, st, dir, v). l = 0 \<and> n = 1 \<and> (st = Prebind \<longleftrightarrow> dir = Upstream) \<and>
                                  0 \<le> sint v \<and> sint v \<le> 252 \<and> 4 dvd sint v)
     (options_set (snd (filter_run cs (new_http_filter cfg, []))))"
  by (auto simp: filter_run_options list_all_iff dest: option_wanted_bounds)

text \<open>A header that is the decimal text of a number below 256, with white space on either side, is understood: up to 63 the
  option is set to four times the number and the result is the proxy's answer, from 64 on nothing is set and the value
  is reported as out of range.
\<close>

theorem dscp_header_roundtrip:
  assumes "n < 256" "ascii v" "ascii w" "list_all is_whitespace (map byte v)" "list_all is_whitespace (map byte w)"
  shows "set_dscp_socket_option opt (v @ dec_string n @ w) st dir label t =
           (if n \<le> 63 then
              (opt 0 1 st dir (of_nat (4 * n)),
               t @ [SetOption 0 1 st dir (of_nat (4 * n)),
                    if opt 0 1 st dir (of_nat (4 * n)) then OptionSet label (of_nat (4 * n)) (of_nat n) else OptionFailed label])
            else (False, t @ [OutOfRange label (of_nat n)]))"
proof -
  have "from_utf8 (v @ dec_string n @ w) = Some (map byte v @ map byte (dec_string n) @ map byte w)"
    using assms(2,3) dec_string_ascii [of n] by (subst from_utf8_ascii) (simp_all add: ascii_def)
  moreover have "parse_u8 (str_trim (map byte v @ map byte (dec_string n) @ map byte w)) = Some (of_nat n)"
    using assms by (simp add: str_trim_dec_string parse_u8_dec_string)
  moreover have u: "unat (of_nat n :: u8) = n" using assms(1) by (simp add: unsigned_of_nat take_bit_nat_eq_self)
  moreover have "(of_nat n :: u8) \<le> 63 \<longleftrightarrow> n \<le> 63" by (simp add: word_le_nat_alt u)
  ultimately show ?thesis
    using tos_value(1) [of "of_nat n"]
    by (simp add: set_dscp_socket_option_def Let_def IPPROTO_IP_def IP_TOS_def)
qed

theorem dscp_header_roundtrip_witness:
  "set_dscp_socket_option (\<lambda>_ _ _ _ _. True) '' 46'' Prebind Upstream ''Upstream'' [] =
     (True, [SetOption 0 1 Prebind Upstream 184, OptionSet ''Upstream'' 184 46])"
proof -
  have d: "dec_string 46 = ''46''" and "ascii '' ''" "list_all is_whitespace (map byte '' '')" by code_simp+
  then show ?thesis
    using dscp_header_roundtrip [of 46 "'' ''" "[]" "\<lambda>_ _ _ _ _. True" Prebind Upstream "''Upstream''" "[]"]
    by (simp add: ascii_def)
qed

end
