(* ===== verification/Petstore.thy ===== *)
theory Petstore
  imports C_Lib "HOL-Library.Multiset"
begin

text \<open>
  The pet store of \<open>k8s/example-pod\<close> (\<open>main.go\<close>, \<open>handlers.go\<close>): its sample data and all its handlers. Every
  handler holds the store's lock from its first to its last line, so that a handler is one step. Identifiers are pointers in the source, and
  two of them may be the address of a counter of the store: they are addresses of an explicit heap. No other pointer is
  shared, so the other optional fields are options of their values. The framework is a parameter: what \<open>Bind\<close>, \<open>FormValue\<close>,
  \<open>FormFile\<close> and the parameters of the path deliver, and the clock. The types are those of \<open>openapi/api-spec.yaml\<close>.
\<close>

section \<open>Data\<close>

type_synonym int64 = "64 word"
type_synonym int32 = "32 word"
type_synonym ptr = nat

record category = category_id :: "int64 option"
  category_name :: "string option"

record tag = tag_id :: "int64 option"
  tag_name :: "string option"

text \<open>A pet and an order have their identifiers by address in the store and by value in a request or a reply.\<close>

record 'i pet =
  pet_id :: "'i option"
  pet_name :: string
  pet_category :: "category option"
  photo_urls :: "string list"
  pet_status :: "string option"
  pet_tags :: "tag list option"

record 'i store_order =
  order_id :: "'i option"
  order_pet :: "int64 option"
  order_quantity :: "int32 option"
  ship_date :: "string option"
  order_status :: "string option"
  complete :: "bool option"

record user =
  user_id :: "int64 option"
  username :: "string option"
  first_name :: "string option"
  last_name :: "string option"
  email :: "string option"
  password :: "string option"
  phone :: "string option"
  user_status :: "int32 option"

record petstore =
  heap :: "int64 list"
  pets :: "int64 \<Rightarrow> ptr pet option"
  users :: "string \<Rightarrow> user option"
  orders :: "int64 \<Rightarrow> ptr store_order option"

text \<open>The two counters are the first cells of the heap.\<close>

definition nextPetID :: ptr where "nextPetID = 0"
definition nextOrderID :: ptr where "nextOrderID = 1"

definition deref :: "petstore \<Rightarrow> ptr \<Rightarrow> int64" where
  "deref s p = heap s ! p"

definition set_cell :: "ptr \<Rightarrow> int64 \<Rightarrow> petstore \<Rightarrow> petstore" where
  "set_cell p v s = s\<lparr>heap := (heap s)[p := v]\<rparr>"

text \<open>An optional identifier that arrives by value gets a cell of its own.\<close>

definition new_id :: "int64 option \<Rightarrow> petstore \<Rightarrow> ptr option \<times> petstore" where
  "new_id i s = (case i of None \<Rightarrow> (None, s) | Some v \<Rightarrow> (Some (length (heap s)), s\<lparr>heap := heap s @ [v]\<rparr>))"

definition with_pet_id :: "'j option \<Rightarrow> 'i pet \<Rightarrow> 'j pet" where
  "with_pet_id i p = \<lparr>pet_id = i, pet_name = pet_name p, pet_category = pet_category p, photo_urls = photo_urls p,
     pet_status = pet_status p, pet_tags = pet_tags p\<rparr>"

definition with_order_id :: "'j option \<Rightarrow> 'i store_order \<Rightarrow> 'j store_order" where
  "with_order_id i x = \<lparr>order_id = i, order_pet = order_pet x, order_quantity = order_quantity x, ship_date = ship_date x,
     order_status = order_status x, complete = complete x\<rparr>"

text \<open>What is written to a reply: the identifier is read through its address at that moment.\<close>

definition show_pet :: "petstore \<Rightarrow> ptr pet \<Rightarrow> int64 pet" where
  "show_pet s p = with_pet_id (map_option (deref s) (pet_id p)) p"

definition show_order :: "petstore \<Rightarrow> ptr store_order \<Rightarrow> int64 store_order" where
  "show_order s x = with_order_id (map_option (deref s) (order_id x)) x"

section \<open>Replies\<close>

datatype body =
    NoBody
  | PetBody "int64 pet"
  | PetsBody "int64 pet list"
  | NullBody
  | OrderBody "int64 store_order"
  | UserBody user
  | InventoryBody "string \<Rightarrow> int32 option"
  | UploadBody nat string string
  | TextBody string

datatype http_reply = Reply nat "(string \<times> string) list" body | HTTPError nat string

text \<open>A slice to which nothing was appended is written as null.\<close>

definition pets_body :: "int64 pet list \<Rightarrow> body" where
  "pets_body ps = (if ps = [] then NullBody else PetsBody ps)"

section \<open>Sample data\<close>

definition add_sample_pet :: "int64 \<Rightarrow> ptr pet \<Rightarrow> petstore \<Rightarrow> petstore" where
  "add_sample_pet i p s =
     (let (q, s1) = new_id (Some i) s;
          s2 = s1\<lparr>pets := (pets s1)(i := Some (with_pet_id q p))\<rparr>
      in if deref s2 nextPetID \<le>s i then set_cell nextPetID (i + 1) s2 else s2)"

definition sample_pet :: "int64 \<Rightarrow> string \<Rightarrow> string \<Rightarrow> string \<Rightarrow> string \<Rightarrow> string \<Rightarrow> ptr pet" where
  "sample_pet i name cat url status tag =
     \<lparr>pet_id = None, pet_name = name, pet_category = Some \<lparr>category_id = Some i, category_name = Some cat\<rparr>,
      photo_urls = [url], pet_status = Some status, pet_tags = Some [\<lparr>tag_id = Some i, tag_name = Some tag\<rparr>]\<rparr>"

definition sample_user :: user where
  "sample_user = \<lparr>user_id = Some 1, username = Some ''john_doe'', first_name = Some ''John'', last_name = Some ''Doe'',
     email = Some ''john@example.com'', password = Some ''password123'', phone = Some ''555-1234'', user_status = Some 1\<rparr>"

definition addSampleData :: "petstore \<Rightarrow> petstore" where
  "addSampleData s =
     (let s1 = add_sample_pet 1 (sample_pet 1 ''Buddy'' ''Dogs'' ''https://example.com/buddy.jpg'' ''available'' ''friendly'') s;
          s2 = add_sample_pet 2 (sample_pet 2 ''Mittens'' ''Cats'' ''https://example.com/mittens.jpg'' ''pending'' ''quiet'') s1
      in s2\<lparr>users := (users s2)(''john_doe'' := Some sample_user)\<rparr>)"

definition NewPetStore :: petstore where
  "NewPetStore = addSampleData \<lparr>heap = [1, 1], pets = Map.empty, users = Map.empty, orders = Map.empty\<rparr>"

section \<open>Pet handlers\<close>

text \<open>A pet without an identifier gets the address of the counter, which is then counted up.\<close>

definition AddPet :: "int64 pet option \<Rightarrow> petstore \<Rightarrow> http_reply \<times> petstore" where
  "AddPet b s =
     (case b of
        None \<Rightarrow> (HTTPError 400 ''Invalid pet data'', s)
      | Some pet \<Rightarrow>
          let (i, s1) = new_id (pet_id pet) s;
              (p, s2) = (case i of
                           None \<Rightarrow> (nextPetID, set_cell nextPetID (deref s1 nextPetID + 1) s1)
                         | Some p \<Rightarrow> (p, s1));
              pet' = with_pet_id (Some p) pet
          in if pet_name pet' = [] then (HTTPError 400 ''Pet name is required'', s2)
             else if photo_urls pet' = [] then (HTTPError 400 ''At least one photo URL is required'', s2)
             else let s3 = s2\<lparr>pets := (pets s2)(deref s2 p := Some pet')\<rparr>
                  in (Reply 200 [] (PetBody (show_pet s3 pet')), s3))"

definition UpdatePet :: "int64 pet option \<Rightarrow> petstore \<Rightarrow> http_reply \<times> petstore" where
  "UpdatePet b s =
     (case b of
        None \<Rightarrow> (HTTPError 400 ''Invalid pet data'', s)
      | Some pet \<Rightarrow>
          let (i, s1) = new_id (pet_id pet) s
          in case i of
               None \<Rightarrow> (HTTPError 400 ''Pet ID is required'', s1)
             | Some p \<Rightarrow>
                 if pets s1 (deref s1 p) = None then (HTTPError 404 ''Pet not found'', s1)
                 else let pet' = with_pet_id (Some p) pet;
                          s2 = s1\<lparr>pets := (pets s1)(deref s1 p := Some pet')\<rparr>
                      in (Reply 200 [] (PetBody (show_pet s2 pet')), s2))"

text \<open>The order \<open>ks\<close> in which a loop visits the keys of a map is the runtime's choice.\<close>

definition FindPetsByStatus :: "int64 list \<Rightarrow> string list \<Rightarrow> petstore \<Rightarrow> http_reply \<times> petstore" where
  "FindPetsByStatus ks statuses s =
     (Reply 200 [] (pets_body (map (show_pet s)
        (filter (\<lambda>p. case pet_status p of None \<Rightarrow> False | Some st \<Rightarrow> st \<in> set statuses) (List.map_filter (pets s) ks)))), s)"

definition FindPetsByTags :: "int64 list \<Rightarrow> string list \<Rightarrow> petstore \<Rightarrow> http_reply \<times> petstore" where
  "FindPetsByTags ks tags s =
     (Reply 200 [] (pets_body (map (show_pet s)
        (filter (\<lambda>p. case pet_tags p of
                       None \<Rightarrow> False
                     | Some ts \<Rightarrow> list_ex (\<lambda>t. case tag_name t of None \<Rightarrow> False | Some n \<Rightarrow> n \<in> set tags) ts)
          (List.map_filter (pets s) ks)))), s)"

definition DeletePet :: "int64 \<Rightarrow> petstore \<Rightarrow> http_reply \<times> petstore" where
  "DeletePet k s =
     (if pets s k = None then (HTTPError 404 ''Pet not found'', s)
      else (Reply 200 [] NoBody, s\<lparr>pets := (pets s)(k := None)\<rparr>))"

definition GetPetById :: "int64 \<Rightarrow> petstore \<Rightarrow> http_reply \<times> petstore" where
  "GetPetById k s =
     (case pets s k of
        None \<Rightarrow> (HTTPError 404 ''Pet not found'', s)
      | Some p \<Rightarrow> (Reply 200 [] (PetBody (show_pet s p)), s))"

definition UpdatePetWithForm :: "string \<Rightarrow> string \<Rightarrow> int64 \<Rightarrow> petstore \<Rightarrow> http_reply \<times> petstore" where
  "UpdatePetWithForm name status k s =
     (case pets s k of
        None \<Rightarrow> (HTTPError 404 ''Pet not found'', s)
      | Some p \<Rightarrow>
          let p1 = (if name \<noteq> [] then p\<lparr>pet_name := name\<rparr> else p);
              p2 = (if status \<noteq> [] then p1\<lparr>pet_status := Some status\<rparr> else p1)
          in (Reply 200 [] NoBody, s\<lparr>pets := (pets s)(k := Some p2)\<rparr>))"

definition UploadFile :: "string option \<Rightarrow> string \<Rightarrow> int64 \<Rightarrow> petstore \<Rightarrow> http_reply \<times> petstore" where
  "UploadFile file metadata k s =
     (if pets s k = None then (HTTPError 404 ''Pet not found'', s)
      else case file of
             None \<Rightarrow> (HTTPError 400 ''No file uploaded'', s)
           | Some name \<Rightarrow>
               (Reply 200 [] (UploadBody 200 ''success'' (''File '' @ name @ '' uploaded successfully. '' @ metadata)), s))"

section \<open>Store handlers\<close>

text \<open>A missing key of a map of numbers counts as zero.\<close>

definition GetInventory :: "int64 list \<Rightarrow> petstore \<Rightarrow> http_reply \<times> petstore" where
  "GetInventory ks s =
     (Reply 200 [] (InventoryBody (fold
        (\<lambda>p inventory. case pet_status p of
            None \<Rightarrow> inventory
          | Some st \<Rightarrow> inventory(st := Some ((case inventory st of None \<Rightarrow> 0 | Some n \<Rightarrow> n) + 1)))
        (List.map_filter (pets s) ks) Map.empty)), s)"

text \<open>\<open>week\<close> is the text of the time seven days from now.\<close>

definition PlaceOrder :: "string \<Rightarrow> int64 store_order option \<Rightarrow> petstore \<Rightarrow> http_reply \<times> petstore" where
  "PlaceOrder week b s =
     (case b of
        None \<Rightarrow> (HTTPError 400 ''Invalid order data'', s)
      | Some x \<Rightarrow>
          let (i, s1) = new_id (order_id x) s;
              (p, s2) = (case i of
                           None \<Rightarrow> (nextOrderID, set_cell nextOrderID (deref s1 nextOrderID + 1) s1)
                         | Some p \<Rightarrow> (p, s1));
              x1 = with_order_id (Some p) x;
              x2 = (if order_status x1 = None then x1\<lparr>order_status := Some ''placed''\<rparr> else x1);
              x3 = (if complete x2 = None then x2\<lparr>complete := Some False\<rparr> else x2);
              x4 = (if ship_date x3 = None then x3\<lparr>ship_date := Some week\<rparr> else x3)
          in if (case order_pet x4 of None \<Rightarrow> False | Some k \<Rightarrow> pets s2 k = None)
             then (HTTPError 400 ''Pet not found'', s2)
             else let s3 = s2\<lparr>orders := (orders s2)(deref s2 p := Some x4)\<rparr>
                  in (Reply 200 [] (OrderBody (show_order s3 x4)), s3))"

text \<open>\<open>strconv.ParseInt\<close> with base 10 and 64 bits.\<close>

definition ParseInt :: "string \<Rightarrow> int64 option" where
  "ParseInt t =
     (let neg = (t \<noteq> [] \<and> hd t = CHR ''-'');
          ds = (if t \<noteq> [] \<and> (hd t = CHR ''-'' \<or> hd t = CHR ''+'') then tl t else t);
          v = digits_val ds 0
      in if ds = [] \<or> \<not> list_all (\<lambda>c. digit_val c \<noteq> None) ds then None
         else if neg then (if v \<le> 2 ^ 63 then Some (- of_nat v) else None)
         else (if v < 2 ^ 63 then Some (of_nat v) else None))"

definition DeleteOrder :: "string \<Rightarrow> petstore \<Rightarrow> http_reply \<times> petstore" where
  "DeleteOrder orderId s =
     (case ParseInt orderId of
        None \<Rightarrow> (HTTPError 400 ''Invalid order ID'', s)
      | Some k \<Rightarrow>
          if orders s k = None then (HTTPError 404 ''Order not found'', s)
          else (Reply 200 [] NoBody, s\<lparr>orders := (orders s)(k := None)\<rparr>))"

definition GetOrderById :: "int64 \<Rightarrow> petstore \<Rightarrow> http_reply \<times> petstore" where
  "GetOrderById k s =
     (case orders s k of
        None \<Rightarrow> (HTTPError 404 ''Order not found'', s)
      | Some x \<Rightarrow> (Reply 200 [] (OrderBody (show_order s x)), s))"

section \<open>User handlers\<close>

definition CreateUser :: "user option \<Rightarrow> petstore \<Rightarrow> http_reply \<times> petstore" where
  "CreateUser b s =
     (case b of
        None \<Rightarrow> (HTTPError 400 ''Invalid user data'', s)
      | Some u \<Rightarrow>
          (case username u of
             None \<Rightarrow> (HTTPError 400 ''Username is required'', s)
           | Some n \<Rightarrow>
               if users s n \<noteq> None then (HTTPError 409 ''User already exists'', s)
               else (Reply 200 [] NoBody, s\<lparr>users := (users s)(n := Some u)\<rparr>)))"

definition CreateUsersWithArrayInput :: "user list option \<Rightarrow> petstore \<Rightarrow> http_reply \<times> petstore" where
  "CreateUsersWithArrayInput b s =
     (case b of
        None \<Rightarrow> (HTTPError 400 ''Invalid user array data'', s)
      | Some us \<Rightarrow>
          (Reply 200 [] NoBody,
           s\<lparr>users := fold (\<lambda>u m. case username u of None \<Rightarrow> m | Some n \<Rightarrow> m(n := Some u)) us (users s)\<rparr>))"

definition CreateUsersWithListInput :: "user list option \<Rightarrow> petstore \<Rightarrow> http_reply \<times> petstore" where
  "CreateUsersWithListInput b s = CreateUsersWithArrayInput b s"

text \<open>The clock: seconds since the epoch, and the text of the time a day from now.\<close>

record clock = unix_time :: int
  expires_after :: string

definition LoginUser :: "clock \<Rightarrow> string \<Rightarrow> string \<Rightarrow> petstore \<Rightarrow> http_reply \<times> petstore" where
  "LoginUser now name pw s =
     (case users s name of
        None \<Rightarrow> (HTTPError 400 ''Invalid username/password'', s)
      | Some u \<Rightarrow>
          if password u = None \<or> password u \<noteq> Some pw then (HTTPError 400 ''Invalid username/password'', s)
          else let sessionToken = ''session_'' @ name @ ''_'' @ show_int (unix_time now)
               in (Reply 200 [(''X-Rate-Limit'', ''5000''), (''X-Expires-After'', expires_after now),
                              (''Set-Cookie'', ''AUTH_KEY='' @ sessionToken @ ''; Path=/; HttpOnly'')] (TextBody sessionToken), s))"

definition LogoutUser :: "petstore \<Rightarrow> http_reply \<times> petstore" where
  "LogoutUser s = (Reply 200 [(''Set-Cookie'', ''AUTH_KEY=; Path=/; HttpOnly; Max-Age=0'')] NoBody, s)"

definition DeleteUser :: "string \<Rightarrow> petstore \<Rightarrow> http_reply \<times> petstore" where
  "DeleteUser name s =
     (if users s name = None then (HTTPError 404 ''User not found'', s)
      else (Reply 200 [] NoBody, s\<lparr>users := (users s)(name := None)\<rparr>))"

definition GetUserByName :: "string \<Rightarrow> petstore \<Rightarrow> http_reply \<times> petstore" where
  "GetUserByName name s =
     (case users s name of
        None \<Rightarrow> (HTTPError 404 ''User not found'', s)
      | Some u \<Rightarrow> (Reply 200 [] (UserBody (u\<lparr>password := None\<rparr>)), s))"

definition UpdateUser :: "user option \<Rightarrow> string \<Rightarrow> petstore \<Rightarrow> http_reply \<times> petstore" where
  "UpdateUser b name s =
     (if users s name = None then (HTTPError 404 ''User not found'', s)
      else case b of
             None \<Rightarrow> (HTTPError 400 ''Invalid user data'', s)
           | Some u \<Rightarrow> (Reply 200 [] NoBody, s\<lparr>users := (users s)(name := Some (u\<lparr>username := Some name\<rparr>))\<rparr>))"

section \<open>Requests\<close>

datatype request =
    RAddPet "int64 pet option"
  | RUpdatePet "int64 pet option"
  | RFindPetsByStatus "int64 list" "string list"
  | RFindPetsByTags "int64 list" "string list"
  | RDeletePet int64
  | RGetPetById int64
  | RUpdatePetWithForm string string int64
  | RUploadFile "string option" string int64
  | RGetInventory "int64 list"
  | RPlaceOrder string "int64 store_order option"
  | RDeleteOrder string
  | RGetOrderById int64
  | RCreateUser "user option"
  | RCreateUsersWithArrayInput "user list option"
  | RCreateUsersWithListInput "user list option"
  | RLoginUser clock string string
  | RLogoutUser
  | RDeleteUser string
  | RGetUserByName string
  | RUpdateUser "user option" string

fun handle :: "request \<Rightarrow> petstore \<Rightarrow> http_reply \<times> petstore" where
  "handle (RAddPet b) s = AddPet b s"
| "handle (RUpdatePet b) s = UpdatePet b s"
| "handle (RFindPetsByStatus ks st) s = FindPetsByStatus ks st s"
| "handle (RFindPetsByTags ks ts) s = FindPetsByTags ks ts s"
| "handle (RDeletePet k) s = DeletePet k s"
| "handle (RGetPetById k) s = GetPetById k s"
| "handle (RUpdatePetWithForm n st k) s = UpdatePetWithForm n st k s"
| "handle (RUploadFile f m k) s = UploadFile f m k s"
| "handle (RGetInventory ks) s = GetInventory ks s"
| "handle (RPlaceOrder w b) s = PlaceOrder w b s"
| "handle (RDeleteOrder t) s = DeleteOrder t s"
| "handle (RGetOrderById k) s = GetOrderById k s"
| "handle (RCreateUser b) s = CreateUser b s"
| "handle (RCreateUsersWithArrayInput b) s = CreateUsersWithArrayInput b s"
| "handle (RCreateUsersWithListInput b) s = CreateUsersWithListInput b s"
| "handle (RLoginUser c n p) s = LoginUser c n p s"
| "handle RLogoutUser s = LogoutUser s"
| "handle (RDeleteUser n) s = DeleteUser n s"
| "handle (RGetUserByName n) s = GetUserByName n s"
| "handle (RUpdateUser b n) s = UpdateUser b n s"

definition serve :: "request list \<Rightarrow> petstore \<Rightarrow> petstore" where
  "serve rs s = fold (\<lambda>r s. snd (handle r s)) rs s"

section \<open>Invariant\<close>

text \<open>
  An identifier of a stored pet is the address of the counter of pets or of a cell that holds the pet's key, and so for
  orders; a user is stored under its own name.
\<close>

definition id_ok :: "int64 list \<Rightarrow> ptr \<Rightarrow> int64 \<Rightarrow> ptr option \<Rightarrow> bool" where
  "id_ok h ctr k i = (case i of None \<Rightarrow> False | Some q \<Rightarrow> q < length h \<and> (q = ctr \<or> 2 \<le> q \<and> h ! q = k))"

definition petstore_ok :: "petstore \<Rightarrow> bool" where
  "petstore_ok s \<longleftrightarrow>
     2 \<le> length (heap s) \<and>
     (\<forall>k p. pets s k = Some p \<longrightarrow> id_ok (heap s) nextPetID k (pet_id p)) \<and>
     (\<forall>k x. orders s k = Some x \<longrightarrow> id_ok (heap s) nextOrderID k (order_id x)) \<and>
     (\<forall>n u. users s n = Some u \<longrightarrow> username u = Some n)"

named_theorems petstore_intros \<open>updates that keep the invariant\<close>

lemma id_ok_append: "id_ok h ctr k i \<Longrightarrow> id_ok (h @ [v]) ctr k i"
  by (auto simp: id_ok_def nth_append split: option.splits)

lemma id_ok_counter: "id_ok h ctr k i \<Longrightarrow> c < 2 \<Longrightarrow> id_ok (h[c := v]) ctr k i"
  by (auto simp: id_ok_def split: option.splits)

lemma ok_new_cell [petstore_intros]: "petstore_ok s \<Longrightarrow> petstore_ok (s\<lparr>heap := heap s @ [v]\<rparr>)"
  by (simp add: petstore_ok_def id_ok_append)

lemma ok_set_counter [petstore_intros]: "petstore_ok s \<Longrightarrow> c < 2 \<Longrightarrow> petstore_ok (set_cell c v s)"
  by (simp add: petstore_ok_def set_cell_def id_ok_counter)

lemma ok_set_pet [petstore_intros]:
  "petstore_ok s \<Longrightarrow> id_ok (heap s) nextPetID k (pet_id p) \<Longrightarrow> petstore_ok (s\<lparr>pets := (pets s)(k := Some p)\<rparr>)"
  by (simp add: petstore_ok_def)

lemma ok_delete_pet [petstore_intros]: "petstore_ok s \<Longrightarrow> petstore_ok (s\<lparr>pets := (pets s)(k := None)\<rparr>)"
  by (simp add: petstore_ok_def)

lemma ok_set_order [petstore_intros]:
  "petstore_ok s \<Longrightarrow> id_ok (heap s) nextOrderID k (order_id x) \<Longrightarrow> petstore_ok (s\<lparr>orders := (orders s)(k := Some x)\<rparr>)"
  by (simp add: petstore_ok_def)

lemma ok_delete_order [petstore_intros]: "petstore_ok s \<Longrightarrow> petstore_ok (s\<lparr>orders := (orders s)(k := None)\<rparr>)"
  by (simp add: petstore_ok_def)

lemma ok_set_user [petstore_intros]:
  "petstore_ok s \<Longrightarrow> username u = Some n \<Longrightarrow> petstore_ok (s\<lparr>users := (users s)(n := Some u)\<rparr>)"
  by (simp add: petstore_ok_def)

lemma ok_delete_user [petstore_intros]: "petstore_ok s \<Longrightarrow> petstore_ok (s\<lparr>users := (users s)(n := None)\<rparr>)"
  by (simp add: petstore_ok_def)

lemma new_id_None [simp]: "new_id None s = (None, s)"
  by (simp add: new_id_def)

lemma new_id_Some: "new_id (Some v) s = (Some (length (heap s)), s\<lparr>heap := heap s @ [v]\<rparr>)"
  by (simp add: new_id_def)

lemma with_pet_id_simps [simp]:
  "pet_id (with_pet_id i p) = i" "pet_name (with_pet_id i p) = pet_name p" "photo_urls (with_pet_id i p) = photo_urls p"
  "pet_status (with_pet_id i p) = pet_status p" "pet_tags (with_pet_id i p) = pet_tags p"
  "pet_category (with_pet_id i p) = pet_category p" "with_pet_id j (with_pet_id i p) = with_pet_id j p"
  by (simp_all add: with_pet_id_def)

lemma with_order_id_simps [simp]:
  "order_id (with_order_id i x) = i" "order_pet (with_order_id i x) = order_pet x"
  "with_order_id j (with_order_id i x) = with_order_id j x"
  by (simp_all add: with_order_id_def)

lemma fresh_id_ok: "petstore_ok s \<Longrightarrow> id_ok (heap s @ [v]) ctr v (Some (length (heap s)))"
  by (simp add: petstore_ok_def id_ok_def)

lemma counter_id_ok: "petstore_ok s \<Longrightarrow> id_ok (heap s) nextPetID k (Some nextPetID)" "petstore_ok s \<Longrightarrow> id_ok (heap s) nextOrderID k (Some nextOrderID)"
  by (auto simp: petstore_ok_def id_ok_def nextPetID_def nextOrderID_def)

lemma counters_low [simp]: "nextPetID < 2" "nextOrderID < 2"
  by (simp_all add: nextPetID_def nextOrderID_def)

lemma ok_store_pet [petstore_intros]:
  "petstore_ok s \<Longrightarrow> pet_id p = Some (length (heap s)) \<Longrightarrow>
   petstore_ok (s\<lparr>heap := heap s @ [v], pets := (pets s)(v := Some p)\<rparr>)"
  using ok_set_pet [OF ok_new_cell [of s v], of v p] fresh_id_ok [of s v nextPetID] by simp

lemma ok_store_order [petstore_intros]:
  "petstore_ok s \<Longrightarrow> order_id x = Some (length (heap s)) \<Longrightarrow>
   petstore_ok (s\<lparr>heap := heap s @ [v], orders := (orders s)(v := Some x)\<rparr>)"
  using ok_set_order [OF ok_new_cell [of s v], of v x] fresh_id_ok [of s v nextOrderID] by simp

lemma petstore_ok_AddPet: "petstore_ok s \<Longrightarrow> petstore_ok (snd (AddPet b s))"
proof (cases b)
  case (Some pet)
  assume ok: "petstore_ok s"
  show ?thesis
  proof (cases "pet_id pet")
    case None
    have "petstore_ok (set_cell nextPetID (deref s nextPetID + 1) s)" using ok by (simp add: ok_set_counter)
    with Some None show ?thesis
      by (auto simp: AddPet_def Let_def intro!: petstore_intros counter_id_ok)
  next
    case (Some v)
    with \<open>b = Some pet\<close> ok show ?thesis
      by (auto simp: AddPet_def Let_def new_id_Some deref_def intro!: petstore_intros)
  qed
qed (simp add: AddPet_def)

lemma petstore_ok_UpdatePet: "petstore_ok s \<Longrightarrow> petstore_ok (snd (UpdatePet b s))"
  by (cases b; cases "pet_id (the b)")
    (auto simp: UpdatePet_def Let_def new_id_Some deref_def intro!: petstore_intros)

lemma petstore_ok_UpdatePetWithForm: "petstore_ok s \<Longrightarrow> petstore_ok (snd (UpdatePetWithForm n st k s))"
  by (auto simp: UpdatePetWithForm_def Let_def petstore_ok_def split: option.splits)

lemma petstore_ok_PlaceOrder: "petstore_ok s \<Longrightarrow> petstore_ok (snd (PlaceOrder w b s))"
proof (cases b)
  case (Some x)
  assume ok: "petstore_ok s"
  show ?thesis
  proof (cases "order_id x")
    case None
    have "petstore_ok (set_cell nextOrderID (deref s nextOrderID + 1) s)" using ok by (simp add: ok_set_counter)
    with Some None show ?thesis
      by (auto simp: PlaceOrder_def Let_def intro!: petstore_intros counter_id_ok)
  next
    case (Some v)
    with \<open>b = Some x\<close> ok show ?thesis
      by (auto simp: PlaceOrder_def Let_def new_id_Some deref_def intro!: petstore_intros)
  qed
qed (simp add: PlaceOrder_def)

definition users_named :: "(string \<Rightarrow> user option) \<Rightarrow> bool" where
  "users_named m \<longleftrightarrow> (\<forall>n u. m n = Some u \<longrightarrow> username u = Some n)"

lemma users_named_fold:
  "users_named m \<Longrightarrow> users_named (fold (\<lambda>u m. case username u of None \<Rightarrow> m | Some n \<Rightarrow> m(n := Some u)) us m)"
proof (induction us arbitrary: m)
  case (Cons u us)
  have "users_named (case username u of None \<Rightarrow> m | Some n \<Rightarrow> m(n := Some u))"
    using Cons.prems by (auto simp: users_named_def split: option.splits)
  then show ?case using Cons.IH by simp
qed simp

lemma petstore_ok_CreateUsers: "petstore_ok s \<Longrightarrow> petstore_ok (snd (CreateUsersWithArrayInput b s))"
  using users_named_fold [of "users s"]
  by (cases b) (simp_all add: CreateUsersWithArrayInput_def petstore_ok_def flip: users_named_def)

lemmas petstore_ok_handlers =
  petstore_ok_AddPet petstore_ok_UpdatePet petstore_ok_UpdatePetWithForm petstore_ok_PlaceOrder petstore_ok_CreateUsers

lemma petstore_ok_handle: "petstore_ok s \<Longrightarrow> petstore_ok (snd (handle r s))"
  by (cases r)
    (auto simp: petstore_ok_handlers FindPetsByStatus_def FindPetsByTags_def DeletePet_def GetPetById_def UploadFile_def
        GetInventory_def DeleteOrder_def GetOrderById_def CreateUser_def CreateUsersWithListInput_def LoginUser_def
        LogoutUser_def DeleteUser_def GetUserByName_def UpdateUser_def Let_def
      intro!: petstore_intros split: option.splits)

interpretation psr: run_invariant "\<lambda>r s. snd (handle r s)" petstore_ok
  by unfold_locales (rule petstore_ok_handle)

lemma petstore_ok_new: "petstore_ok NewPetStore"
  by (simp add: NewPetStore_def addSampleData_def add_sample_pet_def sample_pet_def sample_user_def petstore_ok_def id_ok_def
      new_id_Some deref_def set_cell_def nextPetID_def nextOrderID_def Let_def nth_append)

lemma petstore_ok_serve: "petstore_ok (serve rs NewPetStore)"
  unfolding serve_def by (rule psr.fold_inv [OF petstore_ok_new])

section \<open>Identifiers\<close>

lemma shown_id:
  "petstore_ok s \<Longrightarrow> pets s k = Some p \<Longrightarrow>
   show_pet s p = with_pet_id (Some (if pet_id p = Some nextPetID then deref s nextPetID else k)) p"
  by (auto simp: petstore_ok_def id_ok_def show_pet_def deref_def split: option.splits dest!: spec [of _ k])

lemma shown_order_id:
  "petstore_ok s \<Longrightarrow> orders s k = Some x \<Longrightarrow>
   show_order s x = with_order_id (Some (if order_id x = Some nextOrderID then deref s nextOrderID else k)) x"
  by (auto simp: petstore_ok_def id_ok_def show_order_def deref_def split: option.splits dest!: spec [of _ k])

text \<open>C24. After any requests, a pet or an order that is asked for under its key is reported with that key as its identifier, unless
  the identifier was generated: then it is the present value of the counter, whatever the key. Nothing else is ever reported.
\<close>

theorem petstore_reported_ids:
  "let s = serve rs NewPetStore in
   GetPetById k s =
     (case pets s k of
        None \<Rightarrow> (HTTPError 404 ''Pet not found'', s)
      | Some p \<Rightarrow> (Reply 200 [] (PetBody (with_pet_id
          (Some (if pet_id p = Some nextPetID then deref s nextPetID else k)) p)), s)) \<and>
   GetOrderById k s =
     (case orders s k of
        None \<Rightarrow> (HTTPError 404 ''Order not found'', s)
      | Some x \<Rightarrow> (Reply 200 [] (OrderBody (with_order_id
          (Some (if order_id x = Some nextOrderID then deref s nextOrderID else k)) x)), s))"
  using petstore_ok_serve [of rs]
  by (auto simp: Let_def GetPetById_def GetOrderById_def shown_id shown_order_id split: option.splits)

lemma deref_counter: "petstore_ok s \<Longrightarrow> heap t = (heap s)[nextPetID := v] \<Longrightarrow> deref t nextPetID = v"
  by (auto simp: petstore_ok_def deref_def nextPetID_def intro!: nth_list_update_eq)

definition valid_new_pet :: "int64 pet \<Rightarrow> bool" where
  "valid_new_pet b \<longleftrightarrow> pet_id b = None \<and> pet_name b \<noteq> [] \<and> photo_urls b \<noteq> []"

lemma AddPet_generated:
  assumes "petstore_ok s" "valid_new_pet b"
  defines "n \<equiv> deref s nextPetID + 1"
  defines "t \<equiv> set_cell nextPetID n s"
  shows "AddPet (Some b) s =
    (Reply 200 [] (PetBody (with_pet_id (Some n) b)), t\<lparr>pets := (pets s)(n := Some (with_pet_id (Some nextPetID) b))\<rparr>)"
proof -
  have "deref t nextPetID = n"
    using assms(1) by (simp add: t_def set_cell_def deref_counter)
  moreover have "pets t = pets s" by (simp add: t_def set_cell_def)
  moreover have "show_pet (t\<lparr>pets := m\<rparr>) (with_pet_id (Some nextPetID) b) = with_pet_id (Some (deref t nextPetID)) b" for m
    by (simp add: show_pet_def deref_def)
  ultimately show ?thesis
    using assms(2) by (simp add: AddPet_def valid_new_pet_def Let_def flip: t_def n_def)
qed

text \<open>C12. Two pets that are added without an identifier: each is stored under the value the counter has after it was counted up and replied
  with it, replacing a pet that is there; but the second addition changes the identifier that the first one is reported
  with to that of the second.
\<close>

theorem petstore_generated_ids:
  assumes "valid_new_pet a" "valid_new_pet b"
  shows "let s = serve rs NewPetStore; n = deref s nextPetID; (r1, s1) = AddPet (Some a) s; (r2, s2) = AddPet (Some b) s1 in
     r1 = Reply 200 [] (PetBody (with_pet_id (Some (n + 1)) a)) \<and>
     fst (GetPetById (n + 1) s1) = Reply 200 [] (PetBody (with_pet_id (Some (n + 1)) a)) \<and>
     r2 = Reply 200 [] (PetBody (with_pet_id (Some (n + 2)) b)) \<and>
     fst (GetPetById (n + 1) s2) = Reply 200 [] (PetBody (with_pet_id (Some (n + 2)) a)) \<and>
     fst (GetPetById (n + 2) s2) = Reply 200 [] (PetBody (with_pet_id (Some (n + 2)) b))"
proof -
  define s where "s = serve rs NewPetStore"
  define n where "n = deref s nextPetID"
  define s1 where "s1 = (set_cell nextPetID (n + 1) s)\<lparr>pets := (pets s)(n + 1 := Some (with_pet_id (Some nextPetID) a))\<rparr>"
  have ok: "petstore_ok s" by (simp add: s_def petstore_ok_serve)
  have a: "AddPet (Some a) s = (Reply 200 [] (PetBody (with_pet_id (Some (n + 1)) a)), s1)"
    using AddPet_generated [OF ok assms(1)] by (simp add: n_def s1_def)
  have ok1: "petstore_ok s1" using petstore_ok_AddPet [OF ok, of "Some a"] a by simp
  have n1: "deref s1 nextPetID = n + 1"
    using ok by (simp add: s1_def set_cell_def deref_counter)
  define s2 where "s2 = (set_cell nextPetID (n + 2) s1)\<lparr>pets := (pets s1)(n + 2 := Some (with_pet_id (Some nextPetID) b))\<rparr>"
  have "n + 1 + 1 = n + 2" by simp
  then have b: "AddPet (Some b) s1 = (Reply 200 [] (PetBody (with_pet_id (Some (n + 2)) b)), s2)"
    using AddPet_generated [OF ok1 assms(2)] n1 by (simp add: s2_def add.commute)
  have ok2: "petstore_ok s2" using petstore_ok_AddPet [OF ok1, of "Some b"] b by simp
  have n2: "deref s2 nextPetID = n + 2"
    using ok1 by (simp add: s2_def set_cell_def deref_counter)
  have "n + 1 \<noteq> n + 2" by simp
  then have p: "pets s1 (n + 1) = Some (with_pet_id (Some nextPetID) a)" "pets s2 (n + 1) = Some (with_pet_id (Some nextPetID) a)"
    "pets s2 (n + 2) = Some (with_pet_id (Some nextPetID) b)" by (simp_all add: s1_def s2_def)
  have "fst (GetPetById (n + 1) s1) = Reply 200 [] (PetBody (with_pet_id (Some (n + 1)) a))"
    using shown_id [OF ok1 p(1)] n1 p(1) by (simp add: GetPetById_def)
  moreover have "fst (GetPetById (n + 1) s2) = Reply 200 [] (PetBody (with_pet_id (Some (n + 2)) a))"
    using shown_id [OF ok2 p(2)] n2 p(2) by (simp add: GetPetById_def)
  moreover have "fst (GetPetById (n + 2) s2) = Reply 200 [] (PetBody (with_pet_id (Some (n + 2)) b))"
    using shown_id [OF ok2 p(3)] n2 p(3) by (simp add: GetPetById_def)
  ultimately show ?thesis using a b by (simp add: Let_def flip: s_def n_def)
qed

definition new_pet :: "string \<Rightarrow> int64 pet" where
  "new_pet name = \<lparr>pet_id = None, pet_name = name, pet_category = None, photo_urls = [''u''], pet_status = None, pet_tags = None\<rparr>"

theorem petstore_generated_ids_witness:
  "let (r1, s1) = AddPet (Some (new_pet ''Rex'')) NewPetStore; (r2, s2) = AddPet (Some (new_pet ''Tom'')) s1 in
     r1 = Reply 200 [] (PetBody (with_pet_id (Some 4) (new_pet ''Rex''))) \<and>
     fst (GetPetById 4 s2) = Reply 200 [] (PetBody (with_pet_id (Some 5) (new_pet ''Rex'')))"
proof -
  have "deref NewPetStore nextPetID = 3" by code_simp
  moreover have "valid_new_pet (new_pet ''Rex'')" "valid_new_pet (new_pet ''Tom'')" by (simp_all add: valid_new_pet_def new_pet_def)
  ultimately show ?thesis
    using petstore_generated_ids [of "new_pet ''Rex''" "new_pet ''Tom''" "[]"] by (simp add: serve_def Let_def case_prod_beta)
qed

section \<open>Users\<close>

fun touches_user :: "string \<Rightarrow> request \<Rightarrow> bool" where
  "touches_user n (RDeleteUser m) = (m = n)"
| "touches_user n (RUpdateUser _ m) = (m = n)"
| "touches_user n (RCreateUsersWithArrayInput (Some us)) = list_ex (\<lambda>u. username u = Some n) us"
| "touches_user n (RCreateUsersWithListInput (Some us)) = list_ex (\<lambda>u. username u = Some n) us"
| "touches_user n _ = False"

lemma fold_users_other:
  "\<not> list_ex (\<lambda>u. username u = Some n) us \<Longrightarrow>
   fold (\<lambda>u m. case username u of None \<Rightarrow> m | Some n \<Rightarrow> m(n := Some u)) us m n = m n"
proof (induction us arbitrary: m)
  case (Cons u us)
  then show ?case by (cases "username u") auto
qed simp

lemma CreateUsers_other:
  "\<not> touches_user n (RCreateUsersWithArrayInput b) \<Longrightarrow> users (snd (CreateUsersWithArrayInput b s)) n = users s n"
  by (cases b) (simp_all add: CreateUsersWithArrayInput_def fold_users_other)

lemma touches_list_input: "touches_user n (RCreateUsersWithListInput b) = touches_user n (RCreateUsersWithArrayInput b)"
  by (cases b) simp_all

lemma users_pets_handlers [simp]:
  "users (snd (AddPet b s)) = users s" "users (snd (UpdatePet b s)) = users s"
  "users (snd (UpdatePetWithForm nm st k s)) = users s" "users (snd (PlaceOrder w x s)) = users s"
  by (auto simp: AddPet_def UpdatePet_def UpdatePetWithForm_def PlaceOrder_def new_id_def set_cell_def Let_def
           split: option.splits)

text \<open>A user stays as it is under every request that does not name it; creating it again is refused.\<close>

lemma handle_keeps_user:
  assumes "users s n = Some u" "\<not> touches_user n r"
  shows "users (snd (handle r s)) n = Some u"
  using assms
  by (cases r)
    (auto simp: FindPetsByStatus_def FindPetsByTags_def DeletePet_def GetPetById_def UploadFile_def GetInventory_def
        DeleteOrder_def GetOrderById_def CreateUser_def CreateUsersWithListInput_def LoginUser_def LogoutUser_def
        DeleteUser_def GetUserByName_def UpdateUser_def CreateUsers_other touches_list_input Let_def
      split: option.splits)

lemma serve_keeps_user:
  "users s n = Some u \<Longrightarrow> list_all (\<lambda>r. \<not> touches_user n r) rs \<Longrightarrow> users (serve rs s) n = Some u"
proof (induction rs arbitrary: s)
  case (Cons r rs)
  then show ?case using handle_keeps_user [of s n u r] by (simp add: serve_def)
qed (simp add: serve_def)



section \<open>Inventory and searches\<close>

definition has_status :: "petstore \<Rightarrow> string \<Rightarrow> int64 \<Rightarrow> bool" where
  "has_status s st k = (case pets s k of None \<Rightarrow> False | Some p \<Rightarrow> pet_status p = Some st)"

lemma inventory_fold:
  "fold (\<lambda>p inventory. case pet_status p of
            None \<Rightarrow> inventory
          | Some st \<Rightarrow> inventory(st := Some ((case inventory st of None \<Rightarrow> 0 | Some n \<Rightarrow> n) + 1))) ps m st =
   (let c = length (filter (\<lambda>p. pet_status p = Some st) ps) in
    if c = 0 then m st else Some ((case m st of None \<Rightarrow> 0 | Some n \<Rightarrow> n) + (of_nat c :: int32)))"
proof (induction ps arbitrary: m)
  case (Cons p ps)
  show ?case
  proof (cases "pet_status p")
    case (Some t)
    then show ?thesis by (auto simp: Cons.IH Let_def add.assoc)
  qed (simp add: Cons.IH)
qed simp

lemma filter_map_filter:
  "length (filter Q (List.map_filter f ks)) = length (filter (\<lambda>k. case f k of None \<Rightarrow> False | Some p \<Rightarrow> Q p) ks)"
  by (induction ks) (auto simp: map_filter_simps split: option.splits)

text \<open>C25. Whatever order the runtime visits the pets in, the inventory counts, modulo \<open>2\<^sup>3\<^sup>2\<close>, the pets of each status and has no entry for a
  status without pets; and a search by status or by tags returns the same pets the same number of times.
\<close>

theorem petstore_iteration_order:
  assumes "distinct ks" "set ks = dom (pets s)" "distinct ks'" "set ks' = dom (pets s)"
  shows "GetInventory ks s =
      (Reply 200 [] (InventoryBody (\<lambda>st. let n = card {k. has_status s st k} in if n = 0 then None else Some (of_nat n))), s) \<and>
    (\<exists>ps ps'. FindPetsByStatus ks sts s = (Reply 200 [] (pets_body ps), s) \<and>
              FindPetsByStatus ks' sts s = (Reply 200 [] (pets_body ps'), s) \<and> mset ps = mset ps') \<and>
    (\<exists>ps ps'. FindPetsByTags ks tags s = (Reply 200 [] (pets_body ps), s) \<and>
              FindPetsByTags ks' tags s = (Reply 200 [] (pets_body ps'), s) \<and> mset ps = mset ps')"
proof -
  have count: "length (filter (\<lambda>p. pet_status p = Some st) (List.map_filter (pets s) ks)) = card {k. has_status s st k}" for st
  proof -
    have "filter (\<lambda>k. case pets s k of None \<Rightarrow> False | Some p \<Rightarrow> pet_status p = Some st) ks = filter (has_status s st) ks"
      by (simp add: has_status_def [abs_def])
    moreover have "{k. has_status s st k} = set (filter (has_status s st) ks)"
      using assms(2) by (auto simp: has_status_def split: option.splits)
    ultimately show ?thesis
      using assms(1) by (simp add: filter_map_filter distinct_card [symmetric])
  qed
  have "mset ks = mset ks'" using assms by (simp add: set_eq_iff_mset_eq_distinct [symmetric])
  then have perm: "mset (map (show_pet s) (filter Q (List.map_filter (pets s) ks))) =
                   mset (map (show_pet s) (filter Q (List.map_filter (pets s) ks')))" for Q
    by (simp add: List.map_filter_def)
  have "GetInventory ks s =
      (Reply 200 [] (InventoryBody (\<lambda>st. let n = card {k. has_status s st k} in if n = 0 then None else Some (of_nat n))), s)"
    unfolding GetInventory_def by (simp add: fun_eq_iff inventory_fold count)
  with perm show ?thesis unfolding FindPetsByStatus_def FindPetsByTags_def by blast
qed

lemma new_store_pets: "dom (pets NewPetStore) = {1, 2}"
  by (auto simp: NewPetStore_def addSampleData_def add_sample_pet_def new_id_Some set_cell_def Let_def split: if_splits)

theorem petstore_iteration_order_witness:
  "GetInventory [2, 1] NewPetStore =
     (Reply 200 [] (InventoryBody (\<lambda>st. let n = card {k. has_status NewPetStore st k} in if n = 0 then None else Some (of_nat n))),
      NewPetStore)"
  using petstore_iteration_order [of "[2, 1]" NewPetStore "[1, 2]"] new_store_pets by auto

end
