(* ===== verification/Go_Programs.thy ===== *)
theory Go_Programs
  imports C_Lib "HOL-Library.Sublist"
begin

text \<open>
  The small Go programs: the client of the epoll server (\<open>sockets/epoll/go_client/tcp_client.go\<close>), the HTTP/2 server and
  client (\<open>http2/go_server\<close>, \<open>http2/go_client\<close>), the greeter server and client (\<open>grpc/go/hello\<close>) and the example filter of Envoy
  (\<open>proxy/envoy/wasm/example/example-filter.go\<close>). Flags are arguments with their values; the network, the transports and the proxy
  are parameters, an error being its text. A byte string is a \<open>string\<close>.
\<close>

section \<open>Client of the epoll server\<close>

record go_net =
  resolve_err :: "string option"
  dial_err :: "string option"
  write_err :: "string option"
  read_data :: string
  read_err :: "string option"

record go_run =
  exit_code :: int
  sent_data :: "string list"
  go_stderr :: "string list"

definition REPLY_SIZE :: nat where "REPLY_SIZE = 1024"

definition zero_bytes :: "nat \<Rightarrow> string" where "zero_bytes n = replicate n (CHR 0x00)"

text \<open>\<open>println\<close> puts a space between its arguments. A read stores at most as much as the slice holds.\<close>

definition tcp_client :: "go_net \<Rightarrow> go_run" where
  "tcp_client net =
     (case resolve_err net of
        Some e \<Rightarrow> \<lparr>exit_code = 1, sent_data = [], go_stderr = [''ResolveTCPAddr failed: '' @ e]\<rparr>
      | None \<Rightarrow>
     (case dial_err net of
        Some e \<Rightarrow> \<lparr>exit_code = 1, sent_data = [], go_stderr = [''Dial failed: '' @ e]\<rparr>
      | None \<Rightarrow>
          let sendStr = ''client data'' in
     (case write_err net of
        Some e \<Rightarrow> \<lparr>exit_code = 1, sent_data = [], go_stderr = [''Write to server failed: '' @ e]\<rparr>
      | None \<Rightarrow>
          let t = [''write to server =  '' @ sendStr];
              got = take REPLY_SIZE (read_data net);
              reply = got @ zero_bytes (REPLY_SIZE - length got)
          in (case read_err net of
                Some e \<Rightarrow> \<lparr>exit_code = 1, sent_data = [sendStr], go_stderr = t @ [''Write to server failed: '' @ e]\<rparr>
              | None \<Rightarrow> \<lparr>exit_code = 0, sent_data = [sendStr], go_stderr = t @ [''reply from server= '' @ reply]\<rparr>))))"

section \<open>HTTP/2 server and client\<close>

record h2_response =
  h2_header :: "(string \<times> string) list"
  h2_body :: string

definition show_bool :: "bool \<Rightarrow> string" where
  "show_bool b = (if b then ''true'' else ''false'')"

text \<open>The handler: the response and what it prints.\<close>

definition h2_handler :: "string \<Rightarrow> bool \<Rightarrow> h2_response \<times> string list" where
  "h2_handler path has_tls =
     (\<lparr>h2_header = [(''x-dscp'', ''34'')], h2_body = ''Hello, '' @ path @ '', http: '' @ show_bool (\<not> has_tls) @ [CHR 0x0A]\<rparr>,
      [''Replied''])"

definition quoted :: "string \<Rightarrow> string" where
  "quoted s = [CHR 0x22] @ s @ [CHR 0x22]"

text \<open>\<open>json.Marshal\<close> writes the keys of a map in order.\<close>

definition post_body :: string where
  "post_body = ''{'' @ quoted ''email'' @ '':'' @ quoted ''Subru@example.com'' @ '','' @ quoted ''name'' @ '':'' @ quoted ''Subru'' @ ''}''"

definition h2_url :: "string \<Rightarrow> string \<Rightarrow> string" where
  "h2_url ip port = ''http://'' @ ip @ '':'' @ port @ ''/example''"

record h2_request =
  rq_header :: "(string \<times> string) list"
  rq_length :: nat
  rq_body :: string

definition h2_request_header :: "(string \<times> string) list" where
  "h2_request_header = [(''x-dscp'', ''62''), (''Content-Type'', ''application/json'')]"

text \<open>
  The client makes one request object, whose body is a buffer, and sends it in every round. The transport reads \<open>taken\<close> bytes of
  what the buffer still holds. A round is answered with an error, which panics, or with the lines it prints.
\<close>

record h2_client =
  buffer_left :: string
  rq_sent :: "h2_request list"
  h2_out :: "string list"
  panicked :: "string option"

definition h2_start :: "string \<Rightarrow> string \<Rightarrow> h2_client" where
  "h2_start ip port = \<lparr>buffer_left = post_body, rq_sent = [], h2_out = [''sending to '' @ quoted (h2_url ip port), []], panicked = None\<rparr>"

record h2_answer =
  taken_bytes :: nat
  do_err :: "string option"
  status :: string
  header_text :: string
  resp_body :: string

definition h2_round :: "h2_answer \<Rightarrow> h2_client \<Rightarrow> h2_client" where
  "h2_round a s =
     (if panicked s \<noteq> None then s
      else
        let rq = \<lparr>rq_header = h2_request_header, rq_length = length post_body, rq_body = take (taken_bytes a) (buffer_left s)\<rparr>;
            s1 = s\<lparr>buffer_left := drop (taken_bytes a) (buffer_left s), rq_sent := rq_sent s @ [rq]\<rparr>
        in case do_err a of
             Some e \<Rightarrow> s1\<lparr>panicked := Some e\<rparr>
           | None \<Rightarrow> s1\<lparr>h2_out := h2_out s1 @ [''response Status: '' @ status a, ''response Headers: '' @ header_text a,
                                              ''response Body: '' @ resp_body a]\<rparr>)"

definition h2_rounds :: "h2_answer list \<Rightarrow> h2_client \<Rightarrow> h2_client" where
  "h2_rounds as s = fold h2_round as s"

section \<open>Greeter\<close>

definition SayHello :: "string \<Rightarrow> string list \<Rightarrow> string \<times> string list" where
  "SayHello name log = (''Hello '' @ name, log @ [''Received: '' @ name])"

text \<open>The flag has the default \<open>world\<close>; \<open>call\<close> is the stub: the reply's message or an error.\<close>

definition greeter_client :: "string option \<Rightarrow> string option \<Rightarrow> (string \<Rightarrow> string + string) \<Rightarrow> int \<times> string list" where
  "greeter_client dial_error name_flag call =
     (case dial_error of
        Some e \<Rightarrow> (1, [''did not connect: '' @ e])
      | None \<Rightarrow>
          (case call (case name_flag of None \<Rightarrow> ''world'' | Some n \<Rightarrow> n) of
             Inl e \<Rightarrow> (1, [''could not greet: '' @ e])
           | Inr m \<Rightarrow> (0, [''Greeting: '' @ m])))"

definition greeter_server :: "string option \<Rightarrow> int \<Rightarrow> string \<Rightarrow> string option \<Rightarrow> int \<times> string list" where
  "greeter_server listen_error port addr serve_error =
     (case listen_error of
        Some e \<Rightarrow> (1, [''failed to listen: '' @ e])
      | None \<Rightarrow>
          (case serve_error of
             Some e \<Rightarrow> (1, [''server listening at '' @ addr, ''failed to serve: '' @ e])
           | None \<Rightarrow> (0, [''server listening at '' @ addr])))"

section \<open>Example filter\<close>

datatype filter_event = Critical string | Info string | Stdout string

record 'h go_host =
  replace_header :: "string \<Rightarrow> string \<Rightarrow> 'h \<Rightarrow> string option \<times> 'h"
  get_headers :: "'h \<Rightarrow> (string \<times> string) list \<times> string option"

definition OnHttpRequestHeaders :: "'h go_host \<Rightarrow> 'h \<Rightarrow> filter_event list \<Rightarrow> 'h \<times> filter_event list" where
  "OnHttpRequestHeaders host h t =
     (let (err, h1) = replace_header host ''test'' ''best'' h;
          t1 = (if err \<noteq> None then t @ [Critical ''failed to set request header: test''] else t);
          (hs, err2) = get_headers host h1;
          t2 = (case err2 of None \<Rightarrow> t1 | Some e \<Rightarrow> t1 @ [Critical (''failed to get request headers: '' @ e)])
      in (h1, t2 @ map (\<lambda>(k, v). Info (''request header --> '' @ k @ '': '' @ v)) hs))"

text \<open>\<open>command\<close> is the output of the command or its error.\<close>

definition OnHttpResponseHeaders :: "'h go_host \<Rightarrow> string + string \<Rightarrow> 'h \<Rightarrow> filter_event list \<Rightarrow> filter_event list" where
  "OnHttpResponseHeaders host command h t =
     (let (hs, err) = get_headers host h;
          t1 = (case err of None \<Rightarrow> t | Some e \<Rightarrow> t @ [Critical (''failed to get response headers: '' @ e)]);
          t2 = t1 @ map (\<lambda>(k, v). Info (''response header <-- '' @ k @ '': '' @ v)) hs
      in t2 @ [case command of Inl e \<Rightarrow> Stdout e | Inr m \<Rightarrow> Stdout m])"

definition OnHttpStreamDone :: "u32 \<Rightarrow> filter_event list \<Rightarrow> filter_event list" where
  "OnHttpStreamDone contextID t = t @ [Info (dec_string (unat contextID) @ '' finished'')]"

section \<open>Properties\<close>

text \<open>The bodies of all requests together are a part of the one body.\<close>

lemma h2_rounds_bodies:
  "concat (map rq_body (rq_sent (h2_rounds as s))) @ buffer_left (h2_rounds as s) =
   concat (map rq_body (rq_sent s)) @ buffer_left s"
proof (induction as arbitrary: s)
  case (Cons a as)
  have "concat (map rq_body (rq_sent (h2_round a s))) @ buffer_left (h2_round a s) =
        concat (map rq_body (rq_sent s)) @ buffer_left s"
    by (simp add: h2_round_def Let_def split: option.split)
  with Cons.IH [of "h2_round a s"] show ?case by (simp add: h2_rounds_def)
qed (simp add: h2_rounds_def)

lemma h2_rounds_lengths:
  "list_all (\<lambda>rq. rq_length rq = length post_body) (rq_sent s) \<Longrightarrow>
   list_all (\<lambda>rq. rq_length rq = length post_body) (rq_sent (h2_rounds as s))"
proof (induction as arbitrary: s)
  case (Cons a as)
  have "list_all (\<lambda>rq. rq_length rq = length post_body) (rq_sent (h2_round a s))"
    using Cons.prems by (simp add: h2_round_def Let_def split: option.split)
  with Cons.IH [of "h2_round a s"] show ?case by (simp add: h2_rounds_def)
qed (simp add: h2_rounds_def)


definition demo_answer :: h2_answer where
  "demo_answer = \<lparr>taken_bytes = 100, do_err = None, status = ''200 OK'', header_text = ''map[]'', resp_body = []\<rparr>"


text \<open>The greeter client prints the greeting the server makes of the name.\<close>

lemma greeter_greets:
  "greeter_client None name (\<lambda>n. Inr (fst (SayHello n []))) =
     (0, [''Greeting: Hello '' @ (case name of None \<Rightarrow> ''world'' | Some n \<Rightarrow> n)])"
  by (cases name) (simp_all add: greeter_client_def SayHello_def)

text \<open>With a proxy whose replacement is seen by the next query the filter logs the header it has set.\<close>

lemma filter_logs_test_header:
  assumes "replace_header host ''test'' ''best'' h = (None, h1)" "get_headers host h1 = (hs, None)" "(''test'', ''best'') \<in> set hs"
  shows "Info ''request header --> test: best'' \<in> set (snd (OnHttpRequestHeaders host h t))"
  using assms by (force simp: OnHttpRequestHeaders_def)

end
