(* ===== verification/Go_Tls.thy ===== *)
theory Go_Tls
  imports C_Lib
begin

text \<open>
  The TLS server and client (\<open>crypto/server/tls_server.go\<close>, \<open>crypto/client/tls_client.go\<close>): the configurations they build from
  their flags, the server's loop for one connection and the client's loop. Certificates, the TLS library and the network are
  parameters; an error is its text. \<open>Log\<close> lines carry the prefix of the logger, which is left out.
\<close>

section \<open>Configuration\<close>

record tls_flags =
  fl_ip :: string
  fl_port :: string
  fl_crt :: string
  fl_key :: string
  fl_caCrt :: string
  fl_insecure :: string

definition server_flags :: tls_flags where
  "server_flags = \<lparr>fl_ip = ''0.0.0.0'', fl_port = ''3000'', fl_crt = ''selfSigned.cert'', fl_key = ''private.pem'', fl_caCrt = [],
     fl_insecure = ''false''\<rparr>"

definition client_flags :: tls_flags where
  "client_flags = \<lparr>fl_ip = ''0.0.0.0'', fl_port = ''3000'', fl_crt = ''../server/selfSigned.cert'', fl_key = ''../server/private.pem'',
     fl_caCrt = [], fl_insecure = ''false''\<rparr>"

definition VersionTLS11 :: nat where "VersionTLS11 = 770"
definition VersionTLS12 :: nat where "VersionTLS12 = 771"
definition VersionTLS13 :: nat where "VersionTLS13 = 772"

text \<open>A minimum version of 0 is the default of the library.\<close>

record ('c, 'p) tls_config =
  certificates :: "'c list"
  root_cas :: "'p option"
  min_version :: nat
  insecure_skip_verify :: bool

datatype go_line = Out string | Log string

text \<open>How a program leaves its set-up: it returns, it exits with 1, or it goes on with a configuration.\<close>

datatype 'a outcome = Returns "go_line list" | Fatal "go_line list" | Goes 'a "go_line list"

record ('c, 'p) tls_env =
  load_pair :: "string \<Rightarrow> string \<Rightarrow> string + 'c"
  read_pool :: "string \<Rightarrow> string + 'p"
  listen_err :: "string option"

definition printTlsConfig :: "('c, 'p) tls_config \<Rightarrow> string" where
  "printTlsConfig config =
     (let tlsVersion = (if min_version config = VersionTLS11 then ''TLS 1.1''
                        else if min_version config = VersionTLS12 then ''TLS 1.2''
                        else if min_version config = VersionTLS13 then ''TLS 1.3'' else []);
          insecure = (if insecure_skip_verify config then ''true'' else ''false'')
      in ''TLS Config'' @ [CHR 0x0A] @ '' minVersion : '' @ tlsVersion @ [CHR 0x09] @ ''Insecure:'' @ insecure)"

definition tls_server_setup :: "('c, 'p) tls_env \<Rightarrow> tls_flags \<Rightarrow> ('c, 'p) tls_config outcome" where
  "tls_server_setup env fl =
     (let t = [Out (''listening on '' @ fl_ip fl @ '':'' @ fl_port fl)] in
      case load_pair env (fl_crt fl) (fl_key fl) of
        Inl e \<Rightarrow> Returns (t @ [Log e])
      | Inr cer \<Rightarrow>
          let insecure = (fl_insecure fl = ''true'');
              finish = (\<lambda>config t1.
                let t2 = t1 @ [Out (printTlsConfig config)]
                in case listen_err env of Some e \<Rightarrow> Returns (t2 @ [Log e]) | None \<Rightarrow> Goes config t2)
          in if fl_caCrt fl = [] then
               finish \<lparr>certificates = [cer], root_cas = None, min_version = VersionTLS12, insecure_skip_verify = insecure\<rparr> t
             else
               let t1 = t @ [Out (''Using ca cert '' @ fl_caCrt fl)] in
               (case read_pool env (fl_caCrt fl) of
                  Inl e \<Rightarrow> Fatal (t1 @ [Log e])
                | Inr pool \<Rightarrow>
                    finish \<lparr>certificates = [cer], root_cas = Some pool, min_version = VersionTLS12, insecure_skip_verify = insecure\<rparr> t1))"

definition tls_client_setup :: "('c, 'p) tls_env \<Rightarrow> tls_flags \<Rightarrow> ('c, 'p) tls_config outcome" where
  "tls_client_setup env fl =
     (let t = [Out (''sending to '' @ fl_ip fl @ '':'' @ fl_port fl)] in
      case load_pair env (fl_crt fl) (fl_key fl) of
        Inl e \<Rightarrow> Fatal (t @ [Log e])
      | Inr cert \<Rightarrow>
          let insecure = (fl_insecure fl = ''true'');
              t1 = (if insecure then t @ [Out ''Insecure TLS''] else t)
          in if fl_caCrt fl \<noteq> [] then
               (case read_pool env (fl_caCrt fl) of
                  Inl e \<Rightarrow> Fatal (t1 @ [Log e])
                | Inr pool \<Rightarrow>
                    Goes \<lparr>certificates = [cert], root_cas = Some pool, min_version = 0, insecure_skip_verify = insecure\<rparr> t1)
             else Goes \<lparr>certificates = [cert], root_cas = None, min_version = VersionTLS12, insecure_skip_verify = insecure\<rparr> t1)"

section \<open>The server's connections\<close>

text \<open>The results of the \<open>n\<close>-th \<open>ReadString\<close> and of the write that may follow it.\<close>

record conn_io =
  reads :: "nat \<Rightarrow> string \<times> string option"
  writes :: "nat \<Rightarrow> int \<times> string option"

record conn_state =
  conn_out :: "go_line list"
  replies :: nat

definition conn_round :: "conn_io \<Rightarrow> nat \<Rightarrow> conn_state \<Rightarrow> conn_state + conn_state" where
  "conn_round io n s =
     (let (msg, err) = reads io n in
      case err of
        Some e \<Rightarrow> Inl (s\<lparr>conn_out := conn_out s @ [Out (''errored - '' @ e)]\<rparr>)
      | None \<Rightarrow>
          let t1 = conn_out s @ (if msg = [] then [Out ''empty message''] else []) @ [Out msg];
              (k, werr) = writes io n
          in case werr of
               Some e \<Rightarrow> Inr (s\<lparr>conn_out := t1 @ [Log (show_int k @ '' '' @ e)]\<rparr>)
             | None \<Rightarrow> Inl (s\<lparr>conn_out := t1 @ [Out ''Replied''], replies := replies s + 1\<rparr>))"

text \<open>\<open>None\<close>: the handler never returns and its deferred close never runs.\<close>

definition handleConnection :: "conn_io \<Rightarrow> conn_state option" where
  "handleConnection io = loop_from (conn_round io) 0 \<lparr>conn_out = [], replies = 0\<rparr>"

text \<open>The accept loop: an error is logged, a connection is given to a goroutine of its own.\<close>

fun accept_loop :: "(string + 'conn) list \<Rightarrow> 'conn list \<times> go_line list" where
  "accept_loop [] = ([], [])"
| "accept_loop (Inl e # as) = (case accept_loop as of (cs, t) \<Rightarrow> (cs, Log e # t))"
| "accept_loop (Inr c # as) = (case accept_loop as of (cs, t) \<Rightarrow> (c # cs, t))"

section \<open>The client's loop\<close>

record client_round =
  dial :: "string option"
  hello :: "int \<times> string option"
  answer :: "string \<times> string option"

text \<open>\<open>deferred\<close> are the connections whose close waits for the return of \<open>main\<close>.\<close>

record tls_client =
  deferred :: nat
  hellos :: nat
  tls_out :: "go_line list"
  returned :: bool

definition tls_client_round :: "client_round \<Rightarrow> tls_client \<Rightarrow> tls_client" where
  "tls_client_round r s =
     (if returned s then s
      else
        let s0 = s\<lparr>tls_out := tls_out s @ [Out ''sending...'']\<rparr> in
        case dial r of
          Some e \<Rightarrow> s0\<lparr>tls_out := tls_out s0 @ [Log e]\<rparr>
        | None \<Rightarrow>
            let s1 = s0\<lparr>deferred := deferred s0 + 1\<rparr>; (n, werr) = hello r in
            case werr of
              Some e \<Rightarrow> s1\<lparr>tls_out := tls_out s1 @ [Log (show_int n @ '' '' @ e)]\<rparr>
            | None \<Rightarrow>
                let s2 = s1\<lparr>hellos := hellos s1 + 1\<rparr>; (buf, rerr) = answer r; got = take 100 buf in
                case rerr of
                  Some e \<Rightarrow> s2\<lparr>tls_out := tls_out s2 @ [Log (dec_string (length got) @ '' '' @ e)], deferred := 0, returned := True\<rparr>
                | None \<Rightarrow> s2\<lparr>tls_out := tls_out s2 @ [Out got]\<rparr>)"

definition tls_client_rounds :: "client_round list \<Rightarrow> tls_client \<Rightarrow> tls_client" where
  "tls_client_rounds rs s = fold tls_client_round rs s"

definition tls_client_start :: tls_client where
  "tls_client_start = \<lparr>deferred = 0, hellos = 0, tls_out = [], returned = False\<rparr>"

section \<open>Properties\<close>

definition read_succeeds :: "conn_io \<Rightarrow> nat \<Rightarrow> bool" where "read_succeeds io n \<longleftrightarrow> snd (reads io n) = None"
definition write_succeeds :: "conn_io \<Rightarrow> nat \<Rightarrow> bool" where "write_succeeds io n \<longleftrightarrow> snd (writes io n) = None"

definition fatal_round :: "conn_io \<Rightarrow> nat \<Rightarrow> bool" where
  "fatal_round io n \<longleftrightarrow> read_succeeds io n \<and> \<not> write_succeeds io n"

lemma conn_round_goes_on:
  "\<not> fatal_round io n \<Longrightarrow> \<exists>t. conn_round io n s = Inl t \<and> replies t = replies s + (if read_succeeds io n then 1 else 0)"
  by (auto simp: conn_round_def fatal_round_def read_succeeds_def write_succeeds_def Let_def split: prod.splits option.splits)

lemma conn_round_returns: "fatal_round io n \<Longrightarrow> \<exists>t. conn_round io n s = Inr t \<and> replies t = replies s"
  by (auto simp: conn_round_def fatal_round_def read_succeeds_def write_succeeds_def Let_def split: prod.splits option.splits)

lemma keeps_on_conn:
  "\<forall>i<k. \<not> fatal_round io (n + i) \<Longrightarrow>
   \<exists>t. keeps_on (conn_round io) n k s = Some t \<and> replies t = replies s + length (filter (read_succeeds io) [n..<n + k])"
proof (induction k arbitrary: n s)
  case (Suc k)
  have up: "[n..<n + Suc k] = n # [Suc n..<Suc n + k]" by (simp add: upt_conv_Cons del: upt_Suc)
  from Suc.prems have "\<not> fatal_round io n" "\<forall>i<k. \<not> fatal_round io (Suc n + i)" by (auto simp: All_less_Suc2)
  with conn_round_goes_on [of io n s] obtain t where t: "conn_round io n s = Inl t"
    "replies t = replies s + (if read_succeeds io n then 1 else 0)" by blast
  from Suc.IH [OF \<open>\<forall>i<k. \<not> fatal_round io (Suc n + i)\<close>, of t] t show ?case
    unfolding up by (auto simp del: upt_Suc)
qed simp

lemma keeps_on_conn_only: "keeps_on (conn_round io) n k s = Some t \<Longrightarrow> i < k \<Longrightarrow> \<not> fatal_round io (n + i)"
proof (induction k arbitrary: n s i)
  case (Suc k)
  have "\<not> fatal_round io n" using Suc.prems(1) conn_round_returns [of io n s] by auto
  then obtain u where "conn_round io n s = Inl u" using conn_round_goes_on by blast
  with Suc.IH [of "Suc n" u "i - 1"] Suc.prems \<open>\<not> fatal_round io n\<close> show ?case by (cases i) simp_all
qed simp

text \<open>C22. The server's handler of a connection returns, and so closes it, exactly when a write fails after a read that succeeded, with one
  reply for each message before. A failing read is only printed: when the peer has closed the connection the handler goes on
  reading and printing for ever.
\<close>

theorem tls_connection_returns:
  "(handleConnection io = None \<longleftrightarrow> (\<forall>n. \<not> fatal_round io n)) \<and>
   (\<forall>n. fatal_round io n \<and> (\<forall>i<n. \<not> fatal_round io i) \<longrightarrow>
      (\<exists>s. handleConnection io = Some s \<and> replies s = length (filter (read_succeeds io) [0..<n])))"
proof (intro conjI allI impI)
  show "handleConnection io = None \<longleftrightarrow> (\<forall>n. \<not> fatal_round io n)"
  proof
    assume "handleConnection io = None"
    then have "\<exists>t. keeps_on (conn_round io) 0 (Suc n) \<lparr>conn_out = [], replies = 0\<rparr> = Some t" for n
      unfolding handleConnection_def loop_from_None by blast
    then show "\<forall>n. \<not> fatal_round io n" using keeps_on_conn_only [of io 0] by (metis add_0 lessI)
  next
    assume "\<forall>n. \<not> fatal_round io n"
    then show "handleConnection io = None"
      unfolding handleConnection_def loop_from_None using keeps_on_conn [of _ io 0] by fastforce
  qed
next
  fix n assume n: "fatal_round io n \<and> (\<forall>i<n. \<not> fatal_round io i)"
  with keeps_on_conn [of n io 0 "\<lparr>conn_out = [], replies = 0\<rparr>"] obtain t where
    t: "keeps_on (conn_round io) 0 n \<lparr>conn_out = [], replies = 0\<rparr> = Some t" "replies t = length (filter (read_succeeds io) [0..<n])" by auto
  from n conn_round_returns [of io n t] obtain u where "conn_round io (0 + n) t = Inr u" "replies u = replies t" by auto
  with t loop_from_returns [OF t(1), of u] show "\<exists>s. handleConnection io = Some s \<and> replies s = length (filter (read_succeeds io) [0..<n])"
    by (simp add: handleConnection_def)
qed

text \<open>A peer that says hello and closes.\<close>

definition closing_io :: conn_io where
  "closing_io = \<lparr>reads = (\<lambda>n. if n = 0 then (''hello'' @ [CHR 0x0A], None) else ([], Some ''EOF'')), writes = (\<lambda>n. (6, None))\<rparr>"

theorem tls_connection_returns_witness: "handleConnection closing_io = None"
proof -
  have "\<forall>n. \<not> fatal_round closing_io n" by (simp add: fatal_round_def write_succeeds_def closing_io_def)
  with tls_connection_returns [of closing_io] show ?thesis by simp
qed

section \<open>The client\<close>

lemma tls_client_round_open:
  "\<not> returned s \<Longrightarrow> returned (tls_client_round r s) \<or>
   deferred (tls_client_round r s) = deferred s + (if dial r = None then 1 else 0)"
  by (auto simp: tls_client_round_def Let_def split: option.splits prod.splits)

text \<open>Until it returns, the client has one open connection for every dial that succeeded.\<close>

lemma tls_client_leaks:
  "\<not> returned (tls_client_rounds rs s) \<Longrightarrow>
   deferred (tls_client_rounds rs s) = deferred s + length (filter (\<lambda>r. dial r = None) rs)"
proof (induction rs arbitrary: s)
  case (Cons r rs)
  have stay: "returned u \<Longrightarrow> returned (fold tls_client_round rs u)" for u
    by (induction rs arbitrary: u) (simp_all add: tls_client_round_def)
  have "\<not> returned (tls_client_round r s)" using Cons.prems stay by (auto simp: tls_client_rounds_def)
  moreover from this have "\<not> returned s" by (auto simp: tls_client_round_def)
  ultimately show ?case
    using Cons tls_client_round_open [of s r] by (simp add: tls_client_rounds_def)
qed (simp add: tls_client_rounds_def)

text \<open>With a certificate authority the client leaves the minimum version to the library; the server always asks for TLS 1.2.\<close>

lemma tls_min_versions:
  "tls_client_setup env fl = Goes c t \<Longrightarrow> min_version c = (if fl_caCrt fl = [] then VersionTLS12 else 0)"
  "tls_server_setup env' fl = Goes d t \<Longrightarrow> min_version d = VersionTLS12"
  by (auto simp: tls_client_setup_def tls_server_setup_def Let_def split: sum.splits if_splits option.splits)

end
