(* ===== verification/Operator_Utils.thy ===== *)
theory Operator_Utils
  imports C_Lib
begin

text \<open>
  The utilities of the operator's tests (\<open>k8s/example-operator/test/utils/utils.go\<close>): running \<open>kubectl\<close> and \<open>kind\<close> in the
  directory of the project, searching their output, and uncommenting a block of a file. Files and commands are parameters.
\<close>

section \<open>Text of the standard library\<close>

definition LF :: char where "LF = CHR 0x0A"

text \<open>\<open>strings.Contains\<close> and \<open>strings.TrimPrefix\<close>.\<close>

definition str_contains :: "string \<Rightarrow> string \<Rightarrow> bool" where
  "str_contains s sub \<longleftrightarrow> strstr s sub \<noteq> None"

definition TrimPrefix :: "string \<Rightarrow> string \<Rightarrow> string" where
  "TrimPrefix s pre = (if take (length pre) s = pre then drop (length pre) s else s)"

text \<open>
  \<open>bufio.Scanner\<close> over lines: a carriage return before the line feed is dropped, nothing follows a final line feed, and a line that
  does not fit the buffer of 65536 bytes ends the scan.
\<close>

definition MaxScanTokenSize :: nat where "MaxScanTokenSize = 65536"

definition drop_cr :: "string \<Rightarrow> string" where
  "drop_cr l = (if l \<noteq> [] \<and> last l = CHR 0x0D then butlast l else l)"

definition scan_lines :: "string \<Rightarrow> string list" where
  "scan_lines t =
     (let ls = split_on LF t;
          ls1 = (if last ls = [] then butlast ls else ls)
      in map drop_cr (takeWhile (\<lambda>l. length l < MaxScanTokenSize) ls1))"

fun join_lines :: "string list \<Rightarrow> string" where
  "join_lines [] = []"
| "join_lines [l] = l"
| "join_lines (l # ls) = l @ LF # join_lines ls"

text \<open>\<open>strings.ReplaceAll\<close> for a pattern that is not empty.\<close>

function remove_all :: "string \<Rightarrow> string \<Rightarrow> string" where
  "remove_all pat [] = []"
| "remove_all pat (c # s) =
     (if pat \<noteq> [] \<and> take (length pat) (c # s) = pat then remove_all pat (drop (length pat) (c # s)) else c # remove_all pat s)"
  by pat_completeness auto
termination by (relation "measure (\<lambda>(pat, s). length s)") (auto simp: Suc_le_eq)

section \<open>Commands\<close>

text \<open>
  A command has its arguments, the name of the program first, its directory and its environment. The operating system is a
  parameter: what \<open>os.Getwd\<close> and \<open>os.Chdir\<close> answer, the environment, and the combined output and error of a command, which
  may depend on the commands that ran before. The world holds the current directory, the commands and what \<open>GinkgoWriter\<close> is given.
\<close>

record op_cmd =
  cmd_args :: "string list"
  cmd_dir :: string
  cmd_env :: "string list"

record op_os =
  os_getwd :: "string \<Rightarrow> string \<times> string option"
  os_chdir :: "string \<Rightarrow> string option"
  os_env :: "(string \<times> string) list"
  os_output :: "op_cmd list \<Rightarrow> op_cmd \<Rightarrow> string \<times> string option"

text \<open>The error of \<open>Run\<close> wraps the command line, its output and the error of the command.\<close>

datatype run_error = RunFailed string string string

datatype op_line = ChdirFailed string | Running string | Warning run_error

record op_world =
  op_cwd :: string
  op_ran :: "op_cmd list"
  op_written :: "op_line list"

definition op_write :: "op_line \<Rightarrow> op_world \<Rightarrow> op_world" where
  "op_write l w = w\<lparr>op_written := op_written w @ [l]\<rparr>"

definition warnError :: "run_error \<Rightarrow> op_world \<Rightarrow> op_world" where
  "warnError e w = op_write (Warning e) w"

definition GetProjectDir :: "op_os \<Rightarrow> op_world \<Rightarrow> string \<times> string option" where
  "GetProjectDir os w =
     (case os_getwd os (op_cwd w) of
        (wd, Some e) \<Rightarrow> (wd, Some (''failed to get current working directory: '' @ e))
      | (wd, None) \<Rightarrow> (remove_all ''/test/e2e'' wd, None))"

fun join_args :: "string list \<Rightarrow> string" where
  "join_args [] = []"
| "join_args [a] = a"
| "join_args (a # as) = a @ '' '' @ join_args as"

definition Run :: "op_os \<Rightarrow> string list \<Rightarrow> op_world \<Rightarrow> (string \<times> run_error option) \<times> op_world" where
  "Run os args w =
     (let (dir, _) = GetProjectDir os w;
          w1 = (case os_chdir os dir of Some e \<Rightarrow> op_write (ChdirFailed e) w | None \<Rightarrow> w\<lparr>op_cwd := dir\<rparr>);
          cmd = \<lparr>cmd_args = args, cmd_dir = dir, cmd_env = map (\<lambda>(k, v). k @ ''='' @ v) (os_env os) @ [''GO111MODULE=on'']\<rparr>;
          command = join_args args;
          w2 = op_write (Running command) w1;
          (output, err) = os_output os (op_ran w2) cmd
      in ((output, map_option (RunFailed command output) err), w2\<lparr>op_ran := op_ran w2 @ [cmd]\<rparr>))"

definition certmanagerVersion :: string where "certmanagerVersion = ''v1.18.2''"

definition certmanagerURL :: string where
  "certmanagerURL = ''https://github.com/cert-manager/cert-manager/releases/download/'' @ certmanagerVersion @ ''/cert-manager.yaml''"

definition defaultKindBinary :: string where "defaultKindBinary = ''kind''"
definition defaultKindCluster :: string where "defaultKindCluster = ''kind''"

definition run_warn :: "op_os \<Rightarrow> string list \<Rightarrow> op_world \<Rightarrow> op_world" where
  "run_warn os args w = (case Run os args w of ((_, Some e), w') \<Rightarrow> warnError e w' | ((_, None), w') \<Rightarrow> w')"

definition kubeSystemLeases :: "string list" where
  "kubeSystemLeases = [''cert-manager-cainjector-leader-election'', ''cert-manager-controller'']"

definition delete_args :: "string list" where
  "delete_args = [''kubectl'', ''delete'', ''-f'', certmanagerURL]"

definition lease_args :: "string \<Rightarrow> string list" where
  "lease_args lease =
     [''kubectl'', ''delete'', ''lease'', lease, ''-n'', ''kube-system'', ''--ignore-not-found'', ''--force'', ''--grace-period=0'']"

definition UninstallCertManager :: "op_os \<Rightarrow> op_world \<Rightarrow> op_world" where
  "UninstallCertManager os w = fold (\<lambda>lease. run_warn os (lease_args lease)) kubeSystemLeases (run_warn os delete_args w)"

definition apply_args :: "string list" where
  "apply_args = [''kubectl'', ''apply'', ''-f'', certmanagerURL]"

definition wait_args :: "string list" where
  "wait_args = [''kubectl'', ''wait'', ''deployment.apps/cert-manager-webhook'', ''--for'', ''condition=Available'',
     ''--namespace'', ''cert-manager'', ''--timeout'', ''5m'']"

definition InstallCertManager :: "op_os \<Rightarrow> op_world \<Rightarrow> run_error option \<times> op_world" where
  "InstallCertManager os w =
     (case Run os apply_args w of
        ((_, Some e), w1) \<Rightarrow> (Some e, w1)
      | ((_, None), w1) \<Rightarrow> (case Run os wait_args w1 of ((_, err), w2) \<Rightarrow> (err, w2)))"

definition GetNonEmptyLines :: "string \<Rightarrow> string list" where
  "GetNonEmptyLines output = filter (\<lambda>e. e \<noteq> []) (split_on LF output)"

definition certManagerCRDs :: "string list" where
  "certManagerCRDs = [''certificates.cert-manager.io'', ''issuers.cert-manager.io'', ''clusterissuers.cert-manager.io'',
     ''certificaterequests.cert-manager.io'', ''orders.acme.cert-manager.io'', ''challenges.acme.cert-manager.io'']"

definition crds_args :: "string list" where
  "crds_args = [''kubectl'', ''get'', ''crds'']"

definition IsCertManagerCRDsInstalled :: "op_os \<Rightarrow> op_world \<Rightarrow> bool \<times> op_world" where
  "IsCertManagerCRDsInstalled os w =
     (case Run os crds_args w of
        ((_, Some _), w') \<Rightarrow> (False, w')
      | ((output, None), w') \<Rightarrow>
          (list_ex (\<lambda>crd. list_ex (\<lambda>line. str_contains line crd) (GetNonEmptyLines output)) certManagerCRDs, w'))"

definition LookupEnv :: "op_os \<Rightarrow> string \<Rightarrow> string option" where
  "LookupEnv os key = map_of (os_env os) key"

definition load_args :: "op_os \<Rightarrow> string \<Rightarrow> string list" where
  "load_args os name =
     (let cluster = (case LookupEnv os ''KIND_CLUSTER'' of Some v \<Rightarrow> v | None \<Rightarrow> defaultKindCluster);
          kindOptions = [''load'', ''docker-image'', name, ''--name'', cluster];
          kindBinary = (case LookupEnv os ''KIND'' of Some v \<Rightarrow> v | None \<Rightarrow> defaultKindBinary)
      in kindBinary # kindOptions)"

definition LoadImageToKindClusterWithName :: "op_os \<Rightarrow> string \<Rightarrow> op_world \<Rightarrow> run_error option \<times> op_world" where
  "LoadImageToKindClusterWithName os name w = (case Run os (load_args os name) w of ((_, err), w') \<Rightarrow> (err, w'))"

section \<open>Editing a file\<close>

datatype uncomment = ReadFailed | NotFound | Unchanged | WriteFailed | Written string

definition UncommentCode :: "string option \<Rightarrow> bool \<Rightarrow> string \<Rightarrow> string \<Rightarrow> uncomment" where
  "UncommentCode file can_write target prefix =
     (case file of
        None \<Rightarrow> ReadFailed
      | Some content \<Rightarrow>
          (case strstr content target of
             None \<Rightarrow> NotFound
           | Some found \<Rightarrow>
               let idx = length content - length found; ls = scan_lines target in
               if ls = [] then Unchanged
               else
                 let out = take idx content @ join_lines (map (\<lambda>l. TrimPrefix l prefix) ls) @ drop (idx + length target) content
                 in if can_write then Written out else WriteFailed))"

section \<open>Uncommenting\<close>

lemma split_on_join:
  "ls \<noteq> [] \<Longrightarrow> list_all (\<lambda>l. LF \<notin> set l) ls \<Longrightarrow> split_on LF (join_lines ls) = ls"
  by (induction ls rule: join_lines.induct) (simp_all add: split_on_no_sep split_on_append_sep)

lemma strstr_Some: "strstr s sub = Some t \<Longrightarrow> \<exists>pre post. s = pre @ t \<and> t = sub @ post"
proof (induction s)
  case (Cons x xs)
  show ?case
  proof (cases "take (length sub) (x # xs) = sub")
    case True
    then obtain zs where "x # xs = sub @ zs" using take_length_eq_prefix by blast
    moreover from True Cons.prems have "t = x # xs" by simp
    ultimately show ?thesis by (intro exI [of _ "[]"] exI [of _ zs]) simp
  next
    case False
    with Cons obtain pre post where "xs = pre @ t" "t = sub @ post" by auto
    then show ?thesis by (intro exI [of _ "x # pre"] exI [of _ post]) simp
  qed
qed (auto split: if_splits)

text \<open>The lines that a commented block consists of.\<close>

definition plain_line :: "string \<Rightarrow> bool" where
  "plain_line l \<longleftrightarrow> LF \<notin> set l \<and> (l = [] \<or> last l \<noteq> CHR 0x0D) \<and> length l < MaxScanTokenSize"

lemma scan_commented:
  assumes "ls \<noteq> []" "prefix \<noteq> []" "list_all (\<lambda>l. plain_line (prefix @ l)) ls"
  shows "scan_lines (join_lines (map ((@) prefix) ls)) = map ((@) prefix) ls"
proof -
  define cs where "cs = map ((@) prefix) ls"
  have plain: "list_all plain_line cs" using assms(3) by (simp add: cs_def list_all_iff)
  then have "split_on LF (join_lines cs) = cs"
    using assms(1) by (intro split_on_join) (auto simp: cs_def list_all_iff plain_line_def)
  moreover have "last cs \<noteq> []" using assms(1,2) by (simp add: cs_def last_map)
  moreover have "map drop_cr (takeWhile (\<lambda>l. length l < MaxScanTokenSize) cs) = map drop_cr cs"
    using plain by (intro arg_cong [of _ _ "map drop_cr"]) (auto simp: takeWhile_eq_all_conv list_all_iff plain_line_def)
  moreover have "map drop_cr cs = cs"
    using plain by (intro map_idI) (auto simp: list_all_iff plain_line_def drop_cr_def)
  ultimately show ?thesis unfolding scan_lines_def Let_def cs_def by presburger
qed

text \<open>A block of lines that all carry the comment prefix is uncommented: the file is written with the first occurrence of the
  block replaced by its lines without the prefix, once removed each, and everything around it kept; a file without the
  block is not written.
\<close>

theorem UncommentCode_spec:
  assumes "ls \<noteq> []" "prefix \<noteq> []" "list_all (\<lambda>l. plain_line (prefix @ l)) ls"
  defines "target \<equiv> join_lines (map ((@) prefix) ls)"
  shows "case strstr content target of
     None \<Rightarrow> UncommentCode (Some content) True target prefix = NotFound
   | Some found \<Rightarrow>
       \<exists>pre post. content = pre @ target @ post \<and> found = target @ post \<and>
         UncommentCode (Some content) True target prefix = Written (pre @ join_lines ls @ post)"
proof (cases "strstr content target")
  case (Some found)
  from strstr_Some [OF Some] obtain pre post where c: "content = pre @ found" "found = target @ post" by blast
  have "map (\<lambda>l. TrimPrefix l prefix) (map ((@) prefix) ls) = ls" by (simp add: TrimPrefix_def comp_def)
  with Some c assms(1) scan_commented [OF assms(1-3)]
  have "UncommentCode (Some content) True target prefix = Written (pre @ join_lines ls @ post)"
    by (simp add: UncommentCode_def Let_def flip: target_def)
  with Some c show ?thesis by auto
qed (simp add: UncommentCode_def)

theorem UncommentCode_spec_witness:
  "UncommentCode (Some (''a'' @ [LF] @ ''#x'' @ [LF] @ ''##y'' @ [LF] @ ''b'')) True (''#x'' @ [LF] @ ''##y'') ''#'' =
     Written (''a'' @ [LF] @ ''x'' @ [LF] @ ''#y'' @ [LF] @ ''b'')"
proof -
  let ?c = "''a'' @ [LF] @ ''#x'' @ [LF] @ ''##y'' @ [LF] @ ''b''"
  have t: "join_lines (map ((@) ''#'') [''x'', ''#y'']) = ''#x'' @ [LF] @ ''##y''" by simp
  have "strstr ?c (''#x'' @ [LF] @ ''##y'') = Some (''#x'' @ [LF] @ ''##y'' @ [LF] @ ''b'')" by (simp add: LF_def)
  moreover have "list_all (\<lambda>l. plain_line (''#'' @ l)) [''x'', ''#y'']"
    by (simp add: plain_line_def LF_def MaxScanTokenSize_def)
  ultimately obtain pre post where "?c = pre @ (''#x'' @ [LF] @ ''##y'') @ post"
    "''#x'' @ [LF] @ ''##y'' @ [LF] @ ''b'' = (''#x'' @ [LF] @ ''##y'') @ post"
    "UncommentCode (Some ?c) True (''#x'' @ [LF] @ ''##y'') ''#'' = Written (pre @ join_lines [''x'', ''#y''] @ post)"
    using UncommentCode_spec [of "[''x'', ''#y'']" "''#''" ?c, unfolded t] by auto
  then show ?thesis by simp
qed

section \<open>Searching the output\<close>

lemma str_contains_iff: "str_contains s sub \<longleftrightarrow> (\<exists>ys zs. s = ys @ sub @ zs)"
  by (simp add: str_contains_def strstr_None)

lemma contains_across:
  assumes "c \<notin> set sub"
  shows "str_contains (as @ c # bs) sub \<longleftrightarrow> str_contains as sub \<or> str_contains bs sub"
proof
  assume "str_contains (as @ c # bs) sub"
  then obtain ys zs where eq: "as @ c # bs = ys @ sub @ zs" by (auto simp: str_contains_iff)
  then consider us where "as = ys @ us" "us @ c # bs = sub @ zs" | us where "ys = as @ us" "c # bs = us @ sub @ zs"
    by (auto simp: append_eq_append_conv2)
  then show "str_contains as sub \<or> str_contains bs sub"
  proof cases
    case 1
    then consider vs where "us = sub @ vs" | vs where "sub = us @ vs" "c # bs = vs @ zs" "vs \<noteq> []"
      by (cases "length us < length sub") (auto simp: append_eq_append_conv2)
    then show ?thesis
    proof cases
      case (1 vs)
      with \<open>as = ys @ us\<close> show ?thesis by (auto simp: str_contains_iff)
    next
      case (2 vs)
      then have "c \<in> set sub" by (cases vs) auto
      with assms show ?thesis by simp
    qed
  next
    case (2 us)
    show ?thesis
    proof (cases us)
      case Nil
      with 2 assms have "sub = []" by (cases sub) auto
      then show ?thesis by (auto simp: str_contains_iff)
    next
      case (Cons u ws)
      with 2 show ?thesis by (auto simp: str_contains_iff)
    qed
  qed
next
  assume "str_contains as sub \<or> str_contains bs sub"
  then consider ys zs where "as = ys @ sub @ zs" | ys zs where "bs = ys @ sub @ zs" by (auto simp: str_contains_iff)
  then show "str_contains (as @ c # bs) sub"
  proof cases
    case (1 ys zs)
    then have "as @ c # bs = ys @ sub @ (zs @ c # bs)" by simp
    then show ?thesis by (auto simp: str_contains_iff)
  next
    case (2 ys zs)
    then have "as @ c # bs = (as @ c # ys) @ sub @ zs" by simp
    then show ?thesis unfolding str_contains_iff by blast
  qed
qed

lemma contains_lines:
  assumes "c \<notin> set sub"
  shows "(\<exists>l\<in>set (split_on c s). str_contains l sub) \<longleftrightarrow> str_contains s sub"
proof (induction "length s" arbitrary: s rule: less_induct)
  case less
  show ?case
  proof (cases "c \<in> set s")
    case True
    then obtain as bs where s: "s = as @ c # bs" "c \<notin> set as" by (meson split_list_first)
    with less [of bs] show ?thesis by (simp add: split_on_append_sep split_on_no_sep contains_across [OF assms])
  qed (simp add: split_on_no_sep)
qed

lemma crds_found_iff:
  "list_ex (\<lambda>crd. list_ex (\<lambda>line. str_contains line crd) (GetNonEmptyLines out)) certManagerCRDs \<longleftrightarrow>
     (\<exists>crd\<in>set certManagerCRDs. str_contains out crd)"
proof -
  have no: "LF \<notin> set crd" "crd \<noteq> []" if "crd \<in> set certManagerCRDs" for crd
    using that by (auto simp: certManagerCRDs_def LF_def)
  have "(\<exists>l\<in>set (GetNonEmptyLines out). str_contains l crd) \<longleftrightarrow> str_contains out crd" if "crd \<in> set certManagerCRDs" for crd
    using contains_lines [OF no(1) [OF that], of out] no(2) [OF that]
    by (auto simp: GetNonEmptyLines_def str_contains_iff)
  then show ?thesis by (auto simp: list_ex_iff)
qed

text \<open>Looking line by line finds a definition exactly when its name stands anywhere in the output; a failed command finds none.\<close>

lemma IsCertManagerCRDsInstalled_iff:
  "fst (IsCertManagerCRDsInstalled os w) \<longleftrightarrow>
     (case fst (Run os crds_args w) of (out, err) \<Rightarrow> err = None \<and> (\<exists>crd\<in>set certManagerCRDs. str_contains out crd))"
  by (simp add: IsCertManagerCRDsInstalled_def crds_found_iff split: prod.split option.split)

section \<open>Which commands run, and where\<close>

lemma remove_all_free: "\<not> str_contains s pat \<Longrightarrow> remove_all pat s = s"
proof (induction pat s rule: remove_all.induct)
  case (2 pat c s)
  have "take (length pat) (c # s) \<noteq> pat"
  proof
    assume "take (length pat) (c # s) = pat"
    then obtain zs where "c # s = [] @ pat @ zs" using take_length_eq_prefix by (metis append_Nil)
    with "2.prems" show False unfolding str_contains_iff by blast
  qed
  moreover have "\<not> str_contains s pat"
  proof
    assume "str_contains s pat"
    then obtain ys zs where "s = ys @ pat @ zs" by (auto simp: str_contains_iff)
    then have "c # s = (c # ys) @ pat @ zs" by simp
    with "2.prems" show False unfolding str_contains_iff by blast
  qed
  ultimately show ?case using "2.IH"(2) by simp
qed simp

text \<open>The end of the tests' directory does not overlap itself, so it is removed from the path of the tests and nothing else is.\<close>

lemma e2e_unbordered:
  assumes "0 < k" "k < length ''/test/e2e''"
  shows "take (length ''/test/e2e'') (take k ''/test/e2e'' @ ''/test/e2e'') \<noteq> ''/test/e2e''"
proof -
  from assms have "k \<in> {1, 2, 3, 4, 5, 6, 7, 8}" by auto
  then show ?thesis by (elim insertE) simp_all
qed

lemma remove_all_e2e: "\<not> str_contains d ''/test/e2e'' \<Longrightarrow> remove_all ''/test/e2e'' (d @ ''/test/e2e'') = d"
proof (induction d)
  case (Cons c d)
  let ?p = "''/test/e2e''"
  have free: "\<not> str_contains d ?p"
    using Cons.prems contains_across [of _ _ "[]"] by (auto simp: str_contains_iff) (metis append_Cons)
  have "take (length ?p) ((c # d) @ ?p) \<noteq> ?p"
  proof
    assume t: "take (length ?p) ((c # d) @ ?p) = ?p"
    show False
    proof (cases "length ?p \<le> length (c # d)")
      case True
      with t have "take (length ?p) (c # d) = ?p" by (simp only: take_append) simp
      then have "c # d = [] @ ?p @ drop (length ?p) (c # d)" by (metis append_Nil append_take_drop_id)
      with Cons.prems show False unfolding str_contains_iff by blast
    next
      case False
      have "take (length (c # d)) (take (length ?p) ((c # d) @ ?p)) = c # d" using False by (simp only: take_take) simp
      with t have "c # d = take (length (c # d)) ?p" by simp
      with t False e2e_unbordered [of "length (c # d)"] show False by (metis length_greater_0_conv list.distinct(1) not_le)
    qed
  qed
  with Cons.IH [OF free] show ?case by (simp del: take_Suc_Cons)
qed simp

text \<open>The calls of the utilities that run commands.\<close>

datatype op_call = CallInstall | CallUninstall | CallInstalled | CallLoad string

fun op_do :: "op_os \<Rightarrow> op_call \<Rightarrow> op_world \<Rightarrow> op_world" where
  "op_do os CallInstall w = snd (InstallCertManager os w)"
| "op_do os CallUninstall w = UninstallCertManager os w"
| "op_do os CallInstalled w = snd (IsCertManagerCRDsInstalled os w)"
| "op_do os (CallLoad name) w = snd (LoadImageToKindClusterWithName os name w)"

definition op_dos :: "op_os \<Rightarrow> op_call list \<Rightarrow> op_world \<Rightarrow> op_world" where
  "op_dos os calls w = fold (op_do os) calls w"

text \<open>The system answers \<open>os.Getwd\<close> with the current directory and lets the project's directory be entered.\<close>

definition enters :: "op_os \<Rightarrow> string \<Rightarrow> bool" where
  "enters os d \<longleftrightarrow> os_getwd os d = (d, None) \<and> os_getwd os (d @ ''/test/e2e'') = (d @ ''/test/e2e'', None) \<and> os_chdir os d = None"

definition in_project :: "string \<Rightarrow> op_world \<Rightarrow> bool" where
  "in_project d w \<longleftrightarrow> op_cwd w \<in> {d, d @ ''/test/e2e''} \<and> list_all (\<lambda>c. cmd_dir c = d) (op_ran w)"

lemma Run_in_project:
  assumes "enters os d" "\<not> str_contains d ''/test/e2e''" "in_project d w"
  shows "in_project d (snd (Run os args w))"
proof -
  have "fst (GetProjectDir os w) = d"
    using assms remove_all_free [OF assms(2)] remove_all_e2e [OF assms(2)]
    by (auto simp: GetProjectDir_def enters_def in_project_def)
  with assms show ?thesis
    by (auto simp: Run_def in_project_def enters_def op_write_def Let_def split: prod.split)
qed

lemma run_warn_in_project:
  "enters os d \<Longrightarrow> \<not> str_contains d ''/test/e2e'' \<Longrightarrow> in_project d w \<Longrightarrow> in_project d (run_warn os args w)"
  using Run_in_project [of os d w args]
  by (auto simp: run_warn_def warnError_def op_write_def in_project_def split: prod.split option.split)

lemma op_do_in_project:
  assumes "enters os d" "\<not> str_contains d ''/test/e2e''" "in_project d w"
  shows "in_project d (op_do os c w)"
proof -
  note R = Run_in_project [OF assms(1,2)]
  note W = run_warn_in_project [OF assms(1,2)]
  show ?thesis
  proof (cases c)
    case CallInstall
    show ?thesis using R [OF assms(3), of apply_args] R [of "snd (Run os apply_args w)" wait_args]
      by (auto simp: CallInstall InstallCertManager_def split: prod.split option.split)
  next
    case CallUninstall
    then show ?thesis by (simp add: UninstallCertManager_def kubeSystemLeases_def W assms(3))
  next
    case CallInstalled
    then show ?thesis using R [OF assms(3), of crds_args]
      by (auto simp: IsCertManagerCRDsInstalled_def split: prod.split option.split)
  next
    case (CallLoad name)
    then show ?thesis using R [OF assms(3), of "load_args os name"]
      by (auto simp: LoadImageToKindClusterWithName_def split: prod.split)
  qed
qed



text \<open>The removal is not idempotent: from a path in which the text is nested the second command runs elsewhere.\<close>

lemma operator_commands_nested:
  defines "os \<equiv> \<lparr>os_getwd = (\<lambda>d. (d, None)), os_chdir = (\<lambda>d. None), os_env = [], os_output = (\<lambda>cs c. ([], None))\<rparr>"
  shows "map cmd_dir (op_ran (op_do os CallInstall \<lparr>op_cwd = ''/p/test/test/e2e/e2e'', op_ran = [], op_written = []\<rparr>)) = [''/p/test/e2e'', ''/p'']"
  by (simp add: os_def InstallCertManager_def Run_def GetProjectDir_def op_write_def Let_def)

text \<open>
  The commands and warnings in order: an installation waits for the webhook only after it was applied, and a removal tries all
  three commands, with one warning after each that fails.
\<close>

definition ran_args :: "op_world \<Rightarrow> string list list" where
  "ran_args w = map cmd_args (op_ran w)"

definition run_errors :: "op_world \<Rightarrow> run_error list" where
  "run_errors w = List.map_filter (\<lambda>l. case l of Warning e \<Rightarrow> Some e | _ \<Rightarrow> None) (op_written w)"

lemma Run_ran_args: "ran_args (snd (Run os args w)) = ran_args w @ [args]"
  by (auto simp: Run_def ran_args_def op_write_def Let_def split: prod.split option.split)

lemma Run_run_errors: "run_errors (snd (Run os args w)) = run_errors w"
  by (auto simp: Run_def run_errors_def op_write_def Let_def map_filter_def split: prod.split option.split)

lemma run_warn_effect:
  "ran_args (run_warn os args w) = ran_args w @ [args]"
  "run_errors (run_warn os args w) = run_errors w @ (case snd (fst (Run os args w)) of None \<Rightarrow> [] | Some e \<Rightarrow> [e])"
  using Run_ran_args [of os args w] Run_run_errors [of os args w]
  by (auto simp: run_warn_def warnError_def op_write_def ran_args_def run_errors_def map_filter_def split: prod.split option.split)

lemma InstallCertManager_order:
  "ran_args (snd (InstallCertManager os w)) =
     ran_args w @ (if snd (fst (Run os apply_args w)) = None then [apply_args, wait_args] else [apply_args])"
  "fst (InstallCertManager os w) =
     (case Run os apply_args w of ((_, Some e), _) \<Rightarrow> Some e | ((_, None), w1) \<Rightarrow> snd (fst (Run os wait_args w1)))"
  using Run_ran_args [of os apply_args w] Run_ran_args [of os wait_args "snd (Run os apply_args w)"]
  by (auto simp: InstallCertManager_def split: prod.split option.split)

lemma UninstallCertManager_order:
  "ran_args (UninstallCertManager os w) = ran_args w @ delete_args # map lease_args kubeSystemLeases"
  by (simp add: UninstallCertManager_def kubeSystemLeases_def run_warn_effect)

lemma LoadImage_args:
  "ran_args (snd (LoadImageToKindClusterWithName os name w)) = ran_args w @ [load_args os name]"
  using Run_ran_args [of os "load_args os name" w] by (auto simp: LoadImageToKindClusterWithName_def split: prod.split)

end
