(* ===== verification/Operator_Main.thy ===== *)
theory Operator_Main
  imports Prelude
begin

text \<open>
  The program of the operator (\<open>k8s/example-operator/cmd/main.go\<close>) and its reconciler
  (\<open>internal/controller/redis_controller.go\<close>), with the registration of the API types (\<open>api/v1alpha1\<close>): from the flags to the options of the webhook and metrics servers and of the manager, and
  the steps until the manager runs. The flags have been parsed, by the standard library; the manager is that of
  controller-runtime and a parameter, the errors of its calls.
\<close>

section \<open>Scheme\<close>

text \<open>A scheme knows kinds by group, version and name.\<close>

type_synonym go_kind = "(string \<times> string) \<times> string"

definition GroupVersion :: "string \<times> string" where
  "GroupVersion = (''cache.example.com'', ''v1alpha1'')"

text \<open>The kinds the package's \<open>init\<close> registers with \<open>SchemeBuilder\<close>.\<close>

definition registered_kinds :: "string list" where
  "registered_kinds = [''Redis'', ''RedisList'']"

definition AddToScheme :: "go_kind list \<Rightarrow> go_kind list" where
  "AddToScheme scheme = scheme @ map (Pair GroupVersion) registered_kinds"

section \<open>Flags and options\<close>

record operator_flags =
  metricsAddr :: string
  probeAddr :: string
  enableLeaderElection :: bool
  secureMetrics :: bool
  webhookCertPath :: string
  webhookCertName :: string
  webhookCertKey :: string
  metricsCertPath :: string
  metricsCertName :: string
  metricsCertKey :: string
  enableHTTP2 :: bool

definition default_flags :: operator_flags where
  "default_flags = \<lparr>metricsAddr = ''0'', probeAddr = '':8081'', enableLeaderElection = False, secureMetrics = True,
     webhookCertPath = [], webhookCertName = ''tls.crt'', webhookCertKey = ''tls.key'',
     metricsCertPath = [], metricsCertName = ''tls.crt'', metricsCertKey = ''tls.key'', enableHTTP2 = False\<rparr>"

text \<open>The part of \<open>tls.Config\<close> the program sets, and an option that is applied to it and may write to the log.\<close>

record tls_Config =
  NextProtos :: "string list"

datatype setup_event =
    SetupInfo string
  | SetupError string string
  | CreatedManager
  | CreatedController go_kind string
  | AddedHealthz string
  | AddedReadyz string
  | StartedManager

type_synonym tls_option = "tls_Config \<times> setup_event list \<Rightarrow> tls_Config \<times> setup_event list"

definition disableHTTP2 :: tls_option where
  "disableHTTP2 = (\<lambda>(c, log). (c\<lparr>NextProtos := [''http/1.1'']\<rparr>, log @ [SetupInfo ''disabling http/2'']))"

definition tlsOpts :: "operator_flags \<Rightarrow> tls_option list" where
  "tlsOpts f = (if \<not> enableHTTP2 f then [] @ [disableHTTP2] else [])"

record webhook_Options =
  wh_TLSOpts :: "tls_option list"
  wh_CertDir :: string
  wh_CertName :: string
  wh_KeyName :: string

datatype filter_provider = WithAuthenticationAndAuthorization

record metrics_Options =
  ms_BindAddress :: string
  ms_SecureServing :: bool
  ms_TLSOpts :: "tls_option list"
  ms_FilterProvider :: "filter_provider option"
  ms_CertDir :: string
  ms_CertName :: string
  ms_KeyName :: string

record manager_Options =
  mgr_Scheme :: "go_kind list"
  mgr_Metrics :: metrics_Options
  mgr_Webhook :: webhook_Options
  mgr_HealthProbeBindAddress :: string
  mgr_LeaderElection :: bool
  mgr_LeaderElectionID :: string

definition webhook_msg :: string where
  "webhook_msg = ''Initializing webhook certificate watcher using provided certificates''"

definition metrics_msg :: string where
  "metrics_msg = ''Initializing metrics certificate watcher using provided certificates''"

definition webhookServerOptions :: "operator_flags \<Rightarrow> webhook_Options \<times> setup_event list" where
  "webhookServerOptions f =
     (let opts = \<lparr>wh_TLSOpts = tlsOpts f, wh_CertDir = [], wh_CertName = [], wh_KeyName = []\<rparr> in
      if length (webhookCertPath f) > 0 then
        (opts\<lparr>wh_CertDir := webhookCertPath f, wh_CertName := webhookCertName f, wh_KeyName := webhookCertKey f\<rparr>, [SetupInfo webhook_msg])
      else (opts, []))"

definition metricsServerOptions :: "operator_flags \<Rightarrow> metrics_Options \<times> setup_event list" where
  "metricsServerOptions f =
     (let opts = \<lparr>ms_BindAddress = metricsAddr f, ms_SecureServing = secureMetrics f, ms_TLSOpts = tlsOpts f,
            ms_FilterProvider = None, ms_CertDir = [], ms_CertName = [], ms_KeyName = []\<rparr>;
          opts1 = (if secureMetrics f then opts\<lparr>ms_FilterProvider := Some WithAuthenticationAndAuthorization\<rparr> else opts)
      in if length (metricsCertPath f) > 0 then
           (opts1\<lparr>ms_CertDir := metricsCertPath f, ms_CertName := metricsCertName f, ms_KeyName := metricsCertKey f\<rparr>, [SetupInfo metrics_msg])
         else (opts1, []))"

section \<open>The program\<close>

text \<open>
  \<open>init\<close> panics, which exits with 2, when a scheme cannot be added; \<open>client_kinds\<close> are the kinds of the client library.
  \<open>GetConfigOrDie\<close> exits with 1 when there is no configuration. The manager's calls return an error or none; \<open>Start\<close> returns when
  the program is asked to stop.
\<close>

record manager_env =
  client_kinds :: "go_kind list"
  client_scheme_err :: "string option"
  api_scheme_err :: "string option"
  has_config :: bool
  new_err :: "manager_Options \<Rightarrow> string option"
  complete_err :: "go_kind \<Rightarrow> string \<Rightarrow> string option"
  healthz_err :: "string option"
  readyz_err :: "string option"
  start_err :: "string option"

definition operator_scheme :: "manager_env \<Rightarrow> go_kind list" where
  "operator_scheme env = AddToScheme (client_kinds env)"

definition SetupWithManager :: "manager_env \<Rightarrow> setup_event list \<Rightarrow> string option \<times> setup_event list" where
  "SetupWithManager env log =
     (let kind = (GroupVersion, ''Redis''); name = ''redis'' in
      case complete_err env kind name of Some e \<Rightarrow> (Some e, log) | None \<Rightarrow> (None, log @ [CreatedController kind name]))"

definition manager_options :: "manager_env \<Rightarrow> operator_flags \<Rightarrow> manager_Options" where
  "manager_options env f = \<lparr>mgr_Scheme = operator_scheme env, mgr_Metrics = fst (metricsServerOptions f), mgr_Webhook = fst (webhookServerOptions f),
     mgr_HealthProbeBindAddress = probeAddr f, mgr_LeaderElection = enableLeaderElection f, mgr_LeaderElectionID = ''a33bd623.example.com''\<rparr>"

definition operator_main :: "manager_env \<Rightarrow> operator_flags \<Rightarrow> int \<times> setup_event list" where
  "operator_main env f =
     (let log = snd (webhookServerOptions f) @ snd (metricsServerOptions f) in
      if client_scheme_err env \<noteq> None \<or> api_scheme_err env \<noteq> None then (2, [])
      else if \<not> has_config env then (1, log)
      else case new_err env (manager_options env f) of
        Some e \<Rightarrow> (1, log @ [SetupError e ''unable to start manager''])
      | None \<Rightarrow>
        (let log1 = log @ [CreatedManager] in
         case SetupWithManager env log1 of
           (Some e, log2) \<Rightarrow> (1, log2 @ [SetupError e ''unable to create controller''])
         | (None, log2) \<Rightarrow>
           (case healthz_err env of
              Some e \<Rightarrow> (1, log2 @ [SetupError e ''unable to set up health check''])
            | None \<Rightarrow>
              (let log3 = log2 @ [AddedHealthz ''healthz''] in
               case readyz_err env of
                 Some e \<Rightarrow> (1, log3 @ [SetupError e ''unable to set up ready check''])
               | None \<Rightarrow>
                 (let log4 = log3 @ [AddedReadyz ''readyz'', SetupInfo ''starting manager'', StartedManager] in
                  case start_err env of
                    Some e \<Rightarrow> (1, log4 @ [SetupError e ''problem running manager''])
                  | None \<Rightarrow> (0, log4))))))"

text \<open>The reconciler has no logic yet: it asks for nothing and changes nothing.\<close>

record reconcile_Result =
  rr_Requeue :: bool
  rr_RequeueAfter :: int

definition Reconcile :: "'req \<Rightarrow> 'cluster \<Rightarrow> (reconcile_Result \<times> string option) \<times> 'cluster" where
  "Reconcile req cluster = ((\<lparr>rr_Requeue = False, rr_RequeueAfter = 0\<rparr>, None), cluster)"

section \<open>What the servers are given\<close>

text \<open>The options of a server applied to a configuration.\<close>

definition apply_opts :: "tls_option list \<Rightarrow> tls_Config \<Rightarrow> tls_Config" where
  "apply_opts opts c = fst (fold (\<lambda>opt. opt) opts (c, []))"

text \<open>
  Both servers negotiate HTTP/1.1 only, whatever the configuration they start from, exactly unless HTTP/2 is enabled, in which case
  their configuration is left as it is.
\<close>

lemma operator_http2:
  "apply_opts (wh_TLSOpts (mgr_Webhook (manager_options env f))) c = (if enableHTTP2 f then c else c\<lparr>NextProtos := [''http/1.1'']\<rparr>)"
  "apply_opts (ms_TLSOpts (mgr_Metrics (manager_options env f))) c = (if enableHTTP2 f then c else c\<lparr>NextProtos := [''http/1.1'']\<rparr>)"
  by (simp_all add: manager_options_def webhookServerOptions_def metricsServerOptions_def Let_def tlsOpts_def apply_opts_def disableHTTP2_def)

text \<open>Metrics that are served over HTTPS are protected, and only those.\<close>

lemma operator_metrics_protected:
  "ms_FilterProvider (mgr_Metrics (manager_options env f)) \<noteq> None \<longleftrightarrow> ms_SecureServing (mgr_Metrics (manager_options env f))"
  by (simp add: manager_options_def metricsServerOptions_def Let_def)

text \<open>
  The manager is started exactly when everything before it succeeded; the program then has created the controller and both
  checks, in this order, and it exits with 0 exactly when the manager also stopped without an error.
\<close>

definition operator_ready :: "manager_env \<Rightarrow> operator_flags \<Rightarrow> bool" where
  "operator_ready env f \<longleftrightarrow> client_scheme_err env = None \<and> api_scheme_err env = None \<and> has_config env \<and> new_err env (manager_options env f) = None \<and> complete_err env (GroupVersion, ''Redis'') ''redis'' = None \<and>
     healthz_err env = None \<and> readyz_err env = None"

lemma setup_logs: "set (snd (webhookServerOptions f)) \<subseteq> range SetupInfo" "set (snd (metricsServerOptions f)) \<subseteq> range SetupInfo"
  by (simp_all add: webhookServerOptions_def metricsServerOptions_def Let_def)

text \<open>The scheme the manager is given knows the kind that the controller is created for.\<close>

lemma operator_kind_known:
  "CreatedController kind name \<in> set (snd (operator_main env f)) \<Longrightarrow> kind \<in> set (mgr_Scheme (manager_options env f))"
  using setup_logs [of f]
  by (auto simp: operator_main_def SetupWithManager_def manager_options_def operator_scheme_def AddToScheme_def registered_kinds_def Let_def
      split: option.splits if_splits)

lemma operator_main_started:
  "StartedManager \<in> set (snd (operator_main env f)) \<longleftrightarrow> operator_ready env f"
  using setup_logs [of f] by (auto simp: operator_main_def operator_ready_def SetupWithManager_def Let_def split: option.split)

lemma operator_main_exit:
  "fst (operator_main env f) = 
     (if client_scheme_err env \<noteq> None \<or> api_scheme_err env \<noteq> None then 2 else if operator_ready env f \<and> start_err env = None then 0 else 1)"
  by (simp add: operator_main_def operator_ready_def SetupWithManager_def Let_def split: option.split)

lemma operator_main_order:
  "operator_ready env f \<Longrightarrow> snd (operator_main env f) =
     snd (webhookServerOptions f) @ snd (metricsServerOptions f) @
     [CreatedManager, CreatedController (GroupVersion, ''Redis'') ''redis'', AddedHealthz ''healthz'', AddedReadyz ''readyz'', SetupInfo ''starting manager'', StartedManager] @
     (case start_err env of None \<Rightarrow> [] | Some e \<Rightarrow> [SetupError e ''problem running manager''])"
  by (simp add: operator_main_def operator_ready_def SetupWithManager_def Let_def split: option.split)

end
