(* ===== verification/Operator_Api.thy ===== *)
theory Operator_Api
  imports Prelude
begin

text \<open>
  The API types of the operator and their deep copies (\<open>k8s/example-operator/api/v1alpha1\<close>: \<open>redis_types.go\<close> and
  \<open>zz_generated.deepcopy.go\<close>). Pointers and slices are addresses of an explicit heap, which has one map for each type of object,
  as addresses in Go are typed, and one counter from which objects are allocated. The types of \<open>k8s.io/apimachinery\<close> and their own
  copies are parameters. The locale \<open>deep_copy\<close> is the contract of a deep copy: the copy has the value of the original,
  and reaches only objects that were allocated for it.
\<close>

section \<open>Types and heap\<close>

type_synonym go_addr = nat

text \<open>A slice is nil, or the address of its array with the offset and the number of its elements.\<close>

datatype go_slice = NilSlice | Slice go_addr nat nat

record RedisSpec =
  spec_Name :: "go_addr option"
  spec_Replicas :: int

record RedisStatus =
  status_Conditions :: go_slice

record 'm Redis =
  redis_TypeMeta :: "string \<times> string"
  redis_ObjectMeta :: 'm
  redis_Spec :: RedisSpec
  redis_Status :: RedisStatus

record 'l RedisList =
  list_TypeMeta :: "string \<times> string"
  list_ListMeta :: 'l
  list_Items :: go_slice

text \<open>
  An object that is allocated by itself is an array of one element, so that a pointer is the address of an array and an index:
  the address of an item of a list is a pointer as well. \<open>h_ext\<close> holds what the types of the library point to.
\<close>

record ('m, 'l, 'c, 'x) go_heap =
  h_strings :: "go_addr \<Rightarrow> string"
  h_conds :: "go_addr \<Rightarrow> 'c list"
  h_specs :: "go_addr \<Rightarrow> RedisSpec list"
  h_statuses :: "go_addr \<Rightarrow> RedisStatus list"
  h_redis :: "go_addr \<Rightarrow> 'm Redis list"
  h_lists :: "go_addr \<Rightarrow> 'l RedisList list"
  h_ext :: "go_addr \<Rightarrow> 'x"
  h_next :: nat

type_synonym go_ptr = "go_addr \<times> nat"

text \<open>Two heaps agree at an address.\<close>

definition same_at :: "('m, 'l, 'c, 'x) go_heap \<Rightarrow> ('m, 'l, 'c, 'x) go_heap \<Rightarrow> go_addr \<Rightarrow> bool" where
  "same_at h h' p \<longleftrightarrow>
     h_strings h p = h_strings h' p \<and> h_conds h p = h_conds h' p \<and> h_specs h p = h_specs h' p \<and>
     h_statuses h p = h_statuses h' p \<and> h_redis h p = h_redis h' p \<and> h_lists h p = h_lists h' p \<and> h_ext h p = h_ext h' p"

lemma same_at_refl [simp]: "same_at h h p"
  by (simp add: same_at_def)

lemma same_at_trans: "same_at h h1 p \<Longrightarrow> same_at h1 h2 p \<Longrightarrow> same_at h h2 p"
  by (simp add: same_at_def)

definition put_string :: "go_addr \<Rightarrow> string \<Rightarrow> ('m, 'l, 'c, 'x) go_heap \<Rightarrow> ('m, 'l, 'c, 'x) go_heap" where
  "put_string p s h = h\<lparr>h_strings := (h_strings h)(p := s)\<rparr>"

definition put_conds :: "go_addr \<Rightarrow> 'c list \<Rightarrow> ('m, 'l, 'c, 'x) go_heap \<Rightarrow> ('m, 'l, 'c, 'x) go_heap" where
  "put_conds p xs h = h\<lparr>h_conds := (h_conds h)(p := xs)\<rparr>"

definition put_specs :: "go_addr \<Rightarrow> RedisSpec list \<Rightarrow> ('m, 'l, 'c, 'x) go_heap \<Rightarrow> ('m, 'l, 'c, 'x) go_heap" where
  "put_specs p xs h = h\<lparr>h_specs := (h_specs h)(p := xs)\<rparr>"

definition put_statuses :: "go_addr \<Rightarrow> RedisStatus list \<Rightarrow> ('m, 'l, 'c, 'x) go_heap \<Rightarrow> ('m, 'l, 'c, 'x) go_heap" where
  "put_statuses p xs h = h\<lparr>h_statuses := (h_statuses h)(p := xs)\<rparr>"

definition put_redis :: "go_addr \<Rightarrow> 'm Redis list \<Rightarrow> ('m, 'l, 'c, 'x) go_heap \<Rightarrow> ('m, 'l, 'c, 'x) go_heap" where
  "put_redis p xs h = h\<lparr>h_redis := (h_redis h)(p := xs)\<rparr>"

definition put_lists :: "go_addr \<Rightarrow> 'l RedisList list \<Rightarrow> ('m, 'l, 'c, 'x) go_heap \<Rightarrow> ('m, 'l, 'c, 'x) go_heap" where
  "put_lists p xs h = h\<lparr>h_lists := (h_lists h)(p := xs)\<rparr>"

definition put_ext :: "go_addr \<Rightarrow> 'x \<Rightarrow> ('m, 'l, 'c, 'x) go_heap \<Rightarrow> ('m, 'l, 'c, 'x) go_heap" where
  "put_ext p x h = h\<lparr>h_ext := (h_ext h)(p := x)\<rparr>"

lemmas put_defs = put_string_def put_conds_def put_specs_def put_statuses_def put_redis_def put_lists_def put_ext_def

text \<open>A new object gets the next address.\<close>

definition go_new :: "(go_addr \<Rightarrow> 'a \<Rightarrow> ('m, 'l, 'c, 'x) go_heap \<Rightarrow> ('m, 'l, 'c, 'x) go_heap) \<Rightarrow> 'a \<Rightarrow>
    ('m, 'l, 'c, 'x) go_heap \<Rightarrow> go_addr \<times> ('m, 'l, 'c, 'x) go_heap" where
  "go_new put v h = (h_next h, put (h_next h) v (h\<lparr>h_next := Suc (h_next h)\<rparr>))"

section \<open>The copies\<close>

text \<open>
  \<open>DeepCopyInto\<close> takes the struct \<open>*in\<close> and gives the struct it stores in \<open>*out\<close>. The loops over a slice read the element of
  the source, copy it, and store it in the array that \<open>make\<close> gave, whose elements have the zero value at first.
\<close>

record ('m, 'l, 'c, 'h) meta_v1 =
  ObjectMeta_DeepCopyInto :: "'m \<Rightarrow> 'h \<Rightarrow> 'm \<times> 'h"
  ListMeta_DeepCopyInto :: "'l \<Rightarrow> 'h \<Rightarrow> 'l \<times> 'h"
  Condition_DeepCopyInto :: "'c \<Rightarrow> 'h \<Rightarrow> 'c \<times> 'h"
  ObjectMeta_zero :: 'm
  ListMeta_zero :: 'l
  Condition_zero :: 'c

fun copy_elems :: "('h \<Rightarrow> go_addr \<Rightarrow> 'a list) \<Rightarrow> (go_addr \<Rightarrow> 'a list \<Rightarrow> 'h \<Rightarrow> 'h) \<Rightarrow> ('a \<Rightarrow> 'h \<Rightarrow> 'a \<times> 'h) \<Rightarrow>
    go_addr \<Rightarrow> nat \<Rightarrow> go_addr \<Rightarrow> nat list \<Rightarrow> 'h \<Rightarrow> 'h" where
  "copy_elems get put copy p off q [] h = h"
| "copy_elems get put copy p off q (i # is) h =
     (let (b, h1) = copy (get h p ! (off + i)) h
      in copy_elems get put copy p off q is (put q ((get h1 q)[i := b]) h1))"

definition slice_copy :: "(('m, 'l, 'c, 'x) go_heap \<Rightarrow> go_addr \<Rightarrow> 'a list) \<Rightarrow>
    (go_addr \<Rightarrow> 'a list \<Rightarrow> ('m, 'l, 'c, 'x) go_heap \<Rightarrow> ('m, 'l, 'c, 'x) go_heap) \<Rightarrow> 'a \<Rightarrow>
    ('a \<Rightarrow> ('m, 'l, 'c, 'x) go_heap \<Rightarrow> 'a \<times> ('m, 'l, 'c, 'x) go_heap) \<Rightarrow>
    go_slice \<Rightarrow> ('m, 'l, 'c, 'x) go_heap \<Rightarrow> go_slice \<times> ('m, 'l, 'c, 'x) go_heap" where
  "slice_copy get put zero copy s h =
     (case s of
        NilSlice \<Rightarrow> (NilSlice, h)
      | Slice p off n \<Rightarrow>
          let (q, h1) = go_new put (replicate n zero) h
          in (Slice q 0 n, copy_elems get put copy p off q [0..<n] h1))"

text \<open>\<open>DeepCopy\<close> of a pointer: nil stays nil; otherwise \<open>*in\<close> is copied into a new object.\<close>

definition ptr_copy :: "(('m, 'l, 'c, 'x) go_heap \<Rightarrow> go_addr \<Rightarrow> 'a list) \<Rightarrow>
    (go_addr \<Rightarrow> 'a list \<Rightarrow> ('m, 'l, 'c, 'x) go_heap \<Rightarrow> ('m, 'l, 'c, 'x) go_heap) \<Rightarrow> 'a \<Rightarrow>
    ('a \<Rightarrow> ('m, 'l, 'c, 'x) go_heap \<Rightarrow> 'a \<times> ('m, 'l, 'c, 'x) go_heap) \<Rightarrow>
    go_ptr option \<Rightarrow> ('m, 'l, 'c, 'x) go_heap \<Rightarrow> go_ptr option \<times> ('m, 'l, 'c, 'x) go_heap" where
  "ptr_copy get put zero copy ptr h =
     (case ptr of
        None \<Rightarrow> (None, h)
      | Some (p, i) \<Rightarrow>
          let (q, h1) = go_new put [zero] h;
              (b, h2) = copy (get h1 p ! i) h1
          in (Some (q, 0), put q [b] h2))"

definition RedisSpec_DeepCopyInto :: "RedisSpec \<Rightarrow> ('m, 'l, 'c, 'x) go_heap \<Rightarrow> RedisSpec \<times> ('m, 'l, 'c, 'x) go_heap" where
  "RedisSpec_DeepCopyInto sp h =
     (case spec_Name sp of
        None \<Rightarrow> (sp, h)
      | Some p \<Rightarrow>
          let (q, h1) = go_new put_string [] h
          in (sp\<lparr>spec_Name := Some q\<rparr>, put_string q (h_strings h1 p) h1))"

definition RedisStatus_DeepCopyInto :: "('m, 'l, 'c, ('m, 'l, 'c, 'x) go_heap) meta_v1 \<Rightarrow> RedisStatus \<Rightarrow>
    ('m, 'l, 'c, 'x) go_heap \<Rightarrow> RedisStatus \<times> ('m, 'l, 'c, 'x) go_heap" where
  "RedisStatus_DeepCopyInto v1 st h =
     (let (cs, h1) = slice_copy h_conds put_conds (Condition_zero v1) (Condition_DeepCopyInto v1) (status_Conditions st) h
      in (st\<lparr>status_Conditions := cs\<rparr>, h1))"

definition Redis_DeepCopyInto :: "('m, 'l, 'c, ('m, 'l, 'c, 'x) go_heap) meta_v1 \<Rightarrow> 'm Redis \<Rightarrow>
    ('m, 'l, 'c, 'x) go_heap \<Rightarrow> 'm Redis \<times> ('m, 'l, 'c, 'x) go_heap" where
  "Redis_DeepCopyInto v1 r h =
     (let (om, h1) = ObjectMeta_DeepCopyInto v1 (redis_ObjectMeta r) h;
          (sp, h2) = RedisSpec_DeepCopyInto (redis_Spec r) h1;
          (st, h3) = RedisStatus_DeepCopyInto v1 (redis_Status r) h2
      in (r\<lparr>redis_ObjectMeta := om, redis_Spec := sp, redis_Status := st\<rparr>, h3))"

definition RedisSpec_zero :: RedisSpec where
  "RedisSpec_zero = \<lparr>spec_Name = None, spec_Replicas = 0\<rparr>"

definition RedisStatus_zero :: RedisStatus where
  "RedisStatus_zero = \<lparr>status_Conditions = NilSlice\<rparr>"

definition Redis_zero :: "('m, 'l, 'c, 'h) meta_v1 \<Rightarrow> 'm Redis" where
  "Redis_zero v1 = \<lparr>redis_TypeMeta = ([], []), redis_ObjectMeta = ObjectMeta_zero v1, redis_Spec = RedisSpec_zero, redis_Status = RedisStatus_zero\<rparr>"

definition RedisList_zero :: "('m, 'l, 'c, 'h) meta_v1 \<Rightarrow> 'l RedisList" where
  "RedisList_zero v1 = \<lparr>list_TypeMeta = ([], []), list_ListMeta = ListMeta_zero v1, list_Items = NilSlice\<rparr>"

definition RedisList_DeepCopyInto :: "('m, 'l, 'c, ('m, 'l, 'c, 'x) go_heap) meta_v1 \<Rightarrow> 'l RedisList \<Rightarrow>
    ('m, 'l, 'c, 'x) go_heap \<Rightarrow> 'l RedisList \<times> ('m, 'l, 'c, 'x) go_heap" where
  "RedisList_DeepCopyInto v1 l h =
     (let (lm, h1) = ListMeta_DeepCopyInto v1 (list_ListMeta l) h;
          (items, h2) = slice_copy h_redis put_redis (Redis_zero v1) (Redis_DeepCopyInto v1) (list_Items l) h1
      in (l\<lparr>list_ListMeta := lm, list_Items := items\<rparr>, h2))"

definition RedisSpec_DeepCopy :: "go_ptr option \<Rightarrow> ('m, 'l, 'c, 'x) go_heap \<Rightarrow> go_ptr option \<times> ('m, 'l, 'c, 'x) go_heap" where
  "RedisSpec_DeepCopy = ptr_copy h_specs put_specs RedisSpec_zero RedisSpec_DeepCopyInto"

definition RedisStatus_DeepCopy :: "('m, 'l, 'c, ('m, 'l, 'c, 'x) go_heap) meta_v1 \<Rightarrow>
    go_ptr option \<Rightarrow> ('m, 'l, 'c, 'x) go_heap \<Rightarrow> go_ptr option \<times> ('m, 'l, 'c, 'x) go_heap" where
  "RedisStatus_DeepCopy v1 = ptr_copy h_statuses put_statuses RedisStatus_zero (RedisStatus_DeepCopyInto v1)"

definition Redis_DeepCopy :: "('m, 'l, 'c, ('m, 'l, 'c, 'x) go_heap) meta_v1 \<Rightarrow>
    go_ptr option \<Rightarrow> ('m, 'l, 'c, 'x) go_heap \<Rightarrow> go_ptr option \<times> ('m, 'l, 'c, 'x) go_heap" where
  "Redis_DeepCopy v1 = ptr_copy h_redis put_redis (Redis_zero v1) (Redis_DeepCopyInto v1)"

definition RedisList_DeepCopy :: "('m, 'l, 'c, ('m, 'l, 'c, 'x) go_heap) meta_v1 \<Rightarrow>
    go_ptr option \<Rightarrow> ('m, 'l, 'c, 'x) go_heap \<Rightarrow> go_ptr option \<times> ('m, 'l, 'c, 'x) go_heap" where
  "RedisList_DeepCopy v1 = ptr_copy h_lists put_lists (RedisList_zero v1) (RedisList_DeepCopyInto v1)"

text \<open>\<open>DeepCopyObject\<close> gives the copy as an interface, and the nil interface, not a nil pointer in it, for nil.\<close>

datatype runtime_Object = RedisObject "go_ptr option" | RedisListObject "go_ptr option"

definition Redis_DeepCopyObject :: "('m, 'l, 'c, ('m, 'l, 'c, 'x) go_heap) meta_v1 \<Rightarrow>
    go_ptr option \<Rightarrow> ('m, 'l, 'c, 'x) go_heap \<Rightarrow> runtime_Object option \<times> ('m, 'l, 'c, 'x) go_heap" where
  "Redis_DeepCopyObject v1 ptr h =
     (case Redis_DeepCopy v1 ptr h of (c, h1) \<Rightarrow> if c \<noteq> None then (Some (RedisObject c), h1) else (None, h1))"

definition RedisList_DeepCopyObject :: "('m, 'l, 'c, ('m, 'l, 'c, 'x) go_heap) meta_v1 \<Rightarrow>
    go_ptr option \<Rightarrow> ('m, 'l, 'c, 'x) go_heap \<Rightarrow> runtime_Object option \<times> ('m, 'l, 'c, 'x) go_heap" where
  "RedisList_DeepCopyObject v1 ptr h =
     (case RedisList_DeepCopy v1 ptr h of (c, h1) \<Rightarrow> if c \<noteq> None then (Some (RedisListObject c), h1) else (None, h1))"

section \<open>The contract of a deep copy\<close>

text \<open>
  \<open>val\<close> is the value with the pointers followed, \<open>foot\<close> the addresses that are reached, \<open>ok\<close> that they are allocated. The
  copy leaves the objects that exist as they are.
\<close>

locale deep_copy =
  fixes copy :: "'a \<Rightarrow> ('m, 'l, 'c, 'x) go_heap \<Rightarrow> 'a \<times> ('m, 'l, 'c, 'x) go_heap"
    and val :: "'a \<Rightarrow> ('m, 'l, 'c, 'x) go_heap \<Rightarrow> 'v"
    and foot :: "'a \<Rightarrow> ('m, 'l, 'c, 'x) go_heap \<Rightarrow> go_addr set"
    and ok :: "'a \<Rightarrow> ('m, 'l, 'c, 'x) go_heap \<Rightarrow> bool"
  assumes foot_old: "ok a h \<Longrightarrow> foot a h \<subseteq> {..<h_next h}"
    and frame: "(\<And>p. p \<in> foot a h \<Longrightarrow> same_at h h' p) \<Longrightarrow> h_next h \<le> h_next h' \<Longrightarrow>
      val a h' = val a h \<and> foot a h' = foot a h \<and> (ok a h \<longrightarrow> ok a h')"
    and copy_old: "ok a h \<Longrightarrow> copy a h = (b, h') \<Longrightarrow> h_next h \<le> h_next h' \<and> (\<forall>p<h_next h. same_at h h' p)"
    and copy_new: "ok a h \<Longrightarrow> copy a h = (b, h') \<Longrightarrow>
      val b h' = val a h \<and> foot b h' \<subseteq> {h_next h..<h_next h'} \<and> ok b h'"
begin

lemma copy_keeps:
  assumes "ok a h" "h_next h \<le> h_next h'" "\<And>p. p < h_next h \<Longrightarrow> same_at h h' p"
  shows "val a h' = val a h \<and> foot a h' = foot a h \<and> ok a h'"
proof -
  have "same_at h h' p" if "p \<in> foot a h" for p using that foot_old [OF assms(1)] by (intro assms(3)) auto
  with frame [of a h h'] assms(1,2) show ?thesis by simp
qed

lemma copy_disjoint:
  assumes "ok a h" "copy a h = (b, h')"
  shows "foot a h' \<inter> foot b h' = {}"
proof -
  have "foot a h' = foot a h" using copy_keeps [OF assms(1), of h'] copy_old [OF assms] by simp
  with foot_old [OF assms(1)] copy_new [OF assms] show ?thesis by fastforce
qed

text \<open>Whatever is then done to the objects of the one leaves the value of the other.\<close>

lemma copy_independent:
  assumes "ok a h" "copy a h = (b, h')" "h_next h' \<le> h_next h2"
  shows "(\<And>p. p \<notin> foot a h' \<Longrightarrow> p < h_next h' \<Longrightarrow> same_at h' h2 p) \<Longrightarrow> val b h2 = val a h"
    and "(\<And>p. p \<notin> foot b h' \<Longrightarrow> p < h_next h' \<Longrightarrow> same_at h' h2 p) \<Longrightarrow> val a h2 = val a h"
proof -
  note d = copy_disjoint [OF assms(1,2)]
  have b: "ok b h'" "val b h' = val a h" using copy_new [OF assms(1,2)] by auto
  have a: "ok a h'" "val a h' = val a h" using copy_keeps [OF assms(1), of h'] copy_old [OF assms(1,2)] by simp_all
  have fb: "\<And>p. p \<in> foot b h' \<Longrightarrow> p \<notin> foot a h' \<and> p < h_next h'" using foot_old [OF b(1)] d by auto
  have fa: "\<And>p. p \<in> foot a h' \<Longrightarrow> p \<notin> foot b h' \<and> p < h_next h'" using foot_old [OF a(1)] d by auto
  { assume s: "\<And>p. p \<notin> foot a h' \<Longrightarrow> p < h_next h' \<Longrightarrow> same_at h' h2 p"
    have "val b h2 = val b h'" using frame [of b h' h2] s fb assms(3) by simp
    then show "val b h2 = val a h" by (simp add: b(2)) }
  { assume s: "\<And>p. p \<notin> foot b h' \<Longrightarrow> p < h_next h' \<Longrightarrow> same_at h' h2 p"
    have "val a h2 = val a h'" using frame [of a h' h2] s fa assms(3) by simp
    then show "val a h2 = val a h" by (simp add: a(2)) }
qed

end

text \<open>A struct without pointers is copied by the assignment.\<close>

lemma deep_copy_plain: "deep_copy (\<lambda>a h. (a, h)) (\<lambda>a h. a) (\<lambda>a h. {}) (\<lambda>a h. True)"
  by unfold_locales auto

text \<open>The arrays of one type in the heap.\<close>

locale array_heap =
  fixes get :: "('m, 'l, 'c, 'x) go_heap \<Rightarrow> go_addr \<Rightarrow> 'a list"
    and put :: "go_addr \<Rightarrow> 'a list \<Rightarrow> ('m, 'l, 'c, 'x) go_heap \<Rightarrow> ('m, 'l, 'c, 'x) go_heap"
  assumes get_put [simp]: "get (put p xs h) p = xs"
    and put_other [simp]: "q \<noteq> p \<Longrightarrow> same_at h (put p xs h) q"
    and put_next [simp]: "h_next (put p xs h) = h_next h"
    and get_same: "same_at h h' p \<Longrightarrow> get h' p = get h p"
    and put_fresh [simp]: "q \<noteq> p \<Longrightarrow> same_at h (put p xs (h\<lparr>h_next := n\<rparr>)) q"

interpretation cnd: array_heap h_conds put_conds
  by unfold_locales (simp_all add: put_defs same_at_def)

interpretation spa: array_heap h_specs put_specs
  by unfold_locales (simp_all add: put_defs same_at_def)

interpretation sta: array_heap h_statuses put_statuses
  by unfold_locales (simp_all add: put_defs same_at_def)

interpretation rda: array_heap h_redis put_redis
  by unfold_locales (simp_all add: put_defs same_at_def)

interpretation lsa: array_heap h_lists put_lists
  by unfold_locales (simp_all add: put_defs same_at_def)

section \<open>Slices\<close>

fun slice_elems :: "('h \<Rightarrow> go_addr \<Rightarrow> 'a list) \<Rightarrow> go_slice \<Rightarrow> 'h \<Rightarrow> 'a list" where
  "slice_elems get NilSlice h = []"
| "slice_elems get (Slice p off n) h = take n (drop off (get h p))"

fun slice_val :: "('h \<Rightarrow> go_addr \<Rightarrow> 'a list) \<Rightarrow> ('a \<Rightarrow> 'h \<Rightarrow> 'v) \<Rightarrow> go_slice \<Rightarrow> 'h \<Rightarrow> 'v list option" where
  "slice_val get val NilSlice h = None"
| "slice_val get val (Slice p off n) h = Some (map (\<lambda>a. val a h) (slice_elems get (Slice p off n) h))"

fun slice_foot :: "('h \<Rightarrow> go_addr \<Rightarrow> 'a list) \<Rightarrow> ('a \<Rightarrow> 'h \<Rightarrow> go_addr set) \<Rightarrow> go_slice \<Rightarrow> 'h \<Rightarrow> go_addr set" where
  "slice_foot get foot NilSlice h = {}"
| "slice_foot get foot (Slice p off n) h = insert p (\<Union>a\<in>set (slice_elems get (Slice p off n) h). foot a h)"

fun slice_ok :: "(('m, 'l, 'c, 'x) go_heap \<Rightarrow> go_addr \<Rightarrow> 'a list) \<Rightarrow> ('a \<Rightarrow> ('m, 'l, 'c, 'x) go_heap \<Rightarrow> bool) \<Rightarrow>
    go_slice \<Rightarrow> ('m, 'l, 'c, 'x) go_heap \<Rightarrow> bool" where
  "slice_ok get ok NilSlice h = True"
| "slice_ok get ok (Slice p off n) h \<longleftrightarrow>
     p < h_next h \<and> off + n \<le> length (get h p) \<and> list_all (\<lambda>a. ok a h) (slice_elems get (Slice p off n) h)"

locale elem_copy = deep_copy copy val foot ok + array_heap get put
  for copy :: "'a \<Rightarrow> ('m, 'l, 'c, 'x) go_heap \<Rightarrow> 'a \<times> ('m, 'l, 'c, 'x) go_heap"
    and val :: "'a \<Rightarrow> ('m, 'l, 'c, 'x) go_heap \<Rightarrow> 'v"
    and foot :: "'a \<Rightarrow> ('m, 'l, 'c, 'x) go_heap \<Rightarrow> go_addr set"
    and ok :: "'a \<Rightarrow> ('m, 'l, 'c, 'x) go_heap \<Rightarrow> bool"
    and get :: "('m, 'l, 'c, 'x) go_heap \<Rightarrow> go_addr \<Rightarrow> 'a list"
    and put :: "go_addr \<Rightarrow> 'a list \<Rightarrow> ('m, 'l, 'c, 'x) go_heap \<Rightarrow> ('m, 'l, 'c, 'x) go_heap"
begin

text \<open>The first \<open>i\<close> elements of the new array \<open>q\<close> are copies of the elements \<open>src\<close> of the heap \<open>h0\<close>.\<close>

definition copied :: "('m, 'l, 'c, 'x) go_heap \<Rightarrow> 'a list \<Rightarrow> go_addr \<Rightarrow> nat \<Rightarrow> ('m, 'l, 'c, 'x) go_heap \<Rightarrow> bool" where
  "copied h0 src q i h \<longleftrightarrow>
     h_next h0 \<le> q \<and> q < h_next h \<and> (\<forall>x<h_next h0. same_at h0 h x) \<and> length (get h q) = length src \<and>
     (\<forall>k<i. val (get h q ! k) h = val (src ! k) h0 \<and> foot (get h q ! k) h \<subseteq> {q<..<h_next h} \<and> ok (get h q ! k) h)"

lemma copied_step:
  assumes c: "copied h0 src q i h" and i: "i < length src" and a: "ok (src ! i) h0" and cp: "copy (src ! i) h = (b, h1)"
  shows "copied h0 src q (Suc i) (put q ((get h1 q)[i := b]) h1)"
proof -
  let ?h2 = "put q ((get h1 q)[i := b]) h1"
  have old: "h_next h0 \<le> q" "q < h_next h" "\<And>x. x < h_next h0 \<Longrightarrow> same_at h0 h x" "length (get h q) = length src"
    using c by (auto simp: copied_def)
  have a': "ok (src ! i) h" "val (src ! i) h = val (src ! i) h0" using copy_keeps [OF a, of h] old by auto
  note o = copy_old [OF a'(1) cp] and n = copy_new [OF a'(1) cp]
  have q1: "get h1 q = get h q" using o old(2) get_same by blast
  have same2: "same_at h ?h2 x" if "x < h_next h" "x \<noteq> q" for x
    using o that same_at_trans [of h h1 x ?h2] put_other [of x q h1] by blast
  have new: "val b ?h2 = val (src ! i) h0 \<and> foot b ?h2 \<subseteq> {q<..<h_next ?h2} \<and> ok b ?h2"
  proof -
    have "same_at h1 ?h2 p" if "p \<in> foot b h1" for p
      using that n old(2) by (intro put_other) auto
    with frame [of b h1 ?h2] n a'(2) old(2) show ?thesis by auto
  qed
  have before: "val (get h q ! k) ?h2 = val (src ! k) h0 \<and> foot (get h q ! k) ?h2 \<subseteq> {q<..<h_next ?h2} \<and> ok (get h q ! k) ?h2"
    if "k < i" for k
  proof -
    have k: "val (get h q ! k) h = val (src ! k) h0" "foot (get h q ! k) h \<subseteq> {q<..<h_next h}" "ok (get h q ! k) h"
      using c that by (auto simp: copied_def)
    have "same_at h ?h2 p" if "p \<in> foot (get h q ! k) h" for p using that k(2) by (intro same2) auto
    with frame [of "get h q ! k" h ?h2] k o show ?thesis by fastforce
  qed
  have "same_at h0 ?h2 x" if "x < h_next h0" for x
  proof (rule same_at_trans [OF old(3) [OF that]])
    show "same_at h ?h2 x" using that old(1,2) by (intro same2) auto
  qed
  moreover have "q < h_next ?h2" using old(2) o by simp
  moreover have "get ?h2 q = (get h q)[i := b]" by (simp add: q1)
  ultimately show ?thesis using old(1,4) new before i unfolding copied_def by (simp add: nth_list_update less_Suc_eq)
qed

end

fun ptr_val :: "('h \<Rightarrow> go_addr \<Rightarrow> 'a list) \<Rightarrow> ('a \<Rightarrow> 'h \<Rightarrow> 'v) \<Rightarrow> go_ptr option \<Rightarrow> 'h \<Rightarrow> 'v option" where
  "ptr_val get val None h = None"
| "ptr_val get val (Some (p, i)) h = Some (val (get h p ! i) h)"

fun ptr_foot :: "('h \<Rightarrow> go_addr \<Rightarrow> 'a list) \<Rightarrow> ('a \<Rightarrow> 'h \<Rightarrow> go_addr set) \<Rightarrow> go_ptr option \<Rightarrow> 'h \<Rightarrow> go_addr set" where
  "ptr_foot get foot None h = {}"
| "ptr_foot get foot (Some (p, i)) h = insert p (foot (get h p ! i) h)"

fun ptr_ok :: "(('m, 'l, 'c, 'x) go_heap \<Rightarrow> go_addr \<Rightarrow> 'a list) \<Rightarrow> ('a \<Rightarrow> ('m, 'l, 'c, 'x) go_heap \<Rightarrow> bool) \<Rightarrow>
    go_ptr option \<Rightarrow> ('m, 'l, 'c, 'x) go_heap \<Rightarrow> bool" where
  "ptr_ok get ok None h = True"
| "ptr_ok get ok (Some (p, i)) h \<longleftrightarrow> p < h_next h \<and> i < length (get h p) \<and> ok (get h p ! i) h"

context elem_copy
begin

lemma copied_start: "copied h src (h_next h) 0 (snd (go_new put (replicate (length src) zero) h))"
  by (simp add: copied_def go_new_def)

lemma copied_loop:
  assumes "copied h0 src q i h" "i \<le> length src" "\<And>k. k < length src \<Longrightarrow> ok (src ! k) h0"
    and p: "p < h_next h0" "\<And>k. k < length src \<Longrightarrow> get h0 p ! (off + k) = src ! k"
  shows "copied h0 src q (length src) (copy_elems get put copy p off q [i..<length src] h)"
  using assms(1,2)
proof (induction "length src - i" arbitrary: i h)
  case (Suc n)
  then have i: "i < length src" by simp
  have "get h p = get h0 p" using Suc.prems(1) p(1) get_same by (simp add: copied_def)
  then have a: "get h p ! (off + i) = src ! i" using p(2) [OF i] by simp
  obtain b h1 where cp: "copy (src ! i) h = (b, h1)" by force
  from copied_step [OF Suc.prems(1) i assms(3) [OF i] cp]
  have "copied h0 src q (length src)
      (copy_elems get put copy p off q [Suc i..<length src] (put q ((get h1 q)[i := b]) h1))"
    using Suc.hyps i by (intro Suc.hyps(1)) auto
  then show ?case using i by (simp add: upt_rec [of i] a cp)
qed simp

lemma copied_elems:
  assumes "copied h0 src q (length src) h" "b \<in> set (get h q)"
  shows "foot b h \<subseteq> {h_next h0..<h_next h} \<and> ok b h"
proof -
  from assms obtain k where k: "k < length src" "b = get h q ! k" by (auto simp: copied_def in_set_conv_nth)
  with assms(1) have "h_next h0 \<le> q" "foot b h \<subseteq> {q<..<h_next h}" "ok b h" by (simp_all add: copied_def)
  then show ?thesis by fastforce
qed

lemma copied_vals:
  "copied h0 src q (length src) h \<Longrightarrow> map (\<lambda>a. val a h) (get h q) = map (\<lambda>a. val a h0) src"
  by (auto simp: copied_def intro: nth_equalityI)

lemma slice_frame:
  assumes same: "\<And>p. p \<in> slice_foot get foot s h \<Longrightarrow> same_at h h' p" and "h_next h \<le> h_next h'"
  shows "slice_val get val s h' = slice_val get val s h \<and> slice_foot get foot s h' = slice_foot get foot s h \<and>
    (slice_ok get ok s h \<longrightarrow> slice_ok get ok s h')"
proof (cases s)
  case (Slice p off n)
  have g: "get h' p = get h p" using same Slice by (intro get_same) simp
  have f: "val a h' = val a h \<and> foot a h' = foot a h \<and> (ok a h \<longrightarrow> ok a h')" if "a \<in> set (take n (drop off (get h p)))" for a
    using that same Slice assms(2) by (intro frame) auto
  show ?thesis using assms(2) f by (auto simp: Slice g list_all_iff)
qed simp

lemma slice_new:
  assumes s: "slice_ok get ok (Slice p off n) h" and c: "slice_copy get put zero copy (Slice p off n) h = (t, h')"
  shows "t = Slice (h_next h) 0 n \<and> copied h (take n (drop off (get h p))) (h_next h) n h'"
proof -
  let ?src = "take n (drop off (get h p))"
  have n: "length ?src = n" using s by auto
  have p: "p < h_next h" "list_all (\<lambda>a. ok a h) ?src" "off + n \<le> length (get h p)" using s by simp_all
  have o: "ok (?src ! k) h" if "k < length ?src" for k using p(2) that unfolding list_all_length by blast
  have g: "get h p ! (off + k) = ?src ! k" if "k < length ?src" for k using p(3) that by simp
  have "copied h ?src (h_next h) (length ?src)
      (copy_elems get put copy p off (h_next h) [0..<length ?src] (snd (go_new put (replicate (length ?src) zero) h)))"
    by (rule copied_loop [OF copied_start le0 o p(1) g])
  moreover have "t = Slice (h_next h) 0 n"
    "h' = copy_elems get put copy p off (h_next h) [0..<n] (snd (go_new put (replicate n zero) h))"
    using c by (simp_all add: slice_copy_def go_new_def)
  ultimately show ?thesis unfolding n by simp
qed

lemma slice_deep_copy: "deep_copy (slice_copy get put zero copy) (slice_val get val) (slice_foot get foot) (slice_ok get ok)"
proof (rule deep_copy.intro, goal_cases)
  case (1 s h)
  show ?case
  proof (cases s)
    case (Slice p off n)
    have "foot a h \<subseteq> {..<h_next h}" if "a \<in> set (take n (drop off (get h p)))" for a
      using 1 that by (intro foot_old) (simp add: Slice list_all_iff)
    with 1 show ?thesis by (simp add: Slice UN_subset_iff)
  qed simp
next
  case (2 s h h')
  show ?case by (rule slice_frame [OF 2])
next
  case (3 s h t h')
  show ?case
  proof (cases s)
    case (Slice p off n)
    from slice_new [of p off n h zero t h', folded Slice, OF 3] show ?thesis by (simp add: copied_def)
  qed (use 3 in \<open>simp add: slice_copy_def\<close>)
next
  case (4 s h t h')
  show ?case
  proof (cases s)
    case (Slice p off n)
    note new = slice_new [of p off n h zero t h', folded Slice, OF 4]
    let ?src = "take n (drop off (get h p))"
    have n: "length ?src = n" using 4(1) Slice by auto
    have c: "copied h ?src (h_next h) (length ?src) h'" and t: "t = Slice (h_next h) 0 n" using new unfolding n by auto
    have len: "length (get h' (h_next h)) = n" "h_next h < h_next h'" using c n by (simp_all add: copied_def)
    have "slice_val get val t h' = slice_val get val s h" using copied_vals [OF c] by (simp add: t Slice len(1))
    moreover have "slice_foot get foot t h' \<subseteq> {h_next h..<h_next h'}"
      using copied_elems [OF c] len(2) by (simp add: t len(1) UN_subset_iff)
    moreover have "slice_ok get ok t h'" using copied_elems [OF c] len by (simp add: t list_all_iff)
    ultimately show ?thesis by blast
  qed (use 4 in \<open>simp add: slice_copy_def\<close>)
qed

end

section \<open>Pointers, pairs and structs\<close>

context elem_copy
begin

lemma ptr_new:
  assumes "ptr_ok get ok (Some (p, i)) h" "ptr_copy get put zero copy (Some (p, i)) h = (t, h')"
  shows "t = Some (h_next h, 0) \<and> copied h [get h p ! i] (h_next h) 1 h'"
proof -
  let ?a = "get h p ! i" and ?h1 = "snd (go_new put [zero] h)"
  have st: "copied h [?a] (h_next h) 0 ?h1" using copied_start [of h "[?a]" zero] by simp
  have "p \<noteq> h_next h" using assms(1) by simp
  then have "get ?h1 p = get h p" by (intro get_same) (simp add: go_new_def)
  moreover obtain b h2 where cp: "copy ?a ?h1 = (b, h2)" by force
  ultimately have th: "t = Some (h_next h, 0)" "h' = put (h_next h) [b] h2"
    using assms(2) by (simp_all add: ptr_copy_def go_new_def)
  have "copied h [?a] (h_next h) (Suc 0) (put (h_next h) ((get h2 (h_next h))[0 := b]) h2)"
    using assms(1) cp by (intro copied_step [OF st]) simp_all
  moreover from this have "(get h2 (h_next h))[0 := b] = [b]" by (simp add: copied_def length_Suc_conv) auto
  ultimately show ?thesis using th by simp
qed

lemma ptr_frame:
  assumes same: "\<And>p. p \<in> ptr_foot get foot s h \<Longrightarrow> same_at h h' p" and "h_next h \<le> h_next h'"
  shows "ptr_val get val s h' = ptr_val get val s h \<and> ptr_foot get foot s h' = ptr_foot get foot s h \<and>
    (ptr_ok get ok s h \<longrightarrow> ptr_ok get ok s h')"
proof (cases s)
  case (Some pi)
  then obtain p i where 2: "s = Some (p, i)" by (cases pi) auto
  have g: "get h' p = get h p" using same 2 by (intro get_same) simp
  have "val (get h p ! i) h' = val (get h p ! i) h \<and> foot (get h p ! i) h' = foot (get h p ! i) h \<and>
      (ok (get h p ! i) h \<longrightarrow> ok (get h p ! i) h')"
    using same 2 assms(2) by (intro frame) simp_all
  then show ?thesis using assms(2) 2 by (simp add: g)
qed simp

lemma ptr_deep_copy: "deep_copy (ptr_copy get put zero copy) (ptr_val get val) (ptr_foot get foot) (ptr_ok get ok)"
proof (rule deep_copy.intro, goal_cases)
  case (1 s h)
  then show ?case using foot_old by (cases s) force+
next
  case (2 s h h')
  show ?case by (rule ptr_frame [OF 2])
next
  case (3 s h t h')
  show ?case
  proof (cases s)
    case (Some pi)
    then obtain p i where s: "s = Some (p, i)" by (cases pi) auto
    from ptr_new [of p i h zero t h', folded s, OF 3] show ?thesis by (simp add: copied_def)
  qed (use 3 in \<open>simp add: ptr_copy_def\<close>)
next
  case (4 s h t h')
  show ?case
  proof (cases s)
    case (Some pi)
    then obtain p i where s: "s = Some (p, i)" by (cases pi) auto
    have c: "copied h [get h p ! i] (h_next h) (length [get h p ! i]) h'" and t: "t = Some (h_next h, 0)"
      using ptr_new [of p i h zero t h', folded s, OF 4] by simp_all
    then obtain b where b: "get h' (h_next h) = [b]" "h_next h < h_next h'" by (auto simp: copied_def length_Suc_conv)
    show ?thesis using copied_vals [OF c] copied_elems [OF c, of b] b by (simp add: t s)
  qed (use 4 in \<open>simp add: ptr_copy_def\<close>)
qed

end

lemma deep_copy_pair:
  assumes "deep_copy c1 v1 f1 o1" "deep_copy c2 v2 f2 o2"
  shows "deep_copy (\<lambda>(a, b) h. let (a', h1) = c1 a h; (b', h2) = c2 b h1 in ((a', b'), h2))
    (\<lambda>(a, b) h. (v1 a h, v2 b h)) (\<lambda>(a, b) h. f1 a h \<union> f2 b h) (\<lambda>(a, b) h. o1 a h \<and> o2 b h)"
proof (rule deep_copy.intro, goal_cases)
  case (1 ab h)
  then show ?case using deep_copy.foot_old [OF assms(1)] deep_copy.foot_old [OF assms(2)] by (auto split: prod.splits)
next
  case (2 ab h h')
  then show ?case
    using deep_copy.frame [OF assms(1), of "fst ab" h h'] deep_copy.frame [OF assms(2), of "snd ab" h h'] by (cases ab) simp
next
  case (3 ab h r h')
  obtain a b where ab: "ab = (a, b)" by force
  obtain a' h1 where c1: "c1 a h = (a', h1)" by force
  obtain b' h2 where c2: "c2 b h1 = (b', h2)" by force
  have 1: "o1 a h" "o2 b h" "r = (a', b')" "h' = h2" using 3 by (simp_all add: ab c1 c2)
  note k1 = deep_copy.copy_old [OF assms(1) 1(1) c1]
  have "o2 b h1" using deep_copy.copy_keeps [OF assms(2) 1(2), of h1] k1 by simp
  from deep_copy.copy_old [OF assms(2) this c2] k1 show ?case
    by (auto simp: 1 intro: same_at_trans less_le_trans)
next
  case (4 ab h r h')
  obtain a b where ab: "ab = (a, b)" by force
  obtain a' h1 where c1: "c1 a h = (a', h1)" by force
  obtain b' h2 where c2: "c2 b h1 = (b', h2)" by force
  have 1: "o1 a h" "o2 b h" "r = (a', b')" "h' = h2" using 4 by (simp_all add: ab c1 c2)
  note k1 = deep_copy.copy_old [OF assms(1) 1(1) c1] and n1 = deep_copy.copy_new [OF assms(1) 1(1) c1]
  have b1: "o2 b h1" "v2 b h1 = v2 b h" using deep_copy.copy_keeps [OF assms(2) 1(2), of h1] k1 by simp_all
  note k2 = deep_copy.copy_old [OF assms(2) b1(1) c2] and n2 = deep_copy.copy_new [OF assms(2) b1(1) c2]
  have "v1 a' h2 = v1 a' h1 \<and> f1 a' h2 = f1 a' h1 \<and> o1 a' h2"
    using deep_copy.copy_keeps [OF assms(1), of a' h1 h2] n1 k2 by simp
  with n1 n2 k1 k2 b1 show ?case by (simp add: 1 ab) (meson atLeastLessThan_iff le_trans less_le_trans subset_iff)
qed

text \<open>A struct whose fields are plain, up to one part that is copied.\<close>

lemma deep_copy_part:
  assumes "deep_copy c v f k" "\<And>a b. part (upd a b) = b" "\<And>a b. plain (upd a b) = plain a"
  shows "deep_copy (\<lambda>a h. let (b, h1) = c (part a) h in (upd a b, h1))
    (\<lambda>a h. (plain a, v (part a) h)) (\<lambda>a h. f (part a) h) (\<lambda>a h. k (part a) h)"
proof (rule deep_copy.intro, goal_cases)
  case (1 a h)
  then show ?case by (rule deep_copy.foot_old [OF assms(1)])
next
  case (2 a h h')
  then show ?case using deep_copy.frame [OF assms(1), of "part a" h h'] by simp
next
  case (3 a h r h')
  then show ?case using deep_copy.copy_old [OF assms(1), of "part a" h _ h'] by (auto split: prod.splits)
next
  case (4 a h r h')
  then show ?case using deep_copy.copy_new [OF assms(1), of "part a" h _ h'] by (auto simp: assms(2,3) split: prod.splits)
qed

lemma deep_copy_val: "deep_copy c v f k \<Longrightarrow> deep_copy c (\<lambda>a h. g (v a h)) f k"
proof (rule deep_copy.intro, goal_cases)
  case (2 a h h')
  then show ?case using deep_copy.frame [OF 2(1), of a h h'] by simp
next
  case (4 a h b h')
  then show ?case using deep_copy.copy_new [OF 4] by simp
qed (rule deep_copy.foot_old deep_copy.copy_old; assumption)+

section \<open>The types of the operator\<close>

definition spec_val :: "RedisSpec \<Rightarrow> ('m, 'l, 'c, 'x) go_heap \<Rightarrow> string option \<times> int" where
  "spec_val sp h = (map_option (h_strings h) (spec_Name sp), spec_Replicas sp)"

definition spec_foot :: "RedisSpec \<Rightarrow> ('m, 'l, 'c, 'x) go_heap \<Rightarrow> go_addr set" where
  "spec_foot sp h = set_option (spec_Name sp)"

definition spec_ok :: "RedisSpec \<Rightarrow> ('m, 'l, 'c, 'x) go_heap \<Rightarrow> bool" where
  "spec_ok sp h = (case spec_Name sp of None \<Rightarrow> True | Some p \<Rightarrow> p < h_next h)"

interpretation spc: deep_copy RedisSpec_DeepCopyInto spec_val spec_foot spec_ok
proof (rule deep_copy.intro, goal_cases)
  case (1 a h)
  then show ?case by (cases "spec_Name a") (simp_all add: spec_foot_def spec_ok_def)
next
  case (2 a h h')
  then show ?case by (cases "spec_Name a") (simp_all add: spec_val_def spec_foot_def spec_ok_def same_at_def)
next
  case (3 a h b h')
  then show ?case
    by (cases "spec_Name a") (auto simp: RedisSpec_DeepCopyInto_def go_new_def put_string_def same_at_def)
next
  case (4 a h b h')
  then show ?case
    by (cases "spec_Name a") (auto simp: RedisSpec_DeepCopyInto_def go_new_def put_string_def spec_val_def spec_foot_def spec_ok_def)
qed

interpretation spe: elem_copy RedisSpec_DeepCopyInto spec_val spec_foot spec_ok h_specs put_specs
  by unfold_locales

lemma RedisSpec_DeepCopy_deep:
  "deep_copy RedisSpec_DeepCopy (ptr_val h_specs spec_val) (ptr_foot h_specs spec_foot) (ptr_ok h_specs spec_ok)"
  unfolding RedisSpec_DeepCopy_def by (rule spe.ptr_deep_copy)

definition status_val :: "('c \<Rightarrow> ('m, 'l, 'c, 'x) go_heap \<Rightarrow> 'cv) \<Rightarrow> RedisStatus \<Rightarrow> ('m, 'l, 'c, 'x) go_heap \<Rightarrow> 'cv list option" where
  "status_val cv st h = slice_val h_conds cv (status_Conditions st) h"

definition status_foot :: "('c \<Rightarrow> ('m, 'l, 'c, 'x) go_heap \<Rightarrow> go_addr set) \<Rightarrow> RedisStatus \<Rightarrow> ('m, 'l, 'c, 'x) go_heap \<Rightarrow> go_addr set" where
  "status_foot cf st h = slice_foot h_conds cf (status_Conditions st) h"

definition status_ok :: "('c \<Rightarrow> ('m, 'l, 'c, 'x) go_heap \<Rightarrow> bool) \<Rightarrow> RedisStatus \<Rightarrow> ('m, 'l, 'c, 'x) go_heap \<Rightarrow> bool" where
  "status_ok ck st h = slice_ok h_conds ck (status_Conditions st) h"

lemma RedisStatus_DeepCopyInto_deep:
  assumes "deep_copy (Condition_DeepCopyInto v1) cv cf ck"
  shows "deep_copy (RedisStatus_DeepCopyInto v1) (status_val cv) (status_foot cf) (status_ok ck)"
proof -
  have "elem_copy (Condition_DeepCopyInto v1) cv cf ck h_conds put_conds"
    using assms cnd.array_heap_axioms by (rule elem_copy.intro)
  from deep_copy_part [OF elem_copy.slice_deep_copy [OF this, of "Condition_zero v1"],
      of status_Conditions "\<lambda>st cs. st\<lparr>status_Conditions := cs\<rparr>" "\<lambda>_. ()", THEN deep_copy_val [where g = snd]]
  show ?thesis unfolding RedisStatus_DeepCopyInto_def status_val_def status_foot_def status_ok_def by simp
qed

definition redis_val :: "('m \<Rightarrow> ('m, 'l, 'c, 'x) go_heap \<Rightarrow> 'mv) \<Rightarrow> ('c \<Rightarrow> ('m, 'l, 'c, 'x) go_heap \<Rightarrow> 'cv) \<Rightarrow>
    'm Redis \<Rightarrow> ('m, 'l, 'c, 'x) go_heap \<Rightarrow> (string \<times> string) \<times> 'mv \<times> (string option \<times> int) \<times> 'cv list option" where
  "redis_val mv cv r h = (redis_TypeMeta r, mv (redis_ObjectMeta r) h, spec_val (redis_Spec r) h, status_val cv (redis_Status r) h)"

definition redis_foot :: "('m \<Rightarrow> ('m, 'l, 'c, 'x) go_heap \<Rightarrow> go_addr set) \<Rightarrow> ('c \<Rightarrow> ('m, 'l, 'c, 'x) go_heap \<Rightarrow> go_addr set) \<Rightarrow>
    'm Redis \<Rightarrow> ('m, 'l, 'c, 'x) go_heap \<Rightarrow> go_addr set" where
  "redis_foot mf cf r h = mf (redis_ObjectMeta r) h \<union> (spec_foot (redis_Spec r) h \<union> status_foot cf (redis_Status r) h)"

definition redis_ok :: "('m \<Rightarrow> ('m, 'l, 'c, 'x) go_heap \<Rightarrow> bool) \<Rightarrow> ('c \<Rightarrow> ('m, 'l, 'c, 'x) go_heap \<Rightarrow> bool) \<Rightarrow>
    'm Redis \<Rightarrow> ('m, 'l, 'c, 'x) go_heap \<Rightarrow> bool" where
  "redis_ok mk ck r h \<longleftrightarrow> mk (redis_ObjectMeta r) h \<and> spec_ok (redis_Spec r) h \<and> status_ok ck (redis_Status r) h"

lemma Redis_DeepCopyInto_deep:
  assumes "deep_copy (ObjectMeta_DeepCopyInto v1) mv mf mk" "deep_copy (Condition_DeepCopyInto v1) cv cf ck"
  shows "deep_copy (Redis_DeepCopyInto v1) (redis_val mv cv) (redis_foot mf cf) (redis_ok mk ck)"
proof -
  let ?part = "\<lambda>r. (redis_ObjectMeta r, redis_Spec r, redis_Status r)"
    and ?upd = "\<lambda>r x. r\<lparr>redis_ObjectMeta := fst x, redis_Spec := fst (snd x), redis_Status := snd (snd x)\<rparr>"
  note parts = deep_copy_pair [OF assms(1) deep_copy_pair [OF spc.deep_copy_axioms RedisStatus_DeepCopyInto_deep [OF assms(2)]]]
  have "deep_copy (\<lambda>r h. Redis_DeepCopyInto v1 r h) (\<lambda>r h. redis_val mv cv r h) (\<lambda>r h. redis_foot mf cf r h) (\<lambda>r h. redis_ok mk ck r h)"
    using deep_copy_part [OF parts, of ?part ?upd redis_TypeMeta]
    unfolding Redis_DeepCopyInto_def redis_val_def redis_foot_def redis_ok_def by (simp add: case_prod_unfold Let_def)
  then show ?thesis .
qed

definition list_val :: "('m \<Rightarrow> ('m, 'l, 'c, 'x) go_heap \<Rightarrow> 'mv) \<Rightarrow> ('l \<Rightarrow> ('m, 'l, 'c, 'x) go_heap \<Rightarrow> 'lv) \<Rightarrow>
    ('c \<Rightarrow> ('m, 'l, 'c, 'x) go_heap \<Rightarrow> 'cv) \<Rightarrow> 'l RedisList \<Rightarrow> ('m, 'l, 'c, 'x) go_heap \<Rightarrow>
    (string \<times> string) \<times> 'lv \<times> ((string \<times> string) \<times> 'mv \<times> (string option \<times> int) \<times> 'cv list option) list option" where
  "list_val mv lv cv l h = (list_TypeMeta l, lv (list_ListMeta l) h, slice_val h_redis (redis_val mv cv) (list_Items l) h)"

definition list_foot :: "('m \<Rightarrow> ('m, 'l, 'c, 'x) go_heap \<Rightarrow> go_addr set) \<Rightarrow> ('l \<Rightarrow> ('m, 'l, 'c, 'x) go_heap \<Rightarrow> go_addr set) \<Rightarrow>
    ('c \<Rightarrow> ('m, 'l, 'c, 'x) go_heap \<Rightarrow> go_addr set) \<Rightarrow> 'l RedisList \<Rightarrow> ('m, 'l, 'c, 'x) go_heap \<Rightarrow> go_addr set" where
  "list_foot mf lf cf l h = lf (list_ListMeta l) h \<union> slice_foot h_redis (redis_foot mf cf) (list_Items l) h"

definition list_ok :: "('m \<Rightarrow> ('m, 'l, 'c, 'x) go_heap \<Rightarrow> bool) \<Rightarrow> ('l \<Rightarrow> ('m, 'l, 'c, 'x) go_heap \<Rightarrow> bool) \<Rightarrow>
    ('c \<Rightarrow> ('m, 'l, 'c, 'x) go_heap \<Rightarrow> bool) \<Rightarrow> 'l RedisList \<Rightarrow> ('m, 'l, 'c, 'x) go_heap \<Rightarrow> bool" where
  "list_ok mk lk ck l h \<longleftrightarrow> lk (list_ListMeta l) h \<and> slice_ok h_redis (redis_ok mk ck) (list_Items l) h"

lemma RedisList_DeepCopyInto_deep:
  assumes "deep_copy (ObjectMeta_DeepCopyInto v1) mv mf mk" "deep_copy (ListMeta_DeepCopyInto v1) lv lf lk"
    "deep_copy (Condition_DeepCopyInto v1) cv cf ck"
  shows "deep_copy (RedisList_DeepCopyInto v1) (list_val mv lv cv) (list_foot mf lf cf) (list_ok mk lk ck)"
proof -
  let ?part = "\<lambda>l. (list_ListMeta l, list_Items l)" and ?upd = "\<lambda>l x. l\<lparr>list_ListMeta := fst x, list_Items := snd x\<rparr>"
  have "elem_copy (Redis_DeepCopyInto v1) (redis_val mv cv) (redis_foot mf cf) (redis_ok mk ck) h_redis put_redis"
    using Redis_DeepCopyInto_deep [OF assms(1,3)] rda.array_heap_axioms by (rule elem_copy.intro)
  note parts = deep_copy_pair [OF assms(2) elem_copy.slice_deep_copy [OF this, of "Redis_zero v1"]]
  have "deep_copy (\<lambda>l h. RedisList_DeepCopyInto v1 l h) (\<lambda>l h. list_val mv lv cv l h) (\<lambda>l h. list_foot mf lf cf l h) (\<lambda>l h. list_ok mk lk ck l h)"
    using deep_copy_part [OF parts, of ?part ?upd list_TypeMeta]
    unfolding RedisList_DeepCopyInto_def list_val_def list_foot_def list_ok_def by (simp add: case_prod_unfold Let_def)
  then show ?thesis .
qed

section \<open>Pointers to them\<close>

lemma Redis_DeepCopy_deep:
  assumes "deep_copy (ObjectMeta_DeepCopyInto v1) mv mf mk" "deep_copy (Condition_DeepCopyInto v1) cv cf ck"
  shows "deep_copy (Redis_DeepCopy v1) (ptr_val h_redis (redis_val mv cv)) (ptr_foot h_redis (redis_foot mf cf)) (ptr_ok h_redis (redis_ok mk ck))"
  unfolding Redis_DeepCopy_def
  by (rule elem_copy.ptr_deep_copy [OF elem_copy.intro [OF Redis_DeepCopyInto_deep [OF assms] rda.array_heap_axioms]])

lemma RedisStatus_DeepCopy_deep:
  assumes "deep_copy (Condition_DeepCopyInto v1) cv cf ck"
  shows "deep_copy (RedisStatus_DeepCopy v1) (ptr_val h_statuses (status_val cv)) (ptr_foot h_statuses (status_foot cf)) (ptr_ok h_statuses (status_ok ck))"
  unfolding RedisStatus_DeepCopy_def
  by (rule elem_copy.ptr_deep_copy [OF elem_copy.intro [OF RedisStatus_DeepCopyInto_deep [OF assms] sta.array_heap_axioms]])

lemma RedisList_DeepCopy_deep:
  assumes "deep_copy (ObjectMeta_DeepCopyInto v1) mv mf mk" "deep_copy (ListMeta_DeepCopyInto v1) lv lf lk"
    "deep_copy (Condition_DeepCopyInto v1) cv cf ck"
  shows "deep_copy (RedisList_DeepCopy v1) (ptr_val h_lists (list_val mv lv cv)) (ptr_foot h_lists (list_foot mf lf cf)) (ptr_ok h_lists (list_ok mk lk ck))"
  unfolding RedisList_DeepCopy_def
  by (rule elem_copy.ptr_deep_copy [OF elem_copy.intro [OF RedisList_DeepCopyInto_deep [OF assms] lsa.array_heap_axioms]])

lemma Redis_DeepCopyObject_nil:
  "Redis_DeepCopyObject v1 None h = (None, h)" "RedisList_DeepCopyObject v1 None h = (None, h)"
  by (simp_all add: Redis_DeepCopyObject_def RedisList_DeepCopyObject_def Redis_DeepCopy_def RedisList_DeepCopy_def ptr_copy_def)

lemma ptr_copy_Some: "fst (ptr_copy get put zero copy (Some p) h) \<noteq> None"
  by (cases p) (simp add: ptr_copy_def split: prod.split)

text \<open>C11. \<open>DeepCopyObject\<close> of a list of Redis objects: the copy has the value of the list, with its names, conditions and metadata, and
  whatever is afterwards stored in the objects that the one of the two reaches, the value of the other stays, if the
  copies of the library's own types are deep.
\<close>

theorem redis_list_deep_copy:
  assumes "deep_copy (ObjectMeta_DeepCopyInto v1) mv mf mk" "deep_copy (ListMeta_DeepCopyInto v1) lv lf lk"
    "deep_copy (Condition_DeepCopyInto v1) cv cf ck"
    and ok: "ptr_ok h_lists (list_ok mk lk ck) (Some p) h"
  defines "val \<equiv> ptr_val h_lists (list_val mv lv cv)" and "foot \<equiv> ptr_foot h_lists (list_foot mf lf cf)"
  shows "\<exists>q h'. RedisList_DeepCopyObject v1 (Some p) h = (Some (RedisListObject q), h') \<and> q \<noteq> None \<and>
    val q h' = val (Some p) h \<and> val (Some p) h' = val (Some p) h \<and> foot (Some p) h' = foot (Some p) h \<and>
    (\<forall>h2. h_next h' \<le> h_next h2 \<longrightarrow>
      ((\<forall>x<h_next h'. x \<notin> foot (Some p) h' \<longrightarrow> same_at h' h2 x) \<longrightarrow> val q h2 = val (Some p) h) \<and>
      ((\<forall>x<h_next h'. x \<notin> foot q h' \<longrightarrow> same_at h' h2 x) \<longrightarrow> val (Some p) h2 = val (Some p) h))"
proof -
  note D = RedisList_DeepCopy_deep [OF assms(1-3), folded val_def foot_def]
  obtain q h' where c: "RedisList_DeepCopy v1 (Some p) h = (q, h')" by force
  have q: "q \<noteq> None" using ptr_copy_Some c unfolding RedisList_DeepCopy_def by (metis fst_conv)
  moreover have "RedisList_DeepCopyObject v1 (Some p) h = (Some (RedisListObject q), h')"
    using q by (simp add: RedisList_DeepCopyObject_def c)
  moreover have "val q h' = val (Some p) h" using deep_copy.copy_new [OF D ok c] by simp
  moreover have "val (Some p) h' = val (Some p) h" "foot (Some p) h' = foot (Some p) h"
    using deep_copy.copy_keeps [OF D ok, of h'] deep_copy.copy_old [OF D ok c] by simp_all
  ultimately show ?thesis using deep_copy.copy_independent [OF D ok c] by blast
qed

lemma deep_copy_ext:
  "deep_copy (\<lambda>m h. go_new put_ext (h_ext h m) h) (\<lambda>m h. h_ext h m) (\<lambda>m h. {m}) (\<lambda>m h. m < h_next h)"
  by (rule deep_copy.intro) (auto simp: go_new_def put_ext_def same_at_def)

text \<open>Metadata that points to its labels, a list with one object, and a name that is overwritten after the copy.\<close>

definition ex_meta :: "(go_addr, string, string, (go_addr, string, string, string) go_heap) meta_v1" where
  "ex_meta = \<lparr>ObjectMeta_DeepCopyInto = (\<lambda>m h. go_new put_ext (h_ext h m) h), ListMeta_DeepCopyInto = (\<lambda>a h. (a, h)),
     Condition_DeepCopyInto = (\<lambda>a h. (a, h)), ObjectMeta_zero = 0, ListMeta_zero = [], Condition_zero = []\<rparr>"

definition ex_redis :: "go_addr Redis" where
  "ex_redis = \<lparr>redis_TypeMeta = (''Redis'', ''v1alpha1''), redis_ObjectMeta = 1,
     redis_Spec = \<lparr>spec_Name = Some 0, spec_Replicas = 3\<rparr>, redis_Status = \<lparr>status_Conditions = Slice 2 0 1\<rparr>\<rparr>"

definition ex_heap :: "(go_addr, string, string, string) go_heap" where
  "ex_heap = \<lparr>h_strings = (\<lambda>_. [])(0 := ''cache''), h_conds = (\<lambda>_. [])(2 := [''Available'']), h_specs = (\<lambda>_. []), h_statuses = (\<lambda>_. []),
     h_redis = (\<lambda>_. [])(3 := [ex_redis]),
     h_lists = (\<lambda>_. [])(4 := [\<lparr>list_TypeMeta = (''RedisList'', ''v1alpha1''), list_ListMeta = [], list_Items = Slice 3 0 1\<rparr>]),
     h_ext = (\<lambda>_. [])(1 := ''app=redis''), h_next = 5\<rparr>"

theorem redis_list_deep_copy_witness:
  "\<exists>q h'. RedisList_DeepCopyObject ex_meta (Some (4, 0)) ex_heap = (Some (RedisListObject q), h') \<and>
    ptr_val h_lists (list_val (\<lambda>m h. h_ext h m) (\<lambda>a h. a) (\<lambda>a h. a)) q (put_string 0 ''other'' h') =
      Some ((''RedisList'', ''v1alpha1''), [],
        Some [((''Redis'', ''v1alpha1''), ''app=redis'', (Some ''cache'', 3), Some [''Available''])])"
proof -
  let ?val = "ptr_val h_lists (list_val (\<lambda>m h. h_ext h m) (\<lambda>a h. a) (\<lambda>a h. a))"
    and ?foot = "ptr_foot h_lists (list_foot (\<lambda>m h. {m}) (\<lambda>a h. {}) (\<lambda>a h. {}))"
  have "deep_copy (ObjectMeta_DeepCopyInto ex_meta) (\<lambda>m h. h_ext h m) (\<lambda>m h. {m}) (\<lambda>m h. m < h_next h)"
    "deep_copy (ListMeta_DeepCopyInto ex_meta) (\<lambda>a h. a) (\<lambda>a h. {}) (\<lambda>a h. True)"
    "deep_copy (Condition_DeepCopyInto ex_meta) (\<lambda>a h. a) (\<lambda>a h. {}) (\<lambda>a h. True)"
    by (simp_all add: ex_meta_def deep_copy_ext deep_copy_plain)
  moreover have "ptr_ok h_lists (list_ok (\<lambda>m h. m < h_next h) (\<lambda>a h. True) (\<lambda>a h. True)) (Some (4, 0)) ex_heap"
    by (simp add: ex_heap_def ex_redis_def list_ok_def redis_ok_def spec_ok_def status_ok_def)
  ultimately obtain q h' where q: "RedisList_DeepCopyObject ex_meta (Some (4, 0)) ex_heap = (Some (RedisListObject q), h')"
    and f: "?foot (Some (4, 0)) h' = ?foot (Some (4, 0)) ex_heap"
    and i: "\<And>h2. h_next h' \<le> h_next h2 \<Longrightarrow> (\<And>x. x < h_next h' \<Longrightarrow> x \<notin> ?foot (Some (4, 0)) h' \<Longrightarrow> same_at h' h2 x) \<Longrightarrow>
      ?val q h2 = ?val (Some (4, 0)) ex_heap"
    using redis_list_deep_copy [of ex_meta "\<lambda>m h. h_ext h m" "\<lambda>m h. {m}" "\<lambda>m h. m < h_next h" "\<lambda>a h. a" "\<lambda>a h. {}" "\<lambda>a h. True"
        "\<lambda>a h. a" "\<lambda>a h. {}" "\<lambda>a h. True" "(4, 0)" ex_heap] by metis
  have "0 \<in> ?foot (Some (4, 0)) h'"
    unfolding f by (simp add: ex_heap_def ex_redis_def list_foot_def redis_foot_def spec_foot_def)
  then have "same_at h' (put_string 0 ''other'' h') x" if "x \<notin> ?foot (Some (4, 0)) h'" for x
    using that by (cases "x = 0") (simp_all add: put_string_def same_at_def)
  then have "?val q (put_string 0 ''other'' h') = ?val (Some (4, 0)) ex_heap"
    by (intro i) (simp_all add: put_string_def)
  also have "\<dots> = Some ((''RedisList'', ''v1alpha1''), [], Some [((''Redis'', ''v1alpha1''), ''app=redis'', (Some ''cache'', 3), Some [''Available''])])"
    by (simp add: ex_heap_def ex_redis_def list_val_def redis_val_def spec_val_def status_val_def)
  finally show ?thesis using q by blast
qed

end
