(* ===== verification/Xds_Server.thy ===== *)
theory Xds_Server
  imports C_Lib
begin

text \<open>
  The xDS control plane (\<open>proxy/envoy/xDS\<close>): the logger, the registration of the services, \<open>RunServer\<close> and \<open>main\<close>. The snapshot and what
  the cache and the network say to it are parameters: \<open>GenerateSnapshot\<close> is called but is not part of the repository. The
  texts that \<open>fmt\<close> makes of the library's values are given with them.
\<close>

section \<open>Logger\<close>

record Logger =
  log_Debug :: bool

text \<open>\<open>log.Printf\<close> with a line feed at the end of the format.\<close>

definition log_Printf :: "string \<Rightarrow> string list \<Rightarrow> string list" where
  "log_Printf msg out = out @ [msg]"

definition Debugf :: "Logger \<Rightarrow> string \<Rightarrow> string list \<Rightarrow> string list" where
  "Debugf l msg out = (if log_Debug l then log_Printf msg out else out)"

definition Infof :: "Logger \<Rightarrow> string \<Rightarrow> string list \<Rightarrow> string list" where
  "Infof l msg out = (if log_Debug l then log_Printf msg out else out)"

definition Warnf :: "Logger \<Rightarrow> string \<Rightarrow> string list \<Rightarrow> string list" where
  "Warnf l msg out = log_Printf msg out"

definition Errorf :: "Logger \<Rightarrow> string \<Rightarrow> string list \<Rightarrow> string list" where
  "Errorf l msg out = log_Printf msg out"

section \<open>Server\<close>

datatype xds_service = AggregatedDiscovery | EndpointDiscovery | ClusterDiscovery | RouteDiscovery | ListenerDiscovery | SecretDiscovery | RuntimeDiscovery

text \<open>Times are in seconds.\<close>

record grpc_options =
  MaxConcurrentStreams :: nat
  keepalive_Time :: nat
  keepalive_Timeout :: nat
  enforcement_MinTime :: nat
  PermitWithoutStream :: bool

definition grpcOptions :: grpc_options where
  "grpcOptions = \<lparr>MaxConcurrentStreams = 1000000, keepalive_Time = 30, keepalive_Timeout = 5, enforcement_MinTime = 30, PermitWithoutStream = True\<rparr>"

record grpc_server =
  server_options :: grpc_options
  services :: "xds_service list"
  served_port :: "nat option"

definition registerServer :: "grpc_server \<Rightarrow> grpc_server" where
  "registerServer g = g\<lparr>services := services g @
     [AggregatedDiscovery, EndpointDiscovery, ClusterDiscovery, RouteDiscovery, ListenerDiscovery, SecretDiscovery, RuntimeDiscovery]\<rparr>"

record xds_env =
  snapshot_text :: string
  consistent_err :: "string option"
  set_err :: "string \<Rightarrow> string option"
  listen_err :: "nat \<Rightarrow> string option"
  serve_err :: "string option"

text \<open>The result is the exit code, if the program exits here, the server and the output. \<open>log.Fatal\<close> exits with 1.\<close>

definition RunServer :: "xds_env \<Rightarrow> nat \<Rightarrow> string list \<Rightarrow> int option \<times> grpc_server \<times> string list" where
  "RunServer env port out =
     (let g = \<lparr>server_options = grpcOptions, services = [], served_port = None\<rparr> in
      case listen_err env port of
        Some e \<Rightarrow> (Some 1, g, out @ [e])
      | None \<Rightarrow>
          let g1 = registerServer g;
              out1 = log_Printf (''management server listening on '' @ dec_string port) out;
              g2 = g1\<lparr>served_port := Some port\<rparr>
          in (case serve_err env of
                Some e \<Rightarrow> (None, g2, out1 @ [e])
              | None \<Rightarrow> (None, g2, out1)))"

record xds_flags =
  flag_debug :: bool
  flag_port :: nat
  flag_nodeID :: string

definition xds_default_flags :: xds_flags where
  "xds_default_flags = \<lparr>flag_debug = False, flag_port = 18000, flag_nodeID = ''test-id''\<rparr>"

text \<open>\<open>%q\<close>: a text in quotes, with escapes for the quote, the backslash and the characters that do not print.\<close>

definition hex_digit :: "nat \<Rightarrow> char" where
  "hex_digit n = (if n < 10 then char_of (48 + n) else char_of (87 + n))"

definition quote_char :: "char \<Rightarrow> string" where
  "quote_char c =
     (let n = (of_char c :: nat); bs = CHR 0x5C in
      if n = 34 \<or> n = 92 then [bs, c]
      else if n = 7 then [bs, CHR ''a''] else if n = 8 then [bs, CHR ''b''] else if n = 9 then [bs, CHR ''t'']
      else if n = 10 then [bs, CHR ''n''] else if n = 11 then [bs, CHR ''v''] else if n = 12 then [bs, CHR ''f'']
      else if n = 13 then [bs, CHR ''r'']
      else if n < 32 \<or> n = 127 then [bs, CHR ''x'', hex_digit (n div 16), hex_digit (n mod 16)]
      else [c])"

definition quote_text :: "string \<Rightarrow> string" where
  "quote_text s = [CHR 0x22] @ concat (map quote_char s) @ [CHR 0x22]"

text \<open>The cache is asked to store the snapshot for the node. The text of an error is ASCII.\<close>

definition xds_main :: "xds_env \<Rightarrow> xds_flags \<Rightarrow> int \<times> grpc_server option \<times> string list" where
  "xds_main env f =
     (let l = \<lparr>log_Debug = flag_debug f\<rparr>; snapshot = snapshot_text env in
      case consistent_err env of
        Some e \<Rightarrow> (1, None, Errorf l (''snapshot inconsistency: '' @ snapshot @ [CHR 0x0A] @ e) [])
      | None \<Rightarrow>
        (let out = Debugf l (''will serve snapshot '' @ snapshot) [] in
         case set_err env (flag_nodeID f) of
           Some e \<Rightarrow> (1, None, Errorf l (''snapshot error '' @ quote_text e @ '' for '' @ snapshot) out)
         | None \<Rightarrow>
           (case RunServer env (flag_port f) out of
              (Some code, g, out') \<Rightarrow> (code, Some g, out')
            | (None, g, out') \<Rightarrow> (0, Some g, out'))))"

section \<open>Outcomes\<close>

text \<open>
  The program serves on its port, with every service once, exactly when the snapshot is consistent and stored and the port could be
  listened on, and only then exits with 0; how the server ended does not matter for the exit code.
\<close>

definition xds_ready :: "xds_env \<Rightarrow> xds_flags \<Rightarrow> bool" where
  "xds_ready env f \<longleftrightarrow> consistent_err env = None \<and> set_err env (flag_nodeID f) = None \<and> listen_err env (flag_port f) = None"

lemma xds_main_exit: "fst (xds_main env f) = (if xds_ready env f then 0 else 1)"
  by (simp add: xds_main_def xds_ready_def RunServer_def Let_def split: option.split)

lemma xds_main_serves:
  "(\<exists>g. fst (snd (xds_main env f)) = Some g \<and> served_port g \<noteq> None) \<longleftrightarrow> xds_ready env f"
  by (simp add: xds_main_def xds_ready_def RunServer_def registerServer_def Let_def split: option.split)

lemma xds_main_services:
  assumes "fst (snd (xds_main env f)) = Some g" "served_port g = Some p"
  shows "p = flag_port f \<and> distinct (services g) \<and> s \<in> set (services g)"
  using assms by (cases s) (auto simp: xds_main_def RunServer_def registerServer_def Let_def split: option.splits)

text \<open>Without the flag nothing about the snapshot is logged unless it is refused.\<close>

lemma xds_main_quiet:
  "xds_ready env f \<Longrightarrow> \<not> flag_debug f \<Longrightarrow> snd (snd (xds_main env f)) =
     (''management server listening on '' @ dec_string (flag_port f)) # (case serve_err env of None \<Rightarrow> [] | Some e \<Rightarrow> [e])"
  by (simp add: xds_main_def xds_ready_def RunServer_def Debugf_def log_Printf_def Let_def split: option.split)

end
