(* ===== verification/Spec2Isabelle.thy ===== *)
theory Spec2Isabelle
  imports Http_Path Raw_Packet Arp Boost_Dns Asio_Echo Epoll_Server Nghttp2_Server Nghttp2_Client Curl_Requests
    Sampler Tracer Metrics Logging Redis_Module Wasm_Filter Support
    Rust_Pool Rust_Channels Dscp_Filter Petstore Go_Programs Go_Tls Operator_Utils
    Operator_Main Operator_Api Xds_Server
begin

text \<open>
  A verification development for the C, C++, Rust and Go programs of the Client-Server repository: small clients and
  servers over sockets, epoll, Boost.Asio, nghttp2 and libcurl, name lookups, a Redis module, two Envoy filters,
  wrappers around OpenTelemetry, a web server and channel examples in Rust, and in Go a pet store and clients and servers over TLS,
  HTTP/2 and gRPC, a Kubernetes operator and an xDS control plane. The programs are independent processes; what they share is one header of
  arguments (\<open>sockets/utils.h\<close>), one of lookups (\<open>sockets/dns_lookup/utils.h\<close>), and the libraries they call.

  \<^bold>\<open>Conventions.\<close> A pure function is a HOL function; a program with state is a record and one definition per function,
  handler or round of a loop, which takes the state and returns it. What C and C++ leave
  undefined is a value: \<open>'a cexec\<close> is \<open>ub + 'a\<close>, where \<open>ub\<close> lists an access outside an object, a null pointer, a
  freed object, a second free, a signed overflow, an unset object and a bad conversion; a claim that a program is
  undefined is an equation with \<open>Inl\<close>. Thrown exceptions and \<open>exit\<close> are \<open>None\<close> or a result of
  their own where a definition says so. Machine integers are words or \<open>int\<close> with the bound written out.
  A variable that may be unset is a \<open>slot\<close>. Text on a stream is the list of its lines. An endless loop is modelled by
  the function of one round, iterated over the list of what the environment answers, or by a step relation over
  its reachable states, so that a claim holds after every finite number of rounds; loops whose end
  depends on the environment are partial functions into \<open>option\<close> (\<open>loop_from\<close>), and the claims say when they return. No
  definition uses fuel. Concurrent programs are schedules: a list of labels of the threads' steps, run by
  \<open>sched\<close> or \<open>for_events\<close>, and the claims hold for every schedule. In the Rust and Go programs nothing is undefined; a panic
  ends its thread, and is \<open>None\<close> or a state of that thread.

  \<^bold>\<open>Parameters.\<close> The kernel, the resolver, nghttp2, libcurl, Boost, fmt, OpenTelemetry, Redis, Envoy and the generated gRPC
  stub are not part of the sources: their answers are arguments, mostly fields of an environment record
  (\<open>ep_env\<close>, \<open>arp_kernel\<close>, \<open>tcp_kernel\<close>, \<open>sig_env\<close>, \<open>easy_lib\<close>, \<open>wasm_host\<close>, ...), and what is documented of them and
  needed is a hypothesis, with a witness that satisfies it. Library functions of the languages are
  defined (\<open>C_Lib\<close>, \<open>Rust_Lib\<close>).

  \<^bold>\<open>Theories.\<close>
  \<^item> \<open>Prelude\<close>: undefined behaviour, checked reads, slots, reachability, the locales \<open>inductive_invariant\<close>,
    \<open>run_invariant\<close>, \<open>schedule\<close> and \<open>allocator\<close>, loops that may not end, and lemmas on words and lists.
  \<^item> \<open>C_Lib\<close>: character classes, C strings, byte order, numerals, \<open>atoi\<close>, case-insensitive comparison.
  \<^item> \<open>Http_Path\<close>: \<open>ends_with\<close>, \<open>hex_to_uint\<close>, \<open>percent_decode\<close> and \<open>check_path\<close> of
    \<open>http2/nghttp2_server/nghttp2.h\<close>. An accepted path never leaves its directory; decoding is the percent
    decoding of the text, and where it reads past its argument.
  \<^item> \<open>Raw_Packet\<close>: \<open>sockets/raw_socket_client.cc\<close>. The checksum is the Internet checksum up to 65536 words, and
    the packet sent carries a header that verifies.
  \<^item> \<open>Arp\<close>: \<open>sockets/dns_lookup/arp.cc\<close>. Frames, descriptors and the wait for a reply.
  \<^item> \<open>Dns\<close>, \<open>Boost_Dns\<close>: \<open>sockets/dns_lookup/utils.h\<close>, \<open>dns.cc\<close>, \<open>posix_async\<close> and \<open>boost\<close>. How often an address is printed,
    when the polling loop returns, who may touch the request of the threaded lookup, and that a timer fires once.
  \<^item> \<open>Tcp_Sockets\<close>, \<open>Asio_Echo\<close>: \<open>sockets/utils.h\<close>, \<open>socket_client.cc\<close>, \<open>socket_server.cc\<close> and \<open>sockets/asio\<close>. Which command lines
    work, what is printed from a receive buffer, and that interleaved connections do not mix.
  \<^item> \<open>Epoll_Kernel\<close>, \<open>Epoll_Server\<close>: \<open>sockets/epoll/epoll_server.cc\<close> over a model of the kernel's registrations. Every
    reachable state keeps its descriptors registered and open, data is echoed, and a hang-up ends the service.
  \<^item> \<open>Nghttp2_Session\<close>, \<open>Nghttp2_Server\<close>: the objects, callbacks and main loop of \<open>http2/nghttp2_server\<close> over an explicit heap.
    Object lifetimes, descriptors of the error reply, and that the library is never given the data received.
  \<^item> \<open>Nghttp2_Client\<close>: \<open>http2/nghttp2_client\<close>. The requests \<open>main\<close> makes and the contract of its callbacks.
  \<^item> \<open>Curl_Client\<close>, \<open>Curl_Requests\<close>: \<open>http2/libcurl_client\<close>. The dump, the timers and their threads, and the lifetimes of what the two
    programs hand to libcurl.
  \<^item> \<open>Float64\<close>, \<open>Sampler\<close>: \<open>opentelemetry/jaeger/sampler.h\<close> with the rounding of doubles. The threshold of a ratio and the
    share of trace identifiers it samples.
  \<^item> \<open>Std_Map\<close>, \<open>Tracer\<close>: the rest of \<open>opentelemetry/jaeger\<close>. What is injected is extracted.
  \<^item> \<open>Metrics\<close>: \<open>opentelemetry/prometheus\<close>. Ownership of instruments, and the command loop against the
    counters it stands for.
  \<^item> \<open>Logging\<close>: \<open>opentelemetry/logging\<close>. The lines a logger prints and the life of the provider.
  \<^item> \<open>Redis_Module\<close>: \<open>database/redis/module\<close>. Argument parsing and the command.
  \<^item> \<open>Wasm_Filter\<close>: \<open>proxy/envoy/wasm/dscp/dscp-filter.cc\<close>. What a client receives through the filter.
  \<^item> \<open>Support\<close>: the gRPC client, the log handler and the mocks of the metrics tests.
  \<^item> \<open>Rust_Lib\<close>, \<open>Rust_Pool\<close>: \<open>concurrency/rust/rust_web_server\<close>. The thread pool hands out every connection once and
    in order and always has a step to take, until four answers have panicked; responses are read back.
  \<^item> \<open>Rust_Channels\<close>: \<open>concurrency/rust/examples\<close>. Messages arrive in order within the capacity and the loops end; the counter is ten.
  \<^item> \<open>Petstore\<close>: \<open>k8s/example-pod\<close>, with the identifiers of pets and orders as addresses of an explicit heap. What is reported under a
    key, what sharing the counter does to generated identifiers, when a user can log in, and that the order in which a map is visited
    does not matter.
  \<^item> \<open>Go_Programs\<close>, \<open>Go_Tls\<close>: \<open>sockets/epoll/go_client\<close>, \<open>http2/go_server\<close>, \<open>http2/go_client\<close>, \<open>grpc/go/hello\<close>,
    \<open>proxy/envoy/wasm/example\<close> and \<open>crypto\<close>. When the handler of a TLS connection returns, and how often a request has its body.
  \<^item> \<open>Operator_Api\<close>: the API types of \<open>k8s/example-operator/api/v1alpha1\<close> on an explicit heap. The locale \<open>deep_copy\<close> is the contract of a deep
    copy, \<open>elem_copy\<close> carries it to slices and pointers; the copies of all types keep it, so that a copy shares nothing with its original.
  \<^item> \<open>Operator_Main\<close>: \<open>k8s/example-operator/cmd/main.go\<close> and \<open>internal/controller\<close>. When the manager starts, what its servers negotiate, exit codes.
  \<^item> \<open>Operator_Utils\<close>: \<open>k8s/example-operator/test/utils/utils.go\<close>. Which commands run, in which order and where, uncommenting a block,
    and searching line by line.
  \<^item> \<open>Xds_Server\<close>: \<open>proxy/envoy/xDS\<close>. When the control plane serves, its services, and its exit codes.
  \<^item> \<open>Dscp_Filter\<close>: \<open>proxy/envoy/dynamic_modules/dscp_filter\<close>. Which headers set which socket option.

  \<^bold>\<open>Bounds.\<close> The sampler's claims are for ratios between 0 and 1 with the error margin of the doubles written out; the
  checksum is exact up to 65536 words because its accumulator has 32 bits; timer identifiers overflow \<open>int\<close> at the
  2147483rd timer; a receive buffer has the size the source gives it (256, 1024).

  \<^bold>\<open>Together.\<close> This theory composes the programs that talk to each other: the socket and Asio clients with their servers, the
  Go client with the epoll server, and the HTTP/2 programs in Go with the dynamic module of the proxy.

  \<^bold>\<open>Not modelled.\<close> The option parsing of \<open>opentelemetry/prometheus/example.cc\<close>, which is Boost's; the empty gRPC server; the programs of
  \<open>debugging\<close>, which print their names or crash on purpose; the snapshot of the xDS control plane, which it asks of a function the
  repository does not have; the tests of the operator; the routing of the pet store, which is
  generated; shell scripts, configuration and notes. Timing is not modelled beyond the order of events, and memory
  exhaustion is not.
\<close>

section \<open>Clients and servers of the repository together\<close>

text \<open>C28. The repository's own clients take its servers out of the defined language with their first message: a started
  \<open>socket_server\<close> that receives the payload of \<open>socket_client\<close>, and a fresh connection of the Asio server
  that receives the payload of the Asio client, print bytes they have never written. The payloads are
  those the two clients hand to \<open>send\<close> and \<open>write\<close>, whatever the system calls answer.
\<close>

theorem own_clients_first_message:
  assumes "client_setup k cargv = Inr c" "server_setup k' sargv = Inr (p, s)"
    and "asio_client from_string show_endpoint net aargv = Some (Inr (0, sent, t))"
  shows "server_round (fd, map str_bytes (tc_sent (client_rounds k [r] c))) s = Inl Uninitialised \<and>
    map (\<lambda>m. echo_read (str_bytes m) echo_new) sent = [Inl Uninitialised]"
proof -
  have "tc_sent c = []" using assms(1) by (auto simp: client_setup_def cbind_eq_Inr Let_def)
  then have "tc_sent (client_rounds k [r] c) = [''test'']" by (simp add: client_rounds_sent)
  moreover have "0 \<notin> set (str_bytes ''test'')" "length (str_bytes ''test'') < SERVER_BUF"
    by (simp_all add: str_bytes_def SERVER_BUF_def)
  moreover have "ts_buf s = replicate SERVER_BUF Uninit"
    using assms(2) by (auto simp: server_setup_def cbind_eq_Inr Let_def)
  ultimately have "server_round (fd, map str_bytes (tc_sent (client_rounds k [r] c))) s = Inl Uninitialised"
    using print_cbuf_fresh [of "str_bytes ''test''" SERVER_BUF] by (simp add: server_round_def Let_def)
  moreover have "sent = [hello_msg]"
    using assms(3) by (auto simp: asio_client_def Let_def split: sum.splits option.splits if_splits prod.splits)
  moreover have "0 \<notin> set (str_bytes hello_msg)" "length (str_bytes hello_msg) < ECHO_BUF"
    by (simp_all add: str_bytes_def hello_msg_def ECHO_BUF_def)
  ultimately show ?thesis
    using print_cbuf_fresh [of "str_bytes hello_msg" ECHO_BUF] by (simp add: echo_read_def echo_new_def)
qed

theorem own_clients_first_message_witness:
  "\<exists>c p s sent t. client_setup demo_tcp [''client'', ''127.0.0.1'', ''3000''] = Inr c \<and>
     server_setup demo_tcp [''server'', ''127.0.0.1'', ''3000''] = Inr (p, s) \<and>
     asio_client (\<lambda>a. Some a) ip \<lparr>an_connect = None, an_write = None, an_read = [], an_read_error = None, an_eof = True\<rparr> [''client''] =
       Some (Inr (0, sent, t)) \<and>
     server_round (5, map str_bytes (tc_sent (client_rounds demo_tcp [(4, 0)] c))) s = Inl Uninitialised \<and>
     echo_read (str_bytes (hd sent)) echo_new = Inl Uninitialised"
proof -
  have n: "atoi ''3000'' = Inr 3000"
    by (simp add: atoi_def isspace_def digit_val_def INT_MIN_def INT_MAX_def Let_def)
  have "\<exists>c. client_setup demo_tcp [''client'', ''127.0.0.1'', ''3000''] = Inr c"
    using n by (simp add: client_setup_def getHostFromArg_ip_port_def argv_at_def deref_host_def Let_def)
  moreover have "\<exists>p s. server_setup demo_tcp [''server'', ''127.0.0.1'', ''3000''] = Inr (p, s)"
    using n by (simp add: server_setup_def getHostFromArg_ip_port_def argv_at_def deref_host_def Let_def)
  moreover have "\<exists>sent t. asio_client (\<lambda>a. Some a) ip
      \<lparr>an_connect = None, an_write = None, an_read = [], an_read_error = None, an_eof = True\<rparr> [''client''] = Some (Inr (0, sent, t))"
    by (simp add: asio_client_def getHostFromArg_ip_port_def)
  ultimately obtain c p s sent t where
    c: "client_setup demo_tcp [''client'', ''127.0.0.1'', ''3000''] = Inr c" and
    s: "server_setup demo_tcp [''server'', ''127.0.0.1'', ''3000''] = Inr (p, s)" and
    a: "asio_client (\<lambda>a. Some a) ip \<lparr>an_connect = None, an_write = None, an_read = [], an_read_error = None, an_eof = True\<rparr> [''client''] =
       Some (Inr (0, sent, t))" by blast
  from own_clients_first_message [OF c s a, of 5 "(4, 0)"] have
    "server_round (5, map str_bytes (tc_sent (client_rounds demo_tcp [(4, 0)] c))) s = Inl Uninitialised"
    "echo_read (str_bytes (hd sent)) echo_new = Inl Uninitialised" by (auto simp: map_eq_Cons_conv)
  with c s a show ?thesis by blast
qed


definition demo_net :: go_net where
  "demo_net = \<lparr>resolve_err = None, dial_err = None, write_err = None, read_data = ''client'', read_err = None\<rparr>"


text \<open>The HTTP/2 programs in Go through the dynamic module of the proxy: the request header of the client makes the module set the type of service
  248 (code point 62) on the connection to the server before it is bound, and the response header of the server makes it set
  136 (code point 34) on the connection of the client, and nothing else is set, whatever the proxy answers.
\<close>

theorem go_dscp_through_filter:
  "options_set (snd (filter_run
       [OnRequest opt (map_of h2_request_header ''x-dscp''),
        OnResponse opt' (map_of (h2_header (fst (h2_handler url_path has_tls))) ''x-dscp'')] (new_http_filter cfg, []))) =
     [(0, 1, Prebind, Upstream, 248), (0, 1, Bound, Downstream, 136)]"
proof -
  have "dec_string 62 = ''62''" "dec_string 34 = ''34''" by code_simp+
  then have "header_dscp ''62'' = Some 62" "header_dscp ''34'' = Some 34"
    using header_dscp_dec_string [of 62] header_dscp_dec_string [of 34] by simp_all
  then show ?thesis
    unfolding filter_run_options by (simp add: option_wanted_def h2_request_header_def h2_handler_def)
qed

end
